(* ===== verification/Prelude.thy ===== *)
theory Prelude
  imports Complex_Main
begin

text \<open>
  Shared vocabulary of the development: the Python exceptions the three
  scripts can raise, the result type \<open>py_error + 'a\<close> in which a raise is an
  \<open>Inl\<close> value, the bind \<open>ebind\<close> that threads a result through a sequence of
  statements (the first raise aborts the rest, as the uncaught exception
  aborts the script), the non-finite values \<open>inf\<close>, \<open>-inf\<close> and
  \<open>nan\<close> at which numpy float arithmetic leaves the reals, the type \<open>vec\<close> of one-dimensional numpy float arrays
  (Python floats are modelled as reals, see the header of Spec2Isabelle),
  and the list lemmas on element-wise products that the component proofs
  share.
\<close>

text \<open>
  \<open>NonFinite v\<close> is not a Python exception: numpy float64 arithmetic gave
  the IEEE 754 value \<open>v\<close> (numpy issues a \<open>RuntimeWarning\<close> and the script
  runs on). The real numbers of the model cannot carry such a value, so a
  run of the model ends at the first one, naming it.
\<close>

datatype nonfinite = PosInf | NegInf | NaN

datatype py_error =
    IndexError
  | KeyError string
  | ValueError
  | NameError string
  | ZeroDivisionError
  | NonFinite nonfinite

type_synonym 'a result = "py_error + 'a"

type_synonym vec = "real list"

text \<open>\<open>dot x w\<close> is \<open>sum(x * w)\<close> for arrays of equal shape.\<close>

abbreviation dot :: "vec \<Rightarrow> vec \<Rightarrow> real" where
  "dot x w \<equiv> sum_list (map2 (*) x w)"

named_theorems result_simps "evaluation rules for results threaded by ebind"

definition ebind :: "'a result \<Rightarrow> ('a \<Rightarrow> 'b result) \<Rightarrow> 'b result" where
  "ebind r k = (case r of Inl e \<Rightarrow> Inl e | Inr a \<Rightarrow> k a)"

lemma ebind_Inl [simp, result_simps]: "ebind (Inl e) k = Inl e"
  by (simp add: ebind_def)

lemma ebind_Inr [simp, result_simps]: "ebind (Inr a) k = k a"
  by (simp add: ebind_def)

lemma ebind_eq_Inr_iff: "ebind r k = Inr b \<longleftrightarrow> (\<exists>a. r = Inr a \<and> k a = Inr b)"
  by (cases r) auto

lemma ebind_eq_Inl_iff:
  "ebind r k = Inl e \<longleftrightarrow> r = Inl e \<or> (\<exists>a. r = Inr a \<and> k a = Inl e)"
  by (cases r) auto

subsection \<open>Element-wise products of float lists\<close>

text \<open>
  \<open>sum_list (map2 (*) x w)\<close> is what \<open>sum(x * w)\<close> computes on two arrays of
  equal shape; the lemmas below are the algebra of it that the trainers use.
\<close>

lemma sum_map2_mult_add:
  "length a = length b \<Longrightarrow> length b = length c \<Longrightarrow>
   sum_list (map2 (*) a (map2 (+) b c)) =
   sum_list (map2 (*) a b) + sum_list (map2 (*) (a::real list) c)"
proof (induction a arbitrary: b c)
  case Nil
  then show ?case by simp
next
  case (Cons x a)
  then obtain y b' z c' where "b = y # b'" "c = z # c'"
    by (metis length_Suc_conv)
  with Cons show ?case by (simp add: algebra_simps)
qed

lemma sum_map2_mult_diff:
  "length a = length b \<Longrightarrow> length b = length c \<Longrightarrow>
   sum_list (map2 (*) a (map2 (-) b c)) =
   sum_list (map2 (*) a b) - sum_list (map2 (*) (a::real list) c)"
proof (induction a arbitrary: b c)
  case Nil
  then show ?case by simp
next
  case (Cons x a)
  then obtain y b' z c' where "b = y # b'" "c = z # c'"
    by (metis length_Suc_conv)
  with Cons show ?case by (simp add: algebra_simps)
qed

lemma sum_map2_mult_update:
  "i < length a \<Longrightarrow> length a = length b \<Longrightarrow>
   sum_list (map2 (*) a (b[i := v])) =
   sum_list (map2 (*) a b) + (a ! i) * (v - b ! i :: real)"
proof (induction a arbitrary: b i)
  case Nil
  then show ?case by simp
next
  case (Cons x a)
  then obtain y b' where b: "b = y # b'"
    by (metis length_Suc_conv)
  show ?case
  proof (cases i)
    case 0
    with b show ?thesis by (simp add: algebra_simps)
  next
    case (Suc j)
    with Cons.prems b have "j < length a" "length a = length b'" by auto
    with Cons.IH [of j b'] b Suc show ?thesis by simp
  qed
qed

lemma sum_map2_mult_scale:
  "sum_list (map2 (*) a (map (\<lambda>x. c * x) b)) = c * sum_list (map2 (*) (a::real list) b)"
proof (induction a arbitrary: b)
  case Nil
  then show ?case by simp
next
  case (Cons x a)
  then show ?case by (cases b) (simp_all add: algebra_simps)
qed

lemma sum_map2_mult_commute: "sum_list (map2 (*) a b) = sum_list (map2 (*) b (a::real list))"
proof (induction a arbitrary: b)
  case Nil
  then show ?case by simp
next
  case (Cons x a)
  then show ?case by (cases b) (simp_all add: mult.commute)
qed

lemma sum_map2_mult_self_nonneg: "0 \<le> sum_list (map2 (*) a (a::real list))"
  by (induction a) auto

lemma map2_add_replicate_zero_update:
  "i < length w \<Longrightarrow>
   map2 (+) w ((replicate (length w) 0)[i := e]) = w[i := w ! i + (e::real)]"
  by (rule nth_equalityI) (auto simp: nth_list_update)

lemma fold_update_upt:
  "length d = n \<Longrightarrow>
   fold (\<lambda>i d. d[i := g i]) [0..<n] d = map g [0..<n]"
proof -
  have gen: "\<And>k. k \<le> n \<Longrightarrow> length d = n \<Longrightarrow>
    fold (\<lambda>i d. d[i := g i]) [0..<k] d = map g [0..<k] @ drop k d"
  proof -
    fix k assume "k \<le> n" "length d = n"
    then show "fold (\<lambda>i d. d[i := g i]) [0..<k] d = map g [0..<k] @ drop k d"
    proof (induction k)
      case 0
      then show ?case by simp
    next
      case (Suc k)
      then have "k < length d" by simp
      then have "(map g [0..<k] @ drop k d)[k := g k] = map g [0..<Suc k] @ drop (Suc k) d"
        by (simp add: list_update_append Cons_nth_drop_Suc [symmetric])
      with Suc show ?case by simp
    qed
  qed
  assume "length d = n"
  with gen [of n] show ?thesis by simp
qed

subsection \<open>Gradient steps\<close>

text \<open>A gradient step \<open>w - s * g\<close>, element-wise, and the squared distance.\<close>

definition descend :: "real \<Rightarrow> vec \<Rightarrow> vec \<Rightarrow> vec" where
  "descend s w g = map2 (\<lambda>wi gi. wi - s * gi) w g"

definition sqdist :: "vec \<Rightarrow> vec \<Rightarrow> real" where
  "sqdist a b = dot (map2 (-) a b) (map2 (-) a b)"

lemma descend_Nil [simp]: "descend s [] g = []" "descend s w [] = []"
  and descend_Cons [simp]: "descend s (a # w) (b # g) = (a - s * b) # descend s w g"
  and descend_length [simp]: "length (descend s w g) = min (length w) (length g)"
  by (simp_all add: descend_def)

lemma descend_map: "descend s w (map h x) = map2 (\<lambda>wi xi. wi - s * h xi) w x"
  by (simp add: descend_def zip_map2 case_prod_beta)

lemma map2_map_right: "map2 f w (map g x) = map2 (\<lambda>a b. f a (g b)) w x"
  by (simp add: zip_map2 case_prod_beta)

lemma sqdist_Cons [simp]: "sqdist (a # w) (b # v) = (a - b)\<^sup>2 + sqdist w v"
  and sqdist_Nil [simp]: "sqdist [] v = 0"
  by (simp_all add: sqdist_def power2_eq_square)

lemma sqdist_nonneg: "0 \<le> sqdist a b"
  by (simp add: sqdist_def sum_map2_mult_self_nonneg)

lemma descend_iadd:
  "length w = length g \<Longrightarrow> map2 (+) w (map (\<lambda>x. - (s * x)) g) = descend s w g"
proof (induction w arbitrary: g)
  case Nil
  then show ?case by simp
next
  case (Cons a w)
  then obtain b g' where "g = b # g'" by (cases g) auto
  with Cons show ?case by simp
qed

lemma dot_descend:
  "length x = length w \<Longrightarrow> length w = length g \<Longrightarrow>
   dot x (descend s w g) = dot x w - s * dot x g"
proof (induction x arbitrary: w g)
  case Nil
  then show ?case by simp
next
  case (Cons a x)
  then obtain b w' d g' where "w = b # w'" "g = d # g'"
    by (metis length_Suc_conv)
  with Cons show ?case by (simp add: algebra_simps)
qed

lemma sqdist_descend:
  "length w = length g \<Longrightarrow> length v = length g \<Longrightarrow>
   sqdist (descend s w g) v = sqdist w v - 2 * s * dot g (map2 (-) w v) + s\<^sup>2 * dot g g"
proof (induction g arbitrary: w v)
  case Nil
  then show ?case by simp
next
  case (Cons d g)
  then obtain b w' c v' where "w = b # w'" "v = c # v'"
    by (metis length_Suc_conv)
  with Cons show ?case by (simp add: algebra_simps power2_eq_square)
qed


subsection \<open>Printed output\<close>

text \<open>
  A run of a script as the lines it prints and its outcome: \<open>('o, 'a) io\<close>
  pairs the printed lines, in order, with the result. \<open>tbind\<close> runs the
  rest of the script on a value and appends what it prints; on a raise the
  lines printed so far stay printed and nothing more is run. \<open>emit l\<close> is a
  \<open>print\<close> statement, \<open>io_lift\<close> a computation that prints nothing.
\<close>

type_synonym ('o, 'a) io = "'o list \<times> 'a result"

named_theorems io_simps "evaluation rules for printing runs threaded by tbind"

definition io_return :: "'a \<Rightarrow> ('o, 'a) io" where
  "io_return a = ([], Inr a)"

definition io_lift :: "'a result \<Rightarrow> ('o, 'a) io" where
  "io_lift r = ([], r)"

definition emit :: "'o \<Rightarrow> ('o, unit) io" where
  "emit l = ([l], Inr ())"

definition tbind :: "('o, 'a) io \<Rightarrow> ('a \<Rightarrow> ('o, 'b) io) \<Rightarrow> ('o, 'b) io" where
  "tbind m k =
     (case snd m of
        Inl e \<Rightarrow> (fst m, Inl e)
      | Inr a \<Rightarrow> (fst m @ fst (k a), snd (k a)))"

lemma tbind_lift_Inr [simp, io_simps]: "tbind (io_lift (Inr a)) k = k a"
  by (simp add: tbind_def io_lift_def)

lemma tbind_lift_Inl [simp, io_simps]: "tbind (io_lift (Inl e)) k = ([], Inl e)"
  by (simp add: tbind_def io_lift_def)

lemma tbind_return [simp, io_simps]: "tbind (io_return a) k = k a"
  by (simp add: tbind_def io_return_def)

lemma tbind_emit [simp, io_simps]: "tbind (emit l) k = (l # fst (k ()), snd (k ()))"
  by (simp add: tbind_def emit_def)

lemma tbind_emit_if [simp, io_simps]:
  "tbind (if b then emit l else io_return ()) k = ((if b then [l] else []) @ fst (k ()), snd (k ()))"
  by (simp add: tbind_def emit_def io_return_def)

lemma tbind_pair_Inr [simp, io_simps]: "tbind (os, Inr a) k = (os @ fst (k a), snd (k a))"
  by (simp add: tbind_def)

lemma tbind_pair_Inl [simp, io_simps]: "tbind (os, Inl e) k = (os, Inl e)"
  by (simp add: tbind_def)

lemma tbind_Inr [io_simps]: "snd m = Inr a \<Longrightarrow> tbind m k = (fst m @ fst (k a), snd (k a))"
  by (simp add: tbind_def)

lemma tbind_Inl [io_simps]: "snd m = Inl e \<Longrightarrow> tbind m k = (fst m, Inl e)"
  by (simp add: tbind_def)

text \<open>Erasing the output: the outcome of a printing run is the \<open>ebind\<close> of the outcomes.\<close>

lemma snd_tbind [simp]: "snd (tbind m k) = ebind (snd m) (\<lambda>a. snd (k a))"
  by (cases "snd m") (simp_all add: tbind_def)

lemma snd_io [simp]: "snd (io_lift r) = r" "snd (io_return a) = Inr a" "snd (emit l) = Inr ()"
  and fst_io [simp]: "fst (io_lift r) = []" "fst (io_return a) = []" "fst (emit l) = [l]"
  by (simp_all add: io_lift_def io_return_def emit_def)

lemma length_concat_blocks:
  "\<forall>j < n. length (f j) = m \<Longrightarrow> length (concat (map f [0..<n])) = m * n"
  by (induction n) auto

text \<open>Element \<open>k\<close> of block \<open>i\<close> of a sequence of equally long blocks.\<close>

lemma nth_concat_blocks:
  assumes "\<forall>j < n. length (f j) = m" "i < n" "k < m"
  shows "concat (map f [0..<n]) ! (m * i + k) = f i ! k"
  using assms
proof (induction n)
  case 0
  then show ?case by simp
next
  case (Suc n)
  have len: "length (concat (map f [0..<n])) = m * n"
    using Suc.prems(1) length_concat_blocks [of n f m] by simp
  show ?case
  proof (cases "i < n")
    case True
    have "m * i + k < m * Suc i" using Suc.prems(3) by simp
    also have "\<dots> \<le> m * n" using True by (intro mult_le_mono2) simp
    finally have "m * i + k < m * n" .
    with True Suc show ?thesis by (simp add: nth_append len)
  next
    case False
    with Suc.prems(2) have "i = n" by simp
    then show ?thesis by (simp add: nth_append len)
  qed
qed

end
