(* ===== verification/Numpy.thy ===== *)
theory Numpy
  imports Prelude
begin

text \<open>
  The numpy and Python built-in operations the scripts call, on
  one-dimensional float arrays (\<open>vec\<close>). Element-wise binary operators
  broadcast a length-1 operand and raise \<open>ValueError\<close> on any other shape
  mismatch; the in-place \<open>+=\<close> also raises when the broadcast result does not
  have the shape of the left operand; item assignment out of range raises
  \<open>IndexError\<close>. Scalar-array operators never fail.
\<close>

definition np_zeros :: "nat \<Rightarrow> vec" where
  "np_zeros n = replicate n 0"

text \<open>\<open>np.insert(a, 0, v)\<close>: a new array with \<open>v\<close> in front.\<close>

definition np_insert0 :: "vec \<Rightarrow> real \<Rightarrow> vec" where
  "np_insert0 a v = v # a"

definition np_broadcast :: "(real \<Rightarrow> real \<Rightarrow> real) \<Rightarrow> vec \<Rightarrow> vec \<Rightarrow> vec result" where
  "np_broadcast op xs ys =
     (if length xs = length ys then Inr (map2 op xs ys)
      else (case (xs, ys) of
              ([a], _) \<Rightarrow> Inr (map (op a) ys)
            | (_, [b]) \<Rightarrow> Inr (map (\<lambda>x. op x b) xs)
            | _ \<Rightarrow> Inl ValueError))"

definition np_mul :: "vec \<Rightarrow> vec \<Rightarrow> vec result" where
  "np_mul xs ys = np_broadcast (*) xs ys"

definition np_add :: "vec \<Rightarrow> vec \<Rightarrow> vec result" where
  "np_add xs ys = np_broadcast (+) xs ys"

text \<open>\<open>w += v\<close> on an array: the broadcast sum must keep the shape of \<open>w\<close>.\<close>

definition np_iadd :: "vec \<Rightarrow> vec \<Rightarrow> vec result" where
  "np_iadd w v =
     ebind (np_add w v) (\<lambda>r. if length r = length w then Inr r else Inl ValueError)"

definition np_smul :: "real \<Rightarrow> vec \<Rightarrow> vec" where
  "np_smul c xs = map (\<lambda>x. c * x) xs"

definition np_muls :: "vec \<Rightarrow> real \<Rightarrow> vec" where
  "np_muls xs c = map (\<lambda>x. x * c) xs"

definition np_divs :: "vec \<Rightarrow> real \<Rightarrow> vec" where
  "np_divs xs c = map (\<lambda>x. x / c) xs"

definition np_subs :: "vec \<Rightarrow> real \<Rightarrow> vec" where
  "np_subs xs c = map (\<lambda>x. x - c) xs"

definition np_setitem :: "vec \<Rightarrow> nat \<Rightarrow> real \<Rightarrow> vec result" where
  "np_setitem xs i v = (if i < length xs then Inr (xs[i := v]) else Inl IndexError)"

definition py_index :: "'a list \<Rightarrow> nat \<Rightarrow> 'a result" where
  "py_index xs i = (if i < length xs then Inr (xs ! i) else Inl IndexError)"

text \<open>The built-in \<open>sum\<close>: start at 0 and add from the left.\<close>

definition py_sum :: "real list \<Rightarrow> real" where
  "py_sum xs = foldl (+) 0 xs"

text \<open>\<open>np.diff(a)\<close>: the successive differences \<open>a[i+1] - a[i]\<close>.\<close>

definition np_diff :: "real list \<Rightarrow> real list" where
  "np_diff xs = map2 (-) (tl xs) xs"

text \<open>\<open>np.allclose(a, b)\<close> with numpy's defaults \<open>rtol = 1e-5\<close>, \<open>atol = 1e-8\<close>.\<close>

definition np_allclose :: "real list \<Rightarrow> real \<Rightarrow> bool" where
  "np_allclose xs b = list_all (\<lambda>a. \<bar>a - b\<bar> \<le> 1 / 10^8 + 1 / 10^5 * \<bar>b\<bar>) xs"

text \<open>
  A Python \<open>dict\<close> with string keys (a CSV row, a vocabulary) as an
  association list without repeated keys; \<open>d[k]\<close> raises \<open>KeyError(k)\<close>.
\<close>

definition py_getitem :: "(string \<times> 'a) list \<Rightarrow> string \<Rightarrow> 'a result" where
  "py_getitem d k = (case map_of d k of None \<Rightarrow> Inl (KeyError k) | Some v \<Rightarrow> Inr v)"

text \<open>
  Division \<open>a / b\<close> of a numpy float64 \<open>a\<close> by a float \<open>b\<close>. numpy follows
  IEEE 754 and does not raise: for \<open>b = 0.0\<close> it returns \<open>inf\<close> or \<open>-inf\<close>
  by the sign of \<open>a\<close>, and \<open>nan\<close> for \<open>0.0 / 0.0\<close>, with a
  \<open>RuntimeWarning\<close>. Only the positive zero is a real, so this is the
  division by \<open>+0.0\<close> (\<open>E = 0.\<close> in the script).
\<close>

definition py_fdiv :: "real \<Rightarrow> real \<Rightarrow> real result" where
  "py_fdiv a b =
     (if b = 0 then Inl (NonFinite (if 0 < a then PosInf else if a < 0 then NegInf else NaN))
      else Inr (a / b))"

text \<open>
  Division \<open>a / n\<close> of a Python float by a length (the accuracy counters of
  10 start at \<open>0.0\<close> and count with \<open>+= 1\<close>, so they stay Python floats):
  \<open>ZeroDivisionError\<close> when \<open>n = 0\<close>.
\<close>

definition py_div :: "real \<Rightarrow> nat \<Rightarrow> real result" where
  "py_div a n = (if n = 0 then Inl ZeroDivisionError else Inr (a / real n))"

text \<open>
  \<open>float(s)\<close> on the decimal literals a CSV column holds: an optional sign,
  digits, optionally a point and more digits, at least one digit in all;
  anything else raises \<open>ValueError\<close>. (Python also accepts surrounding
  blanks, exponents, underscores, \<open>inf\<close> and \<open>nan\<close>; those forms are
  outside this model.)
\<close>

definition is_digit :: "char \<Rightarrow> bool" where
  "is_digit c \<longleftrightarrow> 48 \<le> (of_char c :: nat) \<and> (of_char c :: nat) \<le> 57"

definition digits_value :: "string \<Rightarrow> nat" where
  "digits_value cs = foldl (\<lambda>n c. 10 * n + (of_char c - 48)) (0 :: nat) cs"

definition parse_unsigned :: "string \<Rightarrow> real option" where
  "parse_unsigned s =
     (let ip = takeWhile is_digit s; rest = dropWhile is_digit s in
      if rest = [] then (if ip = [] then None else Some (real (digits_value ip)))
      else if hd rest = CHR ''.'' \<and> list_all is_digit (tl rest) \<and> (ip \<noteq> [] \<or> tl rest \<noteq> [])
      then Some (real (digits_value ip) + real (digits_value (tl rest)) / 10 ^ length (tl rest))
      else None)"

definition py_float :: "string \<Rightarrow> real result" where
  "py_float s =
     (let r = (case s of
                 c # cs \<Rightarrow> (if c = CHR ''-'' then map_option uminus (parse_unsigned cs)
                           else if c = CHR ''+'' then parse_unsigned cs
                           else parse_unsigned s)
               | [] \<Rightarrow> None)
      in case r of None \<Rightarrow> Inl ValueError | Some v \<Rightarrow> Inr v)"

subsection \<open>Shapes and values\<close>

lemma np_mul_same [simp]: "length xs = length ys \<Longrightarrow> np_mul xs ys = Inr (map2 (*) xs ys)"
  by (simp add: np_mul_def np_broadcast_def)

lemma np_add_same [simp]: "length xs = length ys \<Longrightarrow> np_add xs ys = Inr (map2 (+) xs ys)"
  by (simp add: np_add_def np_broadcast_def)

lemma np_iadd_same [simp]: "length w = length v \<Longrightarrow> np_iadd w v = Inr (map2 (+) w v)"
  by (simp add: np_iadd_def)

lemma np_broadcast_mismatch:
  "length xs \<noteq> length ys \<Longrightarrow> length xs \<noteq> 1 \<Longrightarrow> length ys \<noteq> 1 \<Longrightarrow>
   np_broadcast op xs ys = Inl ValueError"
  by (auto simp: np_broadcast_def split: list.split)

lemma py_sum_eq [simp]: "py_sum xs = sum_list xs"
proof -
  have "\<And>a. foldl (+) a xs = a + sum_list (xs :: real list)"
    by (induction xs) (simp_all add: algebra_simps)
  then show ?thesis by (simp add: py_sum_def)
qed

lemma np_zeros_length [simp]: "length (np_zeros n) = n"
  by (simp add: np_zeros_def)

lemma np_zeros_update_zero [simp]: "(np_zeros n)[i := 0] = np_zeros n"
  unfolding np_zeros_def by (metis list_update_id list_update_beyond length_replicate not_le nth_replicate)

lemma map2_add_np_zeros [simp]: "length w = n \<Longrightarrow> map2 (+) w (np_zeros n) = w"
  by (induction w arbitrary: n) (auto simp: np_zeros_def)

lemma np_setitem_in [simp]: "i < length xs \<Longrightarrow> np_setitem xs i v = Inr (xs[i := v])"
  by (simp add: np_setitem_def)

lemma py_fdiv_nonzero [simp]: "b \<noteq> 0 \<Longrightarrow> py_fdiv a b = Inr (a / b)"
  by (simp add: py_fdiv_def)

lemma py_index_in [simp]: "i < length xs \<Longrightarrow> py_index xs i = Inr (xs ! i)"
  by (simp add: py_index_def)

lemma py_index_out [simp]: "length xs \<le> i \<Longrightarrow> py_index xs i = Inl IndexError"
  by (simp add: py_index_def)

lemma np_smul_length [simp]: "length (np_smul c xs) = length xs"
  and np_muls_length [simp]: "length (np_muls xs c) = length xs"
  and np_divs_length [simp]: "length (np_divs xs c) = length xs"
  and np_subs_length [simp]: "length (np_subs xs c) = length xs"
  and np_insert0_length [simp]: "length (np_insert0 a v) = Suc (length a)"
  by (simp_all add: np_smul_def np_muls_def np_divs_def np_subs_def np_insert0_def)

lemma py_getitem_eq_Inr_iff: "py_getitem d k = Inr v \<longleftrightarrow> map_of d k = Some v"
  by (simp add: py_getitem_def split: option.split)

lemma py_getitem_eq_Inl_iff: "py_getitem d k = Inl e \<longleftrightarrow> map_of d k = None \<and> e = KeyError k"
  by (auto simp: py_getitem_def split: option.split)

lemma py_float_0 [simp]: "py_float ''0'' = Inr 0"
  and py_float_1 [simp]: "py_float ''1'' = Inr 1"
  by (simp_all add: py_float_def parse_unsigned_def is_digit_def digits_value_def)

lemma np_iadd_eq:
  "np_iadd w v =
     (if length v = length w then Inr (map2 (+) w v)
      else if length v = 1 then Inr (map (\<lambda>x. x + hd v) w)
      else Inl ValueError)"
proof (cases "length v = length w")
  case True
  then show ?thesis by simp
next
  case False
  show ?thesis
  proof (cases "length v = 1")
    case True
    then obtain b where v: "v = [b]" by (auto simp: length_Suc_conv)
    with False show ?thesis
      by (cases w rule: remdups_adj.cases) (auto simp: np_iadd_def np_add_def np_broadcast_def)
  next
    case v1: False
    have "np_add w v = Inl ValueError \<or> (\<exists>r. np_add w v = Inr r \<and> length r \<noteq> length w)"
      using False v1
      by (auto simp: np_add_def np_broadcast_def split: list.splits)
    with False v1 show ?thesis by (auto simp: np_iadd_def)
  qed
qed

end
