(* ===== verification/Regression.thy ===== *)
theory Regression
  imports Numpy
begin

text \<open>
  Model of \<open>src/learn_ml/04_regression.py\<close>: learning the weights of a
  linear function from freshly generated samples, with the gradient of the
  squared loss estimated by one-sided finite differences, one weight at a
  time. The module constants \<open>N\<close>, \<open>E\<close>, \<open>STEP\<close>, \<open>ITERATIONS\<close> are a record
  \<open>reg_config\<close> (the script's values are \<open>cfg04\<close>) so that the lemmas hold for
  any configuration. The random draws are parameters: \<open>gen j\<close> is the array
  \<open>np.random.rand(N)\<close> drawn in iteration \<open>j\<close> and \<open>r0\<close> the draw
  \<open>np.random.rand(1 + N)\<close> of the initial weights; the script rescales both
  to \<open>[-1, 1)\<close> by \<open>* 2 - 1\<close> (\<open>rand_unit\<close>).
\<close>

record reg_config =
  n_feat :: nat
  eps :: real
  step_size :: real
  iterations :: nat

definition cfg04 :: reg_config where
  "cfg04 = \<lparr>n_feat = 3, eps = 1 / 10000, step_size = 1 / 100, iterations = 1000\<rparr>"

text \<open>\<open>np.random.rand(k) * 2 - 1\<close> from the draw \<open>r\<close> of \<open>np.random.rand(k)\<close>.\<close>

definition rand_unit :: "vec \<Rightarrow> vec" where
  "rand_unit r = np_subs (np_muls r 2) 1"

text \<open>\<open>f(X) = 10 + 8 * X[0] - 2 * X[1] + X[2] / 2\<close>; indexing raises on short input.\<close>

definition f_target :: "vec \<Rightarrow> real result" where
  "f_target X =
     ebind (py_index X 0) (\<lambda>x0.
     ebind (py_index X 1) (\<lambda>x1.
     ebind (py_index X 2) (\<lambda>x2.
     Inr (10 + 8 * x0 - 2 * x1 + x2 / 2))))"

definition loss :: "real \<Rightarrow> real \<Rightarrow> real" where
  "loss actual target = (actual - target) ^ 2"

text \<open>
  The inner loop \<open>for i in range(1 + N)\<close>: perturb weight \<open>i\<close> by \<open>E\<close>,
  re-predict, and store the difference quotient of the loss in \<open>d[i]\<close>.
\<close>

fun grad_loop :: "reg_config \<Rightarrow> vec \<Rightarrow> vec \<Rightarrow> real \<Rightarrow> real \<Rightarrow> nat list \<Rightarrow> vec \<Rightarrow> vec result" where
  "grad_loop c inp w target l [] d = Inr d"
| "grad_loop c inp w target l (i # ixs) d =
     ebind (np_setitem (np_zeros (1 + n_feat c)) i (eps c)) (\<lambda>e.
     ebind (np_add w e) (\<lambda>we.
     ebind (np_mul inp we) (\<lambda>p.
     (let li = loss (py_sum p) target in
      ebind (py_fdiv (li - l) (eps c)) (\<lambda>q.
      ebind (np_setitem d i q) (\<lambda>d'.
      grad_loop c inp w target l ixs d'))))))"

text \<open>
  One iteration of the outer loop, from the input draw \<open>inp0\<close> to the
  updated weights: the target, the bias input, the prediction, the loss,
  the finite-difference gradient and \<open>w += STEP * d * -1\<close>.
\<close>

definition regression_iteration :: "reg_config \<Rightarrow> vec \<Rightarrow> vec \<Rightarrow> vec result" where
  "regression_iteration c w inp0 =
     ebind (f_target inp0) (\<lambda>target.
     (let inp = np_insert0 inp0 1 in
      ebind (np_mul inp w) (\<lambda>iw.
      (let out = py_sum iw; l = loss out target in
       ebind (grad_loop c inp w target l [0..<1 + n_feat c] (np_zeros (1 + n_feat c))) (\<lambda>d.
       np_iadd w (np_muls (np_smul (step_size c) d) (-1)))))))"

fun regression_loop :: "reg_config \<Rightarrow> (nat \<Rightarrow> vec) \<Rightarrow> nat list \<Rightarrow> vec \<Rightarrow> vec result" where
  "regression_loop c gen [] w = Inr w"
| "regression_loop c gen (j # js) w =
     ebind (regression_iteration c w (rand_unit (gen j))) (regression_loop c gen js)"

definition regression_main :: "(nat \<Rightarrow> vec) \<Rightarrow> vec \<Rightarrow> vec result" where
  "regression_main gen r0 = regression_loop cfg04 gen [0..<iterations cfg04] (rand_unit r0)"

text \<open>The difference quotient the inner loop computes for weight \<open>i\<close>.\<close>

definition numeric_partial :: "real \<Rightarrow> vec \<Rightarrow> vec \<Rightarrow> real \<Rightarrow> nat \<Rightarrow> real" where
  "numeric_partial e inp w target i =
     (loss (dot inp (w[i := w ! i + e])) target - loss (dot inp w) target) / e"

text \<open>
  The closed form of what the inner loop returns (proved below): for each
  input \<open>x\<^sub>i\<close> the analytic partial \<open>2 (p - t) x\<^sub>i\<close> of the squared loss
  plus \<open>e x\<^sub>i\<^sup>2\<close>.
\<close>

definition fd_gradient :: "real \<Rightarrow> vec \<Rightarrow> vec \<Rightarrow> real \<Rightarrow> vec" where
  "fd_gradient e inp w target = map (\<lambda>x. 2 * (dot inp w - target) * x + e * x\<^sup>2) inp"

text \<open>
  Reference semantics of the whole run: the closed-form step applied to
  each draw in turn, the target given by the formula of \<open>f\<close>.
\<close>

definition f_value :: "vec \<Rightarrow> real" where
  "f_value X = 10 + 8 * X ! 0 - 2 * X ! 1 + X ! 2 / 2"

definition regression_spec :: "reg_config \<Rightarrow> (nat \<Rightarrow> vec) \<Rightarrow> nat list \<Rightarrow> vec \<Rightarrow> vec" where
  "regression_spec c gen js w =
     fold (\<lambda>j w. descend (step_size c) w (fd_gradient (eps c) (1 # gen j) w (f_value (gen j)))) js w"

subsection \<open>The finite-difference gradient\<close>

lemma fd_gradient_length [simp]: "length (fd_gradient e inp w t) = length inp"
  by (simp add: fd_gradient_def)

lemma loss_nonneg: "0 \<le> loss p t"
  by (simp add: loss_def)

lemma grad_loop_fold:
  assumes "length inp = Suc (n_feat c)" "length w = Suc (n_feat c)"
    and "\<forall>i \<in> set ixs. i < Suc (n_feat c)" "length d = Suc (n_feat c)"
    and "l = loss (dot inp w) target" "eps c \<noteq> 0"
  shows "grad_loop c inp w target l ixs d =
         Inr (fold (\<lambda>i d. d[i := numeric_partial (eps c) inp w target i]) ixs d)"
  using assms(3,4)
proof (induction ixs arbitrary: d)
  case Nil
  then show ?case by simp
next
  case (Cons i ixs)
  then have i: "i < length w" using assms(2) by simp
  have e: "map2 (+) w ((np_zeros (Suc (n_feat c)))[i := eps c]) = w[i := w ! i + eps c]"
    using map2_add_replicate_zero_update [OF i] assms(2) by (simp add: np_zeros_def)
  from Cons.prems have "\<forall>i \<in> set ixs. i < Suc (n_feat c)" "length (d[i := x]) = Suc (n_feat c)" for x
    by auto
  with Cons.IH have IH: "\<And>x. grad_loop c inp w target l ixs (d[i := x]) =
      Inr (fold (\<lambda>i d. d[i := numeric_partial (eps c) inp w target i]) ixs (d[i := x]))"
    by blast
  show ?case
    using i Cons.prems assms(1,2,6)
    by (simp add: e IH numeric_partial_def Let_def assms(5) [symmetric])
qed

text \<open>
  The estimate is the analytic partial derivative \<open>2 (p - t) x\<^sub>i\<close> of the
  squared loss plus the bias \<open>E x\<^sub>i\<^sup>2\<close> of the one-sided difference: exactly,
  not only up to \<open>O(E)\<close>, because the loss is quadratic in each weight.
\<close>

lemma numeric_partial_eq:
  assumes "e \<noteq> 0" "i < length inp" "length inp = length w"
  shows "numeric_partial e inp w target i =
         2 * (dot inp w - target) * inp ! i + e * (inp ! i)\<^sup>2"
proof -
  have "dot inp (w[i := w ! i + e]) = dot inp w + inp ! i * e"
    using assms(2,3) by (simp add: sum_map2_mult_update)
  then have "loss (dot inp (w[i := w ! i + e])) target - loss (dot inp w) target =
      e * (2 * (dot inp w - target) * inp ! i + e * (inp ! i)\<^sup>2)"
    by (simp add: loss_def power2_eq_square algebra_simps)
  with assms(1) show ?thesis
    by (simp add: numeric_partial_def)
qed

lemma grad_loop_closed:
  assumes "length inp = Suc (n_feat c)" "length w = Suc (n_feat c)" "eps c \<noteq> 0"
  shows "grad_loop c inp w target (loss (dot inp w) target) [0..<1 + n_feat c] (np_zeros (1 + n_feat c)) =
         Inr (fd_gradient (eps c) inp w target)"
proof -
  have "grad_loop c inp w target (loss (dot inp w) target) [0..<1 + n_feat c] (np_zeros (1 + n_feat c)) =
        Inr (map (numeric_partial (eps c) inp w target) [0..<Suc (n_feat c)])"
    using assms grad_loop_fold [of inp c w "[0..<Suc (n_feat c)]" "np_zeros (Suc (n_feat c))"]
      fold_update_upt [of "np_zeros (Suc (n_feat c))" "Suc (n_feat c)"]
    by (simp del: upt_Suc)
  also have "map (numeric_partial (eps c) inp w target) [0..<Suc (n_feat c)] =
             map (\<lambda>i. 2 * (dot inp w - target) * inp ! i + eps c * (inp ! i)\<^sup>2) [0..<length inp]"
    using assms by (simp add: numeric_partial_eq)
  also have "\<dots> = fd_gradient (eps c) inp w target"
    unfolding fd_gradient_def by (rule nth_equalityI) simp_all
  finally show ?thesis .
qed

lemma grad_loop_zero_eps:
  assumes "length inp = Suc (n_feat c)" "length w = Suc (n_feat c)" "eps c = 0"
  shows "grad_loop c inp w target (loss (dot inp w) target) [0..<Suc (n_feat c)] d = Inl (NonFinite NaN)"
  using assms by (simp add: upt_conv_Cons py_fdiv_def np_add_def np_mul_def np_broadcast_def
      np_setitem_def Let_def del: upt_Suc)

lemma f_target_ok:
  assumes "3 \<le> length X"
  shows "f_target X = Inr (f_value X)"
proof -
  from assms have "X \<noteq> []" "0 < length X" "1 < length X" "2 < length X" by auto
  then show ?thesis by (simp add: f_target_def f_value_def)
qed

lemma f_target_short:
  assumes "length X < 3"
  shows "f_target X = Inl IndexError"
proof -
  consider "length X = 0" | "length X = 1" | "length X = 2"
    using assms by linarith
  then show ?thesis
    by cases (simp_all add: f_target_def py_index_def)
qed

lemma regression_iteration_closed:
  assumes "length inp0 = n_feat c" "length w = Suc (n_feat c)" "eps c \<noteq> 0"
    and "f_target inp0 = Inr t"
  shows "regression_iteration c w inp0 =
         Inr (descend (step_size c) w (fd_gradient (eps c) (1 # inp0) w t))"
proof -
  have len: "length (1 # inp0) = Suc (n_feat c)" using assms(1) by simp
  have "np_muls (np_smul (step_size c) (fd_gradient (eps c) (1 # inp0) w t)) (-1) =
        map (\<lambda>g. - (step_size c * g)) (fd_gradient (eps c) (1 # inp0) w t)"
    by (simp add: np_muls_def np_smul_def)
  moreover have "map2 (+) w (map (\<lambda>g. - (step_size c * g)) (fd_gradient (eps c) (1 # inp0) w t)) =
        descend (step_size c) w (fd_gradient (eps c) (1 # inp0) w t)"
    using assms(2) len by (intro descend_iadd) (simp add: fd_gradient_def)
  ultimately show ?thesis
    using assms len grad_loop_closed [OF len assms(2,3), of t]
    by (simp add: regression_iteration_def np_insert0_def Let_def del: upt_Suc)
qed

subsection \<open>Algebra of one step\<close>

lemma dot_fd_gradient:
  "dot x (fd_gradient e x w t) =
   2 * (dot x w - t) * dot x x + e * sum_list (map (\<lambda>v. v ^ 3) x)"
proof -
  have "\<And>r. dot x (map (\<lambda>v. 2 * r * v + e * v\<^sup>2) x) =
      2 * r * dot x x + e * sum_list (map (\<lambda>v. v ^ 3) x)"
    by (induction x) (simp_all add: algebra_simps power2_eq_square power3_eq_cube)
  from this [of "dot x w - t"] show ?thesis by (simp add: fd_gradient_def)
qed

subsection \<open>The whole run\<close>

lemma rand_unit_length [simp]: "length (rand_unit r) = length r"
  by (simp add: rand_unit_def)

lemma regression_loop_spec:
  assumes "\<forall>j \<in> set js. length (gen j) = n_feat c" "3 \<le> n_feat c" "eps c \<noteq> 0"
    and "length w = Suc (n_feat c)"
  shows "regression_loop c gen js w = Inr (regression_spec c (\<lambda>j. rand_unit (gen j)) js w)"
  using assms(1,4)
proof (induction js arbitrary: w)
  case Nil
  then show ?case by (simp add: regression_spec_def)
next
  case (Cons j js)
  let ?x = "rand_unit (gen j)"
  let ?w' = "descend (step_size c) w (fd_gradient (eps c) (1 # ?x) w (f_value ?x))"
  from Cons.prems assms(2) have "f_target ?x = Inr (f_value ?x)"
    by (simp add: f_target_ok)
  with Cons.prems assms(3) have step: "regression_iteration c w ?x = Inr ?w'"
    by (simp add: regression_iteration_closed)
  from Cons.prems have "length ?w' = Suc (n_feat c)" by simp
  with Cons.prems Cons.IH [of ?w'] have
    "regression_loop c gen js ?w' = Inr (regression_spec c (\<lambda>j. rand_unit (gen j)) js ?w')"
    by simp
  with step show ?case by (simp add: regression_spec_def)
qed

lemma biased_step_bounds:
  fixes wi d xi :: real
  assumes "xi\<^sup>2 \<le> 1"
  shows "wi - 2 * d * xi / 100 - 1 / 1000000 \<le> wi - 1 / 100 * (2 * d * xi + 1 / 10000 * xi\<^sup>2) \<and>
         wi - 1 / 100 * (2 * d * xi + 1 / 10000 * xi\<^sup>2) \<le> wi - 2 * d * xi / 100"
  using assms zero_le_power2 [of xi] by (simp add: algebra_simps)

lemma rand_unit_square_le:
  "\<forall>v \<in> set r. 0 \<le> v \<and> v < 1 \<Longrightarrow> z \<in> set (1 # rand_unit r) \<Longrightarrow> z\<^sup>2 \<le> 1"
  by (auto simp: rand_unit_def np_subs_def np_muls_def abs_square_le_1)

subsection \<open>Properties\<close>

text \<open>
  C1. The inner loop of the regression script (lines 89--104) computes, for
  every weight index, the one-sided finite difference of the squared loss;
  on arrays of matching shape that estimate is exactly the analytic partial
  derivative \<open>2 (y - t) x\<^sub>i\<close> plus the discretisation bias \<open>E x\<^sub>i\<^sup>2\<close>.
\<close>

theorem grad_loop_is_finite_difference:
  assumes "length inp = Suc (n_feat c)" "length w = Suc (n_feat c)" "eps c \<noteq> 0"
  shows "grad_loop c inp w t (loss (dot inp w) t) [0..<1 + n_feat c] (np_zeros (1 + n_feat c)) =
         Inr (map (\<lambda>x. 2 * (dot inp w - t) * x + eps c * x\<^sup>2) inp)"
  using grad_loop_closed [OF assms] by (simp add: fd_gradient_def)

theorem grad_loop_is_finite_difference_witness:
  "grad_loop cfg04 [1, 1/2, 0, 0] [0, 0, 0, 0] 1 (loss (dot [1, 1/2, 0, 0] [0, 0, 0, 0]) 1)
     [0..<1 + n_feat cfg04] (np_zeros (1 + n_feat cfg04)) =
   Inr [-2 + 1/10000, -1 + 1/40000, 0, 0]"
  using grad_loop_is_finite_difference [of "[1, 1/2, 0, 0]" cfg04 "[0, 0, 0, 0]" 1]
  by (simp add: cfg04_def power2_eq_square)

text \<open>
  C2. One iteration of the outer loop on a draw of \<open>N \<ge> 3\<close> features and
  weights of length \<open>N + 1\<close> returns the weights moved against the
  finite-difference gradient: \<open>w\<^sub>i - STEP (2 (y - f(x)) x\<^sub>i + E x\<^sub>i\<^sup>2)\<close> with
  \<open>x = [1] + inp\<close> and \<open>y = x \<cdot> w\<close>.
\<close>

theorem regression_iteration_update:
  assumes "length inp0 = n_feat c" "length w = Suc (n_feat c)" "3 \<le> n_feat c" "eps c \<noteq> 0"
  shows "regression_iteration c w inp0 =
         Inr (map2 (\<lambda>wi xi. wi - step_size c * (2 * (dot (1 # inp0) w - f_value inp0) * xi + eps c * xi\<^sup>2))
                w (1 # inp0))"
proof -
  have "regression_iteration c w inp0 =
        Inr (descend (step_size c) w (fd_gradient (eps c) (1 # inp0) w (f_value inp0)))"
    using assms by (simp add: regression_iteration_closed f_target_ok)
  then show ?thesis
    by (simp only: fd_gradient_def descend_map)
qed

theorem regression_iteration_update_witness:
  "regression_iteration cfg04 [0, 0, 0, 0] [0, 0, 0] = Inr [1/5 - 1/1000000, 0, 0, 0]"
  using regression_iteration_update [of "[0, 0, 0]" cfg04 "[0, 0, 0, 0]"]
  by (simp add: cfg04_def f_value_def)

text \<open>
  C3. The whole script refines the reference run: when every draw has three
  features and the initial draw four entries, the thousand iterations raise
  nothing and return the closed-form steps, from the rescaled initial draw,
  folded over the rescaled input draws.
\<close>

theorem regression_main_refines_spec:
  assumes "\<forall>j < 1000. length (gen j) = 3" "length r0 = 4"
  shows "regression_main gen r0 =
           Inr (regression_spec cfg04 (\<lambda>j. rand_unit (gen j)) [0..<1000] (rand_unit r0))"
proof -
  have "\<forall>j \<in> set [0..<iterations cfg04]. length (gen j) = n_feat cfg04"
    using assms(1) by (simp add: cfg04_def)
  moreover have "length (rand_unit r0) = Suc (n_feat cfg04)" "3 \<le> n_feat cfg04" "eps cfg04 \<noteq> 0"
    using assms(2) by (simp_all add: cfg04_def)
  ultimately show ?thesis
    unfolding regression_main_def by (simp add: regression_loop_spec) (simp add: cfg04_def)
qed

theorem regression_main_refines_spec_witness:
  "regression_main (\<lambda>j. [0, 0, 0]) [0, 0, 0, 0] =
   Inr (regression_spec cfg04 (\<lambda>j. rand_unit [0, 0, 0]) [0..<1000] (rand_unit [0, 0, 0, 0]))"
  using regression_main_refines_spec [of "\<lambda>j. [0, 0, 0]" "[0, 0, 0, 0]"] by simp

text \<open>
  C10. Error paths of one iteration: a draw with fewer than three features
  makes \<open>f\<close> raise \<open>IndexError\<close> before anything else; a draw whose bias-extended
  length neither matches the weights nor broadcasts makes \<open>inp * w\<close> raise
  \<open>ValueError\<close>; on well-shaped arrays a zero \<open>E\<close> leaves the weights
  unperturbed, so the first difference quotient is \<open>0.0 / 0.0\<close>, which numpy
  evaluates to \<open>nan\<close> without raising: the iteration's derivative is not a
  finite float.
\<close>

theorem regression_iteration_errors:
  "(length inp0 < 3 \<longrightarrow> regression_iteration c w inp0 = Inl IndexError) \<and>
   (3 \<le> length inp0 \<and> length w \<noteq> Suc (length inp0) \<and> length w \<noteq> 1 \<longrightarrow>
      regression_iteration c w inp0 = Inl ValueError) \<and>
   (3 \<le> n_feat c \<and> length inp0 = n_feat c \<and> length w = Suc (n_feat c) \<and> eps c = 0 \<longrightarrow>
      regression_iteration c w inp0 = Inl (NonFinite NaN))"
proof (intro conjI impI)
  assume "length inp0 < 3"
  then show "regression_iteration c w inp0 = Inl IndexError"
    by (simp add: regression_iteration_def f_target_short)
next
  assume a: "3 \<le> length inp0 \<and> length w \<noteq> Suc (length inp0) \<and> length w \<noteq> 1"
  then have "np_mul (np_insert0 inp0 1) w = Inl ValueError"
    unfolding np_mul_def by (intro np_broadcast_mismatch) auto
  with a show "regression_iteration c w inp0 = Inl ValueError"
    by (simp add: regression_iteration_def f_target_ok Let_def)
next
  assume a: "3 \<le> n_feat c \<and> length inp0 = n_feat c \<and> length w = Suc (n_feat c) \<and> eps c = 0"
  then have "grad_loop c (1 # inp0) w (f_value inp0) (loss (dot (1 # inp0) w) (f_value inp0))
      [0..<Suc (n_feat c)] (np_zeros (Suc (n_feat c))) = Inl (NonFinite NaN)"
    by (intro grad_loop_zero_eps) simp_all
  with a show "regression_iteration c w inp0 = Inl (NonFinite NaN)"
    by (simp add: regression_iteration_def f_target_ok np_insert0_def Let_def del: upt_Suc)
qed

theorem regression_iteration_errors_witness:
  "regression_iteration cfg04 [0, 0, 0, 0] [0, 0] = Inl IndexError \<and>
   regression_iteration cfg04 [0, 0, 0] [0, 0, 0] = Inl ValueError \<and>
   regression_iteration (cfg04\<lparr>eps := 0\<rparr>) [0, 0, 0, 0] [0, 0, 0] = Inl (NonFinite NaN)"
  using regression_iteration_errors [of "[0, 0]" cfg04 "[0, 0, 0, 0]"]
    regression_iteration_errors [of "[0, 0, 0]" cfg04 "[0, 0, 0]"]
    regression_iteration_errors [of "[0, 0, 0]" "cfg04\<lparr>eps := 0\<rparr>" "[0, 0, 0, 0]"]
  by (simp add: cfg04_def)

text \<open>
  C12. The exact weights \<open>[10, 8, -2, 0.5]\<close> of \<open>f\<close> are not a fixed point of
  the script: at zero loss the finite-difference gradient is \<open>E x\<^sub>i\<^sup>2\<close>, so
  every iteration moves each weight by \<open>-STEP E x\<^sub>i\<^sup>2\<close>; the bias drifts down
  by \<open>10\<^sup>-\<^sup>6\<close> per iteration whatever the draw.
\<close>

theorem exact_weights_drift:
  assumes "length inp0 = 3"
  shows "regression_iteration cfg04 [10, 8, -2, 1/2] inp0 =
         Inr (map2 (\<lambda>wi xi. wi - xi\<^sup>2 / 1000000) [10, 8, -2, 1/2] (1 # inp0))"
proof -
  obtain a b d where inp: "inp0 = [a, b, d]"
    using assms by (auto simp: numeral_3_eq_3 length_Suc_conv)
  have "regression_iteration cfg04 [10, 8, -2, 1/2] inp0 =
        Inr (descend (1/100) [10, 8, -2, 1/2] (fd_gradient (1/10000) (1 # inp0) [10, 8, -2, 1/2] (f_value inp0)))"
    using regression_iteration_closed [of inp0 cfg04 "[10, 8, -2, 1/2]" "f_value inp0"] assms
    by (simp add: cfg04_def f_target_ok)
  then show ?thesis
    by (simp add: inp fd_gradient_def f_value_def)
qed

theorem exact_weights_drift_witness:
  "regression_iteration cfg04 [10, 8, -2, 1/2] [0, 0, 0] = Inr [10 - 1/1000000, 8, -2, 1/2]"
  using exact_weights_drift [of "[0, 0, 0]"] by simp

text \<open>
  After one iteration the prediction error on the sample just used is
  \<open>(1 - 2 STEP |x|\<^sup>2) r - STEP E \<Sigma> x\<^sub>i\<^sup>3\<close>, where \<open>r\<close> is the error before:
  the error contracts only while \<open>STEP |x|\<^sup>2 < 1\<close>, up to the bias term.
\<close>

lemma regression_residual:
  assumes "length inp0 = n_feat c" "length w = Suc (n_feat c)" "3 \<le> n_feat c" "eps c \<noteq> 0"
    and "regression_iteration c w inp0 = Inr w'"
  shows "dot (1 # inp0) w' - f_value inp0 =
         (1 - 2 * step_size c * dot (1 # inp0) (1 # inp0)) * (dot (1 # inp0) w - f_value inp0)
         - step_size c * eps c * sum_list (map (\<lambda>v. v ^ 3) (1 # inp0))"
proof -
  have "w' = descend (step_size c) w (fd_gradient (eps c) (1 # inp0) w (f_value inp0))"
    using assms regression_iteration_closed [OF assms(1,2,4) f_target_ok] by simp
  then show ?thesis
    using assms(1,2)
    by (simp add: dot_descend dot_fd_gradient algebra_simps)
qed

text \<open>
  C31. For every draw of \<open>np.random.rand(3)\<close> the update of one iteration is
  exact gradient descent up to the finite-difference bias: each new weight
  lies between the exact step \<open>w\<^sub>i - STEP \<cdot> 2 (y - t) x\<^sub>i\<close> and \<open>10\<^sup>-\<^sup>6\<close>
  (\<open>STEP \<cdot> E\<close>) below it, because the rescaled inputs lie in \<open>[-1, 1)\<close>.
\<close>

theorem update_near_exact_descent:
  assumes "length r = 3" "\<forall>v \<in> set r. 0 \<le> v \<and> v < 1" "length w = 4"
  shows "\<exists>w'. regression_iteration cfg04 w (rand_unit r) = Inr w' \<and>
           (\<forall>i < 4. w ! i - 2 * (dot (1 # rand_unit r) w - f_value (rand_unit r)) * (1 # rand_unit r) ! i / 100
                      - 1 / 1000000 \<le> w' ! i \<and>
                    w' ! i \<le> w ! i - 2 * (dot (1 # rand_unit r) w - f_value (rand_unit r)) * (1 # rand_unit r) ! i / 100)"
proof -
  let ?x = "rand_unit r"
  let ?d = "dot (1 # ?x) w - f_value ?x"
  have "regression_iteration cfg04 w ?x =
      Inr (descend (step_size cfg04) w (fd_gradient (eps cfg04) (1 # ?x) w (f_value ?x)))"
    using assms by (intro regression_iteration_closed) (simp_all add: cfg04_def f_target_ok)
  then have it: "regression_iteration cfg04 w ?x =
      Inr (map2 (\<lambda>wi xi. wi - 1 / 100 * (2 * ?d * xi + 1 / 10000 * xi\<^sup>2)) w (1 # ?x))"
    by (simp only: fd_gradient_def descend_map) (simp add: cfg04_def)
  have sq: "((1 # ?x) ! i)\<^sup>2 \<le> 1" if "i < 4" for i
  proof -
    have "i < length (1 # ?x)" using that assms(1) by simp
    then have "(1 # ?x) ! i \<in> set (1 # ?x)" by (rule nth_mem)
    then show ?thesis by (rule rand_unit_square_le [OF assms(2)])
  qed
  have "\<forall>i < 4. w ! i - 2 * ?d * (1 # ?x) ! i / 100 - 1 / 1000000 \<le>
                  map2 (\<lambda>wi xi. wi - 1 / 100 * (2 * ?d * xi + 1 / 10000 * xi\<^sup>2)) w (1 # ?x) ! i \<and>
                map2 (\<lambda>wi xi. wi - 1 / 100 * (2 * ?d * xi + 1 / 10000 * xi\<^sup>2)) w (1 # ?x) ! i \<le>
                  w ! i - 2 * ?d * (1 # ?x) ! i / 100"
  proof (intro allI impI)
    fix i :: nat
    assume i: "i < 4"
    have m: "map2 (\<lambda>wi xi. wi - 1 / 100 * (2 * ?d * xi + 1 / 10000 * xi\<^sup>2)) w (1 # ?x) ! i =
        w ! i - 1 / 100 * (2 * ?d * (1 # ?x) ! i + 1 / 10000 * ((1 # ?x) ! i)\<^sup>2)"
      using i assms(1,3) by simp
    show "w ! i - 2 * ?d * (1 # ?x) ! i / 100 - 1 / 1000000 \<le>
            map2 (\<lambda>wi xi. wi - 1 / 100 * (2 * ?d * xi + 1 / 10000 * xi\<^sup>2)) w (1 # ?x) ! i \<and>
          map2 (\<lambda>wi xi. wi - 1 / 100 * (2 * ?d * xi + 1 / 10000 * xi\<^sup>2)) w (1 # ?x) ! i \<le>
            w ! i - 2 * ?d * (1 # ?x) ! i / 100"
      unfolding m by (rule biased_step_bounds [OF sq [OF i]])
  qed
  with it show ?thesis by blast
qed

theorem update_near_exact_descent_witness:
  "\<exists>w'. regression_iteration cfg04 [0, 0, 0, 0] (rand_unit [1 / 2, 1 / 2, 1 / 2]) = Inr w' \<and>
     (\<forall>i < 4. [0, 0, 0, 0] ! i - 2 * (dot (1 # rand_unit [1 / 2, 1 / 2, 1 / 2]) [0, 0, 0, 0]
                 - f_value (rand_unit [1 / 2, 1 / 2, 1 / 2])) * (1 # rand_unit [1 / 2, 1 / 2, 1 / 2]) ! i / 100
                 - 1 / 1000000 \<le> w' ! i \<and>
              w' ! i \<le> [0, 0, 0, 0] ! i - 2 * (dot (1 # rand_unit [1 / 2, 1 / 2, 1 / 2]) [0, 0, 0, 0]
                 - f_value (rand_unit [1 / 2, 1 / 2, 1 / 2])) * (1 # rand_unit [1 / 2, 1 / 2, 1 / 2]) ! i / 100)"
  using update_near_exact_descent [of "[1 / 2, 1 / 2, 1 / 2]" "[0, 0, 0, 0]"] by simp

end
