(* ===== verification/Regression_Output.thy ===== *)
theory Regression_Output
  imports Regression
begin

text \<open>
  What \<open>src/learn_ml/04_regression.py\<close> prints: one line
  \<open>"#%d f(%s) = %f (loss: %f)" % (j, inp, target, l)\<close> per iteration, after
  the loss and before the gradient loop, and \<open>"W = %s" % w\<close> at the end.
  A printed line is modelled by the values it shows (\<open>reg_line\<close>); the
  decimal formatting of \<open>%f\<close> and \<open>%s\<close> is not modelled. The printing runs
  \<open>regression_iteration_io\<close>, \<open>regression_loop_io\<close> and \<open>regression_main_io\<close>
  are the script with its \<open>print\<close> statements; erasing their output gives
  the models of \<open>Regression\<close>, and the printed lines are those of the
  reference run \<open>regression_spec\<close>.
\<close>

datatype reg_line =
    Iteration nat vec real real
  | Weights04 vec

definition regression_iteration_io :: "reg_config \<Rightarrow> nat \<Rightarrow> vec \<Rightarrow> vec \<Rightarrow> (reg_line, vec) io" where
  "regression_iteration_io c j w inp0 =
     tbind (io_lift (f_target inp0)) (\<lambda>target.
     (let inp = np_insert0 inp0 1 in
      tbind (io_lift (np_mul inp w)) (\<lambda>iw.
      (let out = py_sum iw; l = loss out target in
       tbind (emit (Iteration j inp target l)) (\<lambda>_.
       io_lift (ebind (grad_loop c inp w target l [0..<1 + n_feat c] (np_zeros (1 + n_feat c))) (\<lambda>d.
         np_iadd w (np_muls (np_smul (step_size c) d) (-1)))))))))"

fun regression_loop_io :: "reg_config \<Rightarrow> (nat \<Rightarrow> vec) \<Rightarrow> nat list \<Rightarrow> vec \<Rightarrow> (reg_line, vec) io" where
  "regression_loop_io c gen [] w = io_return w"
| "regression_loop_io c gen (j # js) w =
     tbind (regression_iteration_io c j w (rand_unit (gen j))) (regression_loop_io c gen js)"

definition regression_main_io :: "(nat \<Rightarrow> vec) \<Rightarrow> vec \<Rightarrow> (reg_line, vec) io" where
  "regression_main_io gen r0 =
     tbind (regression_loop_io cfg04 gen [0..<iterations cfg04] (rand_unit r0)) (\<lambda>w.
     tbind (emit (Weights04 w)) (\<lambda>_. io_return w))"

text \<open>The line the reference run prints for draw \<open>G j\<close> from weights \<open>w\<close>.\<close>

definition reg_line_spec :: "(nat \<Rightarrow> vec) \<Rightarrow> nat \<Rightarrow> vec \<Rightarrow> reg_line" where
  "reg_line_spec G j w = Iteration j (1 # G j) (f_value (G j)) (loss (dot (1 # G j) w) (f_value (G j)))"

subsection \<open>Erasing the output\<close>

lemma regression_iteration_io_result: "snd (regression_iteration_io c j w inp0) = regression_iteration c w inp0"
  by (simp add: regression_iteration_io_def regression_iteration_def Let_def)

lemma regression_loop_io_result: "snd (regression_loop_io c gen js w) = regression_loop c gen js w"
  by (induction js arbitrary: w) (simp_all add: regression_iteration_io_result)

lemma regression_main_io_result: "snd (regression_main_io gen r0) = regression_main gen r0"
  by (simp add: regression_main_io_def regression_main_def regression_loop_io_result ebind_def
      split: sum.split)

subsection \<open>The printed lines\<close>

lemma regression_iteration_io_line:
  assumes "f_target inp0 = Inr t" "length w = Suc (length inp0)"
  shows "regression_iteration_io c j w inp0 =
           ([Iteration j (1 # inp0) t (loss (dot (1 # inp0) w) t)], regression_iteration c w inp0)"
proof -
  have "fst (regression_iteration_io c j w inp0) = [Iteration j (1 # inp0) t (loss (dot (1 # inp0) w) t)]"
    using assms by (simp add: regression_iteration_io_def np_insert0_def Let_def)
  then show ?thesis using regression_iteration_io_result by (metis prod.collapse)
qed

lemma regression_loop_io_lines:
  assumes "\<forall>j \<in> set js. length (gen j) = n_feat c" "3 \<le> n_feat c" "eps c \<noteq> 0"
    and "length w = Suc (n_feat c)"
  shows "fst (regression_loop_io c gen js w) =
           map (\<lambda>i. reg_line_spec (\<lambda>j. rand_unit (gen j)) (js ! i)
                      (regression_spec c (\<lambda>j. rand_unit (gen j)) (take i js) w)) [0..<length js]"
  using assms(1,4)
proof (induction js arbitrary: w)
  case Nil
  then show ?case by (simp add: io_return_def)
next
  case (Cons j js)
  let ?G = "\<lambda>j. rand_unit (gen j)"
  let ?w' = "descend (step_size c) w (fd_gradient (eps c) (1 # ?G j) w (f_value (?G j)))"
  from Cons.prems assms(2) have t: "f_target (?G j) = Inr (f_value (?G j))"
    by (simp add: f_target_ok)
  with Cons.prems assms(3) have step: "regression_iteration c w (?G j) = Inr ?w'"
    by (simp add: regression_iteration_closed)
  from Cons.prems have len: "length ?w' = Suc (n_feat c)" by simp
  have io: "regression_iteration_io c j w (?G j) = ([reg_line_spec ?G j w], Inr ?w')"
    using regression_iteration_io_line [OF t] Cons.prems step by (simp add: reg_line_spec_def)
  show ?case
    using Cons.IH [of ?w'] Cons.prems len io
    by (simp add: map_upt_Suc io_simps regression_spec_def del: upt_Suc)
qed


lemma regression_loop_io_upt:
  assumes "\<forall>j < n. length (gen j) = n_feat c" "3 \<le> n_feat c" "eps c \<noteq> 0"
    and "length w = Suc (n_feat c)"
  shows "regression_loop_io c gen [0..<n] w =
           (map (\<lambda>j. reg_line_spec (\<lambda>j. rand_unit (gen j)) j
                      (regression_spec c (\<lambda>j. rand_unit (gen j)) [0..<j] w)) [0..<n],
            Inr (regression_spec c (\<lambda>j. rand_unit (gen j)) [0..<n] w))"
proof -
  have set: "\<forall>j \<in> set [0..<n]. length (gen j) = n_feat c" using assms(1) by simp
  have "fst (regression_loop_io c gen [0..<n] w) =
          map (\<lambda>j. reg_line_spec (\<lambda>j. rand_unit (gen j)) j
                     (regression_spec c (\<lambda>j. rand_unit (gen j)) [0..<j] w)) [0..<n]"
    using regression_loop_io_lines [OF set assms(2-4)] by simp
  moreover have "snd (regression_loop_io c gen [0..<n] w) =
                   Inr (regression_spec c (\<lambda>j. rand_unit (gen j)) [0..<n] w)"
    using regression_loop_spec [OF set assms(2-4)] by (simp add: regression_loop_io_result)
  ultimately show ?thesis by (metis prod.collapse)
qed

subsection \<open>Properties\<close>

text \<open>
  C8. The output of the regression script: iteration \<open>j\<close> prints
  \<open>j\<close>, its input with the bias 1 in front, the target \<open>f\<close> of the draw and
  the squared loss of the weights the iteration starts from (the weights
  of the reference run after the first \<open>j\<close> draws), and the last line
  prints the final weights, which the script also returns.
\<close>

theorem regression_printed_lines:
  assumes "\<forall>j < 1000. length (gen j) = 3" "length r0 = 4"
  shows "regression_main_io gen r0 =
           (map (\<lambda>j. reg_line_spec (\<lambda>j. rand_unit (gen j)) j
                      (regression_spec cfg04 (\<lambda>j. rand_unit (gen j)) [0..<j] (rand_unit r0))) [0..<1000]
              @ [Weights04 (regression_spec cfg04 (\<lambda>j. rand_unit (gen j)) [0..<1000] (rand_unit r0))],
            Inr (regression_spec cfg04 (\<lambda>j. rand_unit (gen j)) [0..<1000] (rand_unit r0)))"
proof -
  have "\<forall>j < 1000. length (gen j) = n_feat cfg04" "3 \<le> n_feat cfg04" "eps cfg04 \<noteq> 0"
    "length (rand_unit r0) = Suc (n_feat cfg04)"
    using assms by (simp_all add: cfg04_def)
  from regression_loop_io_upt [OF this] show ?thesis
    by (simp add: regression_main_io_def cfg04_def io_simps)
qed

theorem regression_printed_lines_witness:
  "regression_main_io (\<lambda>j. [0, 0, 0]) [0, 0, 0, 0] =
     (map (\<lambda>j. reg_line_spec (\<lambda>j. rand_unit [0, 0, 0]) j
                (regression_spec cfg04 (\<lambda>j. rand_unit [0, 0, 0]) [0..<j] (rand_unit [0, 0, 0, 0]))) [0..<1000]
        @ [Weights04 (regression_spec cfg04 (\<lambda>j. rand_unit [0, 0, 0]) [0..<1000] (rand_unit [0, 0, 0, 0]))],
      Inr (regression_spec cfg04 (\<lambda>j. rand_unit [0, 0, 0]) [0..<1000] (rand_unit [0, 0, 0, 0])))"
  using regression_printed_lines [of "\<lambda>j. [0, 0, 0]" "[0, 0, 0, 0]"] by simp

end
