(* ===== verification/Dataset.thy ===== *)
theory Dataset
  imports Numpy
begin

text \<open>
  Model of \<open>src/learn_ml/06_dataset.py\<close>: the same linear model trained on
  the fixed observations \<open>X\<close>, \<open>T\<close> replayed for \<open>EPOCHS\<close> epochs. Unlike the
  regression script, the gradient is analytic, \<open>dw = 2 * (y - t) * x\<close>, and
  the weights are updated after every sample (online updates). The module
  constants \<open>EPOCHS\<close>, \<open>STEP\<close> form the record \<open>ds_config\<close> (script values
  \<open>cfg06\<close>); the draw \<open>r0 = np.random.rand(1 + N)\<close> is a parameter, from
  which the script sets the initial weights \<open>w = r0 - .5\<close>. The Python
  integers of \<open>X\<close> and \<open>T\<close> are small and exact as floats, so they are reals.
\<close>

record ds_config =
  epochs :: nat
  ds_step :: real

definition cfg06 :: ds_config where
  "cfg06 = \<lparr>epochs = 1000, ds_step = 1 / 100\<rparr>"

definition X06 :: "real list" where
  "X06 = [1, 2, 3, 4, 5, 6, 7, 8, 9, 10]"

definition T06 :: "real list" where
  "T06 = [101, 201, 301, 401, 501, 601, 701, 801, 901, 1001]"

definition N06 :: nat where
  "N06 = 1"

definition dataset_loss :: "real \<Rightarrow> real \<Rightarrow> real" where
  "dataset_loss actual target = (actual - target) ^ 2"

definition data06 :: "(real \<times> real) list" where
  "data06 = zip X06 T06"

text \<open>
  The body of \<open>for x, t in data\<close>: bias input, prediction, loss (only
  printed), derivative and \<open>w += STEP * dw * -1\<close>.
\<close>

definition dataset_sample_step :: "ds_config \<Rightarrow> vec \<Rightarrow> real \<times> real \<Rightarrow> vec result" where
  "dataset_sample_step c w xt =
     (case xt of (x0, t) \<Rightarrow>
       (let x = np_insert0 [x0] 1 in
        ebind (np_mul x w) (\<lambda>xw.
        (let y = py_sum xw; l = dataset_loss y t; dw = np_smul (2 * (y - t)) x in
         np_iadd w (np_muls (np_smul (ds_step c) dw) (-1))))))"

fun dataset_epoch :: "ds_config \<Rightarrow> (real \<times> real) list \<Rightarrow> vec \<Rightarrow> vec result" where
  "dataset_epoch c [] w = Inr w"
| "dataset_epoch c (xt # data) w = ebind (dataset_sample_step c w xt) (dataset_epoch c data)"

fun dataset_loop :: "ds_config \<Rightarrow> (real \<times> real) list \<Rightarrow> nat list \<Rightarrow> vec \<Rightarrow> vec result" where
  "dataset_loop c data [] w = Inr w"
| "dataset_loop c data (i # ixs) w = ebind (dataset_epoch c data w) (dataset_loop c data ixs)"

definition dataset_main :: "vec \<Rightarrow> vec result" where
  "dataset_main r0 = dataset_loop cfg06 data06 [0..<epochs cfg06] (np_subs r0 (1 / 2))"

text \<open>The analytic gradient of the squared loss, \<open>2 (x \<cdot> w - t) x\<close>.\<close>

definition analytic_gradient :: "vec \<Rightarrow> vec \<Rightarrow> real \<Rightarrow> vec" where
  "analytic_gradient x w t = map (\<lambda>v. 2 * (dot x w - t) * v) x"

definition sgd_step :: "real \<Rightarrow> vec \<Rightarrow> vec \<Rightarrow> real \<Rightarrow> vec" where
  "sgd_step s w x t = descend s w (analytic_gradient x w t)"

text \<open>Reference semantics of one epoch and of the run: online steps in data order.\<close>

definition ds_epoch_spec :: "real \<Rightarrow> (real \<times> real) list \<Rightarrow> vec \<Rightarrow> vec" where
  "ds_epoch_spec s data w = fold (\<lambda>(x, t) w. sgd_step s w [1, x] t) data w"

subsection \<open>One sample\<close>

lemma sgd_step_length [simp]: "length (sgd_step s w x t) = min (length w) (length x)"
  by (simp add: sgd_step_def analytic_gradient_def)

lemma analytic_gradient_length [simp]: "length (analytic_gradient x w t) = length x"
  by (simp add: analytic_gradient_def)

lemma dot_analytic_gradient:
  "dot y (analytic_gradient x w t) = 2 * (dot x w - t) * dot y x"
  using sum_map2_mult_scale [of y "2 * (dot x w - t)" x]
  by (simp add: analytic_gradient_def)

lemma dot_analytic_gradient_left:
  "dot (analytic_gradient x w t) y = 2 * (dot x w - t) * dot x y"
proof -
  have "dot (analytic_gradient x w t) y = dot y (analytic_gradient x w t)"
    by (rule sum_map2_mult_commute)
  also have "\<dots> = 2 * (dot x w - t) * dot y x"
    by (rule dot_analytic_gradient)
  also have "dot y x = dot x y"
    by (rule sum_map2_mult_commute)
  finally show ?thesis .
qed

lemma dataset_sample_step_closed:
  assumes "length w = 2"
  shows "dataset_sample_step c w (x0, t) = Inr (sgd_step (ds_step c) w [1, x0] t)"
proof -
  obtain a b where w: "w = [a, b]"
    using assms by (auto simp: numeral_2_eq_2 length_Suc_conv)
  then show ?thesis
    by (simp add: dataset_sample_step_def np_insert0_def np_smul_def np_muls_def Let_def
        sgd_step_def analytic_gradient_def)
qed

lemma dot_sgd_step:
  assumes "length w = length x"
  shows "dot x (sgd_step s w x t) - t = (1 - 2 * s * dot x x) * (dot x w - t)"
  using assms
  by (simp add: sgd_step_def dot_descend dot_analytic_gradient algebra_simps)

lemma sqdist_sgd_step:
  assumes "length w = length x" "length ws = length x" "dot x ws = t"
  shows "sqdist (sgd_step s w x t) ws =
         sqdist w ws - 4 * s * (1 - s * dot x x) * (dot x w - t)\<^sup>2"
proof -
  have d: "dot x (map2 (-) w ws) = dot x w - t"
    using assms by (simp add: sum_map2_mult_diff)
  have "sqdist (sgd_step s w x t) ws =
        sqdist w ws - 2 * s * (2 * (dot x w - t) * (dot x w - t)) +
        s\<^sup>2 * (2 * (dot x w - t) * (2 * (dot x w - t) * dot x x))"
    using assms d
    by (simp add: sgd_step_def sqdist_descend dot_analytic_gradient_left dot_analytic_gradient)
  then show ?thesis
    by (simp add: power2_eq_square algebra_simps)
qed

lemma sgd_step_at_solution:
  assumes "dot x w = t" "length w = length x"
  shows "sgd_step s w x t = w"
  using assms(2) unfolding sgd_step_def analytic_gradient_def assms(1)
proof (induction w arbitrary: x)
  case Nil
  then show ?case by simp
next
  case (Cons a w)
  then obtain b x' where "x = b # x'" by (metis length_Suc_conv)
  with Cons show ?case by simp
qed

lemma dataset_sample_step_shape:
  assumes "length w \<noteq> 2"
  shows "dataset_sample_step c w (x0, t) = Inl ValueError"
proof (cases "length w = 1")
  case True
  then obtain a where w: "w = [a]" by (auto simp: length_Suc_conv)
  have "np_iadd [a] (map (\<lambda>v. ds_step c * v * -1) (map ((*) (2 * (a + x0 * a - t))) [1, x0])) = Inl ValueError"
    by (simp add: np_iadd_def np_add_def np_broadcast_def)
  with w show ?thesis
    by (simp add: dataset_sample_step_def np_insert0_def np_mul_def np_broadcast_def
        np_smul_def np_muls_def Let_def)
next
  case False
  with assms have "np_mul [1, x0] w = Inl ValueError"
    by (simp add: np_mul_def np_broadcast_mismatch)
  then show ?thesis
    by (simp add: dataset_sample_step_def np_insert0_def Let_def)
qed

subsection \<open>Epochs and the run\<close>

lemma ds_epoch_spec_length [simp]: "length w = 2 \<Longrightarrow> length (ds_epoch_spec s data w) = 2"
  unfolding ds_epoch_spec_def by (induction data arbitrary: w) auto

lemma dataset_epoch_spec:
  "length w = 2 \<Longrightarrow> dataset_epoch c data w = Inr (ds_epoch_spec (ds_step c) data w)"
  unfolding ds_epoch_spec_def
  by (induction data arbitrary: w) (auto simp: dataset_sample_step_closed)

lemma dataset_loop_spec:
  "length w = 2 \<Longrightarrow>
   dataset_loop c data ixs w = Inr ((ds_epoch_spec (ds_step c) data ^^ length ixs) w)"
proof (induction ixs arbitrary: w)
  case Nil
  then show ?case by simp
next
  case (Cons i ixs)
  then show ?case by (simp add: dataset_epoch_spec funpow_swap1)
qed

lemma ds_epoch_spec_solution:
  assumes "\<forall>(x, t) \<in> set data. dot [1, x] ws = t" "length ws = 2"
  shows "ds_epoch_spec s data ws = ws"
  using assms(1) unfolding ds_epoch_spec_def
proof (induction data)
  case Nil
  then show ?case by simp
next
  case (Cons xt data)
  obtain x t where xt: "xt = (x, t)" by fastforce
  with Cons.prems assms(2) have "sgd_step s ws [1, x] t = ws"
    by (intro sgd_step_at_solution) auto
  with Cons xt show ?case by simp
qed

lemma ds_epoch_spec_sqdist:
  assumes "\<forall>(x, t) \<in> set data. dot [1, x] ws = t \<and> s * (1 + x\<^sup>2) \<le> 1"
    and "0 \<le> s" "length ws = 2" "length w = 2"
  shows "sqdist (ds_epoch_spec s data w) ws \<le> sqdist w ws"
  using assms(1,4) unfolding ds_epoch_spec_def
proof (induction data arbitrary: w)
  case Nil
  then show ?case by simp
next
  case (Cons xt data)
  obtain x t where xt: "xt = (x, t)" by fastforce
  let ?w' = "sgd_step s w [1, x] t"
  from Cons.prems xt have sol: "dot [1, x] ws = t" and small: "s * (1 + x\<^sup>2) \<le> 1" by auto
  have "sqdist ?w' ws = sqdist w ws - 4 * s * (1 - s * (1 + x\<^sup>2)) * (dot [1, x] w - t)\<^sup>2"
    using sqdist_sgd_step [of w "[1, x]" ws t s] sol Cons.prems assms(3)
    by (simp add: power2_eq_square)
  moreover have "0 \<le> 4 * s * (1 - s * (1 + x\<^sup>2)) * (dot [1, x] w - t)\<^sup>2"
    using assms(2) small by simp
  ultimately have "sqdist ?w' ws \<le> sqdist w ws" by linarith
  moreover have "sqdist (fold (\<lambda>(x, t) w. sgd_step s w [1, x] t) data ?w') ws \<le> sqdist ?w' ws"
    using Cons.IH Cons.prems by simp
  ultimately show ?case using xt by simp
qed

subsection \<open>Properties\<close>

text \<open>
  C4. One pass of the inner loop body on weights of length 2 and a sample
  \<open>(x, t)\<close> updates both weights at once with the analytic gradient:
  \<open>w\<^sub>0 - STEP 2 (y - t)\<close> and \<open>w\<^sub>1 - STEP 2 (y - t) x\<close>, with \<open>y = w\<^sub>0 + x w\<^sub>1\<close>.
\<close>

theorem dataset_sample_step_update:
  assumes "length w = 2"
  shows "dataset_sample_step c w (x, t) =
         Inr [w ! 0 - ds_step c * (2 * (w ! 0 + x * w ! 1 - t)),
              w ! 1 - ds_step c * (2 * (w ! 0 + x * w ! 1 - t) * x)]"
proof -
  obtain a b where w: "w = [a, b]"
    using assms by (auto simp: numeral_2_eq_2 length_Suc_conv)
  then show ?thesis
    using dataset_sample_step_closed [OF assms, of c x t]
    by (simp add: sgd_step_def analytic_gradient_def)
qed

theorem dataset_sample_step_update_witness:
  "dataset_sample_step cfg06 [0, 0] (1, 101) = Inr [101 / 50, 101 / 50]"
  using dataset_sample_step_update [of "[0, 0]" cfg06 1 101] by (simp add: cfg06_def)

text \<open>
  C5. The whole script refines the online reference run: from any initial
  weights of length 2 the thousand epochs raise nothing and return the
  reference epoch iterated a thousand times with step \<open>0.01\<close>.
\<close>

theorem dataset_main_refines_spec:
  assumes "length r0 = 1 + N06"
  shows "dataset_main r0 = Inr ((ds_epoch_spec (1 / 100) data06 ^^ 1000) (np_subs r0 (1 / 2)))"
  using dataset_loop_spec [of "np_subs r0 (1 / 2)" cfg06 data06 "[0..<epochs cfg06]"] assms
  by (simp add: dataset_main_def cfg06_def N06_def)

theorem dataset_main_refines_spec_witness:
  "dataset_main [0, 0] = Inr ((ds_epoch_spec (1 / 100) data06 ^^ 1000) (np_subs [0, 0] (1 / 2)))"
  using dataset_main_refines_spec [of "[0, 0]"] by (simp add: N06_def)

text \<open>
  C6. After a step on sample \<open>(x, t)\<close> the prediction error on that sample
  is the old error times \<open>1 - 2 STEP (1 + x\<^sup>2)\<close>: it shrinks exactly when
  \<open>0 < STEP (1 + x\<^sup>2) < 1\<close>.
\<close>

theorem sgd_residual_contraction:
  assumes "length w = 2" "dataset_sample_step c w (x, t) = Inr w'"
  shows "dot [1, x] w' - t = (1 - 2 * ds_step c * (1 + x\<^sup>2)) * (dot [1, x] w - t)"
  using assms dataset_sample_step_closed [OF assms(1), of c x t]
    dot_sgd_step [of w "[1, x]" "ds_step c" t]
  by (simp add: power2_eq_square)

theorem sgd_residual_contraction_witness:
  "dot [1, 10] [0, 0] - 1001 = -1001 \<and>
   dot [1, 10] [1001 / 50, 1001 / 5] - 1001 = (1 - 2 * (1 / 100) * (1 + 10\<^sup>2)) * (-1001)"
proof -
  have "dataset_sample_step cfg06 [0, 0] (10, 1001) = Inr [1001 / 50, 1001 / 5]"
    using dataset_sample_step_closed [of "[0, 0]" cfg06 10 1001]
    by (simp add: cfg06_def sgd_step_def analytic_gradient_def)
  from sgd_residual_contraction [of "[0, 0]", OF _ this] show ?thesis
    by (simp add: cfg06_def)
qed

text \<open>
  C7. When the data are fit exactly by some weights \<open>w*\<close> and every sample
  satisfies \<open>STEP (1 + x\<^sup>2) \<le> 1\<close>, an epoch never moves the weights away
  from \<open>w*\<close>: the squared distance to \<open>w*\<close> does not increase.
\<close>

theorem epoch_distance_nonincreasing:
  assumes "\<forall>(x, t) \<in> set data. dot [1, x] ws = t \<and> ds_step c * (1 + x\<^sup>2) \<le> 1"
    and "0 \<le> ds_step c" "length ws = 2" "length w = 2"
    and "dataset_epoch c data w = Inr w'"
  shows "sqdist w' ws \<le> sqdist w ws"
  using assms ds_epoch_spec_sqdist [OF assms(1-4)] dataset_epoch_spec [OF assms(4), of c data]
  by simp

theorem epoch_distance_nonincreasing_witness:
  "sqdist (ds_epoch_spec (1 / 100) [(1, 101), (9, 901)] [0, 0]) [1, 100] \<le> sqdist [0, 0] [1, 100]"
proof -
  have ds: "ds_step cfg06 = 1 / 100" by (simp add: cfg06_def)
  have "dataset_epoch cfg06 [(1, 101), (9, 901)] [0, 0] =
        Inr (ds_epoch_spec (ds_step cfg06) [(1, 101), (9, 901)] [0, 0])"
    by (rule dataset_epoch_spec) simp
  then have e: "dataset_epoch cfg06 [(1, 101), (9, 901)] [0, 0] =
        Inr (ds_epoch_spec (1 / 100) [(1, 101), (9, 901)] [0, 0])"
    by (simp only: ds)
  from epoch_distance_nonincreasing [of "[(1, 101), (9, 901)]" "[1, 100]" cfg06, OF _ _ _ _ e]
  show ?thesis by (simp add: cfg06_def)
qed

text \<open>
  The observations are fit exactly by \<open>f(x) = 1 + 100 x\<close> (bias 1,
  weight 100; not \<open>100 + 100 x\<close> as the script's comment reads), and those
  weights \<open>[1, 100]\<close> are a fixed point of the script's epoch loop:
  started there, the thousand epochs return them unchanged.
\<close>

lemma dataset_loop_fixed_point: "dataset_loop cfg06 data06 [0..<epochs cfg06] [1, 100] = Inr [1, 100]"
proof -
  have sol: "ds_epoch_spec (1 / 100) data06 [1, 100] = [1, 100]"
    by (rule ds_epoch_spec_solution) (simp_all add: data06_def X06_def T06_def)
  have "(ds_epoch_spec (1 / 100) data06 ^^ n) [1, 100] = [1, 100]" for n
    by (induction n) (simp_all add: sol)
  then show ?thesis
    using dataset_loop_spec [of "[1, 100]" cfg06 data06 "[0..<epochs cfg06]"]
    by (simp add: cfg06_def)
qed

text \<open>
  C9. The script's step \<open>0.01\<close> is too large for its last sample \<open>x = 10\<close>:
  there \<open>STEP (1 + x\<^sup>2) = 1.01\<close>, each step multiplies the error on that
  sample by \<open>-1.02\<close>, and repeating the sample \<open>k\<close> times multiplies its loss
  by \<open>1.02\<^sup>2\<^sup>k\<close>: single-sample training diverges.
\<close>

theorem overshoot_at_x10:
  assumes "length w = 2" "dataset_epoch cfg06 (replicate k (10, 1001)) w = Inr w'"
  shows "dataset_loss (dot [1, 10] w') 1001 = (51 / 50) ^ (2 * k) * dataset_loss (dot [1, 10] w) 1001"
proof -
  have res: "dot [1, 10] (ds_epoch_spec (1 / 100) (replicate k (10, 1001)) v) - 1001 =
             (- 51 / 50) ^ k * (dot [1, 10] v - 1001)" if "length v = 2" for v
    using that
  proof (induction k arbitrary: v)
    case 0
    then show ?case by (simp add: ds_epoch_spec_def)
  next
    case (Suc k)
    let ?v' = "sgd_step (1 / 100) v [1, 10] 1001"
    have "length ?v' = 2" using Suc.prems by simp
    moreover have "dot [1, 10] ?v' - 1001 = (- 51 / 50) * (dot [1, 10] v - 1001)"
      using dot_sgd_step [of v "[1, 10]" "1 / 100" 1001] Suc.prems by simp
    moreover have "ds_epoch_spec (1 / 100) (replicate (Suc k) (10, 1001)) v =
                   ds_epoch_spec (1 / 100) (replicate k (10, 1001)) ?v'"
      by (simp add: ds_epoch_spec_def)
    ultimately show ?case using Suc.IH [of ?v'] by simp
  qed
  have "w' = ds_epoch_spec (1 / 100) (replicate k (10, 1001)) w"
    using assms dataset_epoch_spec [OF assms(1), of cfg06] by (simp add: cfg06_def)
  moreover have "((- 51 / 50 :: real) ^ k)\<^sup>2 = (51 / 50) ^ (2 * k)"
  proof -
    have "((- 51 / 50 :: real) ^ k)\<^sup>2 = ((- 51 / 50) ^ 2) ^ k"
      by (metis power_mult mult.commute)
    also have "\<dots> = (51 / 50) ^ (2 * k)"
      by (simp add: power_mult)
    finally show ?thesis .
  qed
  ultimately show ?thesis
    using res [OF assms(1)]
    by (simp add: dataset_loss_def power_mult_distrib)
qed

theorem overshoot_at_x10_witness:
  "dataset_loss (dot [1, 10] (ds_epoch_spec (1 / 100) (replicate 1 (10, 1001)) [0, 0])) 1001 =
   (51 / 50) ^ 2 * dataset_loss (dot [1, 10] [0, 0]) 1001"
proof -
  have ds: "ds_step cfg06 = 1 / 100" by (simp add: cfg06_def)
  have "dataset_epoch cfg06 (replicate 1 (10, 1001)) [0, 0] =
        Inr (ds_epoch_spec (ds_step cfg06) (replicate 1 (10, 1001)) [0, 0])"
    by (rule dataset_epoch_spec) simp
  then have "dataset_epoch cfg06 (replicate 1 (10, 1001)) [0, 0] =
        Inr (ds_epoch_spec (1 / 100) (replicate 1 (10, 1001)) [0, 0])"
    by (simp only: ds)
  from overshoot_at_x10 [of "[0, 0]", OF _ this] show ?thesis by simp
qed

end
