(* ===== verification/Dataset_Converge.thy ===== *)
theory Dataset_Converge
  imports Dataset
begin

text \<open>
  Convergence of \<open>src/learn_ml/06_dataset.py\<close>. Every sample of the data is
  fitted exactly by \<open>[1, 100]\<close>, so an online step moves the error
  \<open>e = w - [1, 100]\<close> by the linear map \<open>e \<mapsto> e - 2 STEP ([1, x] \<cdot> e) [1, x]\<close>
  (\<open>err_step\<close>), and an epoch by their composition \<open>err_epoch\<close>, a 2x2 matrix.
  At \<open>x = 7\<close> the step is the projection \<open>2 STEP (1 + 7\<^sup>2) = 1\<close>, so the
  epoch matrix is singular; a singular 2x2 matrix \<open>M\<close> satisfies
  \<open>M\<^sup>2 = tr M \<cdot> M\<close>, so from the second epoch on every epoch multiplies the
  error by the same number \<open>epoch_factor06 = tr M \<approx> 0.9652\<close>.
\<close>

definition err_step :: "real \<Rightarrow> real \<Rightarrow> real \<times> real \<Rightarrow> real \<times> real" where
  "err_step s x e = (case e of (p, q) \<Rightarrow> (p - 2 * s * (p + x * q), q - 2 * s * (p + x * q) * x))"

definition err_epoch :: "real \<Rightarrow> (real \<times> real) list \<Rightarrow> real \<times> real \<Rightarrow> real \<times> real" where
  "err_epoch s data e = fold (\<lambda>(x, t) e. err_step s x e) data e"

definition epoch_factor06 :: real where
  "epoch_factor06 = fst (err_epoch (1 / 100) data06 (1, 0)) + snd (err_epoch (1 / 100) data06 (0, 1))"

lemma err_epoch_Nil [simp]: "err_epoch s [] e = e"
  and err_epoch_Cons [simp]: "err_epoch s ((x, t) # data) e = err_epoch s data (err_step s x e)"
  by (simp_all add: err_epoch_def)

lemma err06:
  "err_epoch (1 / 100) data06 (1, 0) =
     (91899534370191939 / 97656250000000000, - (216524692188729 / 2441406250000000))"
  "err_epoch (1 / 100) data06 (0, 1) =
     (- (25052234451836211 / 97656250000000000), 59025623910921 / 2441406250000000)"
  by (simp_all add: data06_def X06_def T06_def err_step_def)

lemma ds_epoch_spec_err:
  assumes "\<forall>(x, t) \<in> set data. a + b * x = t"
  shows "ds_epoch_spec s data [a + p, b + q] =
           (case err_epoch s data (p, q) of (p', q') \<Rightarrow> [a + p', b + q'])"
  using assms
proof (induction data arbitrary: p q)
  case Nil
  then show ?case by (simp add: ds_epoch_spec_def)
next
  case (Cons xt data)
  obtain x t where xt: "xt = (x, t)" by fastforce
  with Cons.prems have t: "t = a + b * x" and rest: "\<forall>(x, t) \<in> set data. a + b * x = t" by auto
  let ?r = "p + x * q"
  have "sgd_step s [a + p, b + q] [1, x] t = [a + (p - 2 * s * ?r), b + (q - 2 * s * ?r * x)]"
    by (simp add: sgd_step_def analytic_gradient_def t algebra_simps)
  then have "ds_epoch_spec s (xt # data) [a + p, b + q] =
      ds_epoch_spec s data [a + (p - 2 * s * ?r), b + (q - 2 * s * ?r * x)]"
    by (simp add: ds_epoch_spec_def xt)
  also have "\<dots> = (case err_epoch s data (p - 2 * s * ?r, q - 2 * s * ?r * x) of
                    (p', q') \<Rightarrow> [a + p', b + q'])"
    by (rule Cons.IH [OF rest])
  finally show ?case by (simp add: xt err_step_def)
qed

lemma err_epoch_linear:
  "err_epoch s data (p, q) =
     (p * fst (err_epoch s data (1, 0)) + q * fst (err_epoch s data (0, 1)),
      p * snd (err_epoch s data (1, 0)) + q * snd (err_epoch s data (0, 1)))"
proof (induction data arbitrary: p q)
  case Nil
  then show ?case by simp
next
  case (Cons xt data)
  obtain x t where xt: "xt = (x, t)" by fastforce
  obtain a1 a2 where A: "err_epoch s data (1, 0) = (a1, a2)" by fastforce
  obtain b1 b2 where B: "err_epoch s data (0, 1) = (b1, b2)" by fastforce
  have IH: "err_epoch s data (p', q') = (p' * a1 + q' * b1, p' * a2 + q' * b2)" for p' q'
    using Cons.IH [of p' q'] A B by simp
  show ?case
    by (simp add: xt IH err_step_def algebra_simps)
qed

lemma rank_one_square:
  fixes a11 a12 a21 a22 p q :: real
  assumes "a11 * a22 - a12 * a21 = 0"
  shows "a11 * (a11 * p + a12 * q) + a12 * (a21 * p + a22 * q) = (a11 + a22) * (a11 * p + a12 * q)"
    and "a21 * (a11 * p + a12 * q) + a22 * (a21 * p + a22 * q) = (a11 + a22) * (a21 * p + a22 * q)"
proof -
  have "a12 * a21 = a11 * a22" using assms by simp
  then show "a11 * (a11 * p + a12 * q) + a12 * (a21 * p + a22 * q) = (a11 + a22) * (a11 * p + a12 * q)"
    and "a21 * (a11 * p + a12 * q) + a22 * (a21 * p + a22 * q) = (a11 + a22) * (a21 * p + a22 * q)"
    by (simp_all add: algebra_simps)
qed

lemma err06_twice:
  "err_epoch (1 / 100) data06 (err_epoch (1 / 100) data06 (p, q)) =
     (epoch_factor06 * fst (err_epoch (1 / 100) data06 (p, q)),
      epoch_factor06 * snd (err_epoch (1 / 100) data06 (p, q)))"
proof -
  define a11 where "a11 = fst (err_epoch (1 / 100) data06 (1, 0))"
  define a21 where "a21 = snd (err_epoch (1 / 100) data06 (1, 0))"
  define a12 where "a12 = fst (err_epoch (1 / 100) data06 (0, 1))"
  define a22 where "a22 = snd (err_epoch (1 / 100) data06 (0, 1))"
  have M: "err_epoch (1 / 100) data06 (p', q') = (a11 * p' + a12 * q', a21 * p' + a22 * q')" for p' q'
    unfolding a11_def a12_def a21_def a22_def by (subst err_epoch_linear) (simp add: mult.commute)
  have det: "a11 * a22 - a12 * a21 = 0"
    by (simp add: a11_def a12_def a21_def a22_def err06)
  have lam: "epoch_factor06 = a11 + a22"
    by (simp add: epoch_factor06_def a11_def a22_def)
  show ?thesis
    by (simp add: M lam rank_one_square [OF det])
qed

lemma epoch_factor06_value: "epoch_factor06 = 94260559326628779 / 97656250000000000"
  by (simp add: epoch_factor06_def err06)

lemma err_epoch_scale:
  "err_epoch s data (c * p, c * q) =
     (c * fst (err_epoch s data (p, q)), c * snd (err_epoch s data (p, q)))"
proof -
  obtain a1 a2 where A: "err_epoch s data (1, 0) = (a1, a2)" by fastforce
  obtain b1 b2 where B: "err_epoch s data (0, 1) = (b1, b2)" by fastforce
  have M: "err_epoch s data (p', q') = (p' * a1 + q' * b1, p' * a2 + q' * b2)" for p' q'
    using err_epoch_linear [of s data p' q'] A B by simp
  show ?thesis by (simp add: M algebra_simps)
qed

lemma data06_fit: "\<forall>(x, t) \<in> set data06. 1 + 100 * x = t"
  by (simp add: data06_def X06_def T06_def)

lemma ds06_iterate:
  assumes "err_epoch (1 / 100) data06 (p, q) = (p1, q1)"
  shows "(ds_epoch_spec (1 / 100) data06 ^^ Suc n) [1 + p, 100 + q] =
           [1 + epoch_factor06 ^ n * p1, 100 + epoch_factor06 ^ n * q1]"
proof (induction n)
  case 0
  show ?case using ds_epoch_spec_err [OF data06_fit] assms by simp
next
  case (Suc n)
  have twice: "err_epoch (1 / 100) data06 (p1, q1) = (epoch_factor06 * p1, epoch_factor06 * q1)"
    using err06_twice [of p q] assms by simp
  have scaled: "err_epoch (1 / 100) data06 (epoch_factor06 ^ n * p1, epoch_factor06 ^ n * q1) =
      (epoch_factor06 ^ Suc n * p1, epoch_factor06 ^ Suc n * q1)"
    using err_epoch_scale [of "1 / 100" data06 "epoch_factor06 ^ n" p1 q1] twice by simp
  have "(ds_epoch_spec (1 / 100) data06 ^^ Suc (Suc n)) [1 + p, 100 + q] =
        ds_epoch_spec (1 / 100) data06 [1 + epoch_factor06 ^ n * p1, 100 + epoch_factor06 ^ n * q1]"
    using Suc.IH by simp
  also have "\<dots> = [1 + epoch_factor06 ^ Suc n * p1, 100 + epoch_factor06 ^ Suc n * q1]"
    using ds_epoch_spec_err [OF data06_fit, of "1 / 100" "epoch_factor06 ^ n * p1" "epoch_factor06 ^ n * q1"]
      scaled by simp
  finally show ?case .
qed

lemma epoch_factor06_bounds: "0 < epoch_factor06" "epoch_factor06 < 97 / 100"
  by (simp_all add: epoch_factor06_value)

lemma dataset_main_closed:
  assumes "length r0 = 1 + N06"
  shows "dataset_main r0 =
           Inr [1 + epoch_factor06 ^ 999 * fst (err_epoch (1 / 100) data06 (r0 ! 0 - 3 / 2, r0 ! 1 - 201 / 2)),
                100 + epoch_factor06 ^ 999 * snd (err_epoch (1 / 100) data06 (r0 ! 0 - 3 / 2, r0 ! 1 - 201 / 2))]"
proof -
  obtain a b where r0: "r0 = [a, b]"
    using assms by (auto simp: N06_def length_Suc_conv)
  obtain p1 q1 where e: "err_epoch (1 / 100) data06 (a - 3 / 2, b - 201 / 2) = (p1, q1)" by fastforce
  have "(ds_epoch_spec (1 / 100) data06 ^^ Suc 999) [1 + (a - 3 / 2), 100 + (b - 201 / 2)] =
      [1 + epoch_factor06 ^ 999 * p1, 100 + epoch_factor06 ^ 999 * q1]"
    by (rule ds06_iterate [OF e])
  then have "(ds_epoch_spec (1 / 100) data06 ^^ 1000) (np_subs r0 (1 / 2)) =
      [1 + epoch_factor06 ^ 999 * p1, 100 + epoch_factor06 ^ 999 * q1]"
    using r0 by (simp add: np_subs_def)
  moreover have "dataset_main r0 = Inr ((ds_epoch_spec (1 / 100) data06 ^^ 1000) (np_subs r0 (1 / 2)))"
    using dataset_loop_spec [of "np_subs r0 (1 / 2)" cfg06 data06 "[0..<epochs cfg06]"] r0
    by (simp add: dataset_main_def cfg06_def)
  ultimately show ?thesis
    using e r0 by simp
qed


lemma factor_power_small: "epoch_factor06 ^ 999 \<le> (16 / 100) ^ 15"
proof -
  have "epoch_factor06 ^ 999 \<le> (97 / 100) ^ 999"
    using epoch_factor06_bounds by (intro power_mono) simp_all
  also have "(97 / 100 :: real) ^ 999 \<le> (97 / 100) ^ 960"
    by (rule power_decreasing) simp_all
  also have "(97 / 100 :: real) ^ 960 = (((97 / 100) ^ 8) ^ 8) ^ 15"
    by (simp flip: power_mult)
  also have "\<dots> \<le> (((79 / 100) ^ 8) ^ 15 :: real)"
    by (intro power_mono) (simp_all add: power_divide)
  also have "\<dots> \<le> ((16 / 100) ^ 15 :: real)"
    by (intro power_mono) (simp_all add: power_divide)
  finally show ?thesis .
qed

lemma first_epoch_error_bounds:
  assumes "0 \<le> a" "a < 1" "0 \<le> b" "b < 1"
  shows "\<bar>fst (err_epoch (1 / 100) data06 (a - 3 / 2, b - 201 / 2))\<bar> \<le> 28"
    and "\<bar>snd (err_epoch (1 / 100) data06 (a - 3 / 2, b - 201 / 2))\<bar> \<le> 3"
  using assms err_epoch_linear [of "1 / 100" data06 "a - 3 / 2" "b - 201 / 2"]
  by (simp_all add: err06 abs_le_iff field_simps)

subsection \<open>Properties\<close>

text \<open>
  C27. Convergence of the 06 script: from any draw \<open>r0\<close> of
  \<open>np.random.rand(1 + N)\<close>, the 1000 epochs end at
  \<open>[1, 100] + \<lambda>\<^sup>9\<^sup>9\<^sup>9 e\<^sub>1\<close>, where \<open>e\<^sub>1\<close> is the error \<open>err_epoch\<close> leaves
  after the first epoch from \<open>w = r0 - .5\<close>, and \<open>\<lambda> = epoch_factor06\<close> lies
  strictly between 0 and 0.97: every epoch after the first shrinks the
  distance to the exact fit \<open>[1, 100]\<close> by the same factor \<open>\<lambda>\<close>.
\<close>

theorem dataset_main_converges:
  assumes "length r0 = 1 + N06"
  shows "dataset_main r0 =
           Inr [1 + epoch_factor06 ^ 999 * fst (err_epoch (1 / 100) data06 (r0 ! 0 - 3 / 2, r0 ! 1 - 201 / 2)),
                100 + epoch_factor06 ^ 999 * snd (err_epoch (1 / 100) data06 (r0 ! 0 - 3 / 2, r0 ! 1 - 201 / 2))] \<and>
         0 < epoch_factor06 \<and> epoch_factor06 < 97 / 100"
  using dataset_main_closed [OF assms] epoch_factor06_bounds by simp

theorem dataset_main_converges_witness:
  "dataset_main [0, 0] =
     Inr [1 + epoch_factor06 ^ 999 * fst (err_epoch (1 / 100) data06 (0 - 3 / 2, 0 - 201 / 2)),
          100 + epoch_factor06 ^ 999 * snd (err_epoch (1 / 100) data06 (0 - 3 / 2, 0 - 201 / 2))] \<and>
   0 < epoch_factor06 \<and> epoch_factor06 < 97 / 100"
  using dataset_main_converges [of "[0, 0]"] by (simp add: N06_def)

text \<open>
  C30. What the 06 script prints: for every draw of \<open>np.random.rand(2)\<close>
  (entries in \<open>[0, 1)\<close>), the final weights are within \<open>10\<^sup>-\<^sup>1\<^sup>0\<close> of the
  exact fit \<open>[1, 100]\<close> (bias 1, not the 100 the comment expects).
\<close>

theorem dataset_final_weights_close:
  assumes "length r0 = 1 + N06" "\<forall>v \<in> set r0. 0 \<le> v \<and> v < 1"
  shows "\<exists>w. dataset_main r0 = Inr w \<and> \<bar>w ! 0 - 1\<bar> < 1 / 10 ^ 10 \<and> \<bar>w ! 1 - 100\<bar> < 1 / 10 ^ 10"
proof -
  obtain a b where r0: "r0 = [a, b]"
    using assms(1) by (auto simp: N06_def length_Suc_conv)
  let ?e = "err_epoch (1 / 100) data06 (a - 3 / 2, b - 201 / 2)"
  have ab: "0 \<le> a" "a < 1" "0 \<le> b" "b < 1" using assms(2) r0 by simp_all
  have lam: "0 \<le> epoch_factor06 ^ 999" "epoch_factor06 ^ 999 \<le> (16 / 100) ^ 15"
    using epoch_factor06_bounds factor_power_small by simp_all
  have "epoch_factor06 ^ 999 * \<bar>fst ?e\<bar> \<le> (16 / 100) ^ 15 * 28"
    using lam first_epoch_error_bounds(1) [OF ab] by (intro mult_mono) simp_all
  moreover have "epoch_factor06 ^ 999 * \<bar>snd ?e\<bar> \<le> (16 / 100) ^ 15 * 3"
    using lam first_epoch_error_bounds(2) [OF ab] by (intro mult_mono) simp_all
  moreover have "(16 / 100 :: real) ^ 15 * 28 < 1 / 10 ^ 10" by (simp add: power_divide)
  ultimately show ?thesis
    using dataset_main_closed [OF assms(1)] r0 lam(1) by (simp add: abs_mult)
qed

theorem dataset_final_weights_close_witness:
  "\<exists>w. dataset_main [1 / 2, 1 / 2] = Inr w \<and> \<bar>w ! 0 - 1\<bar> < 1 / 10 ^ 10 \<and> \<bar>w ! 1 - 100\<bar> < 1 / 10 ^ 10"
  using dataset_final_weights_close [of "[1 / 2, 1 / 2]"] by (simp add: N06_def)

end
