(* ===== verification/Dataset_Output.thy ===== *)
theory Dataset_Output
  imports Dataset_Converge
begin

text \<open>
  What \<open>src/learn_ml/06_dataset.py\<close> prints: for every sample of every epoch
  the line \<open>"f(%s) = %f (y: %f, loss: %f)" % (x, t, y, l)\<close> (the input with
  its bias, the target, the prediction and the loss, before the update),
  then an empty line and \<open>"W = %s" % w\<close>. \<open>ds_line\<close> records the values a
  line shows (the decimal formatting is not modelled); the printing runs
  \<open>dataset_sample_io\<close>, \<open>dataset_epoch_io\<close>, \<open>dataset_loop_io\<close> and
  \<open>dataset_main_io\<close> are the script with its \<open>print\<close> statements. The lines
  are those of the reference run (\<open>ds_lines\<close>), and from the second epoch on
  every printed loss is \<open>epoch_factor06\<^sup>2\<close> times the loss printed for the same
  sample one epoch earlier.
\<close>

datatype ds_line =
    Sample vec real real real
  | Blank06
  | Weights06 vec

definition dataset_sample_io :: "ds_config \<Rightarrow> vec \<Rightarrow> real \<times> real \<Rightarrow> (ds_line, vec) io" where
  "dataset_sample_io c w xt =
     (case xt of (x0, t) \<Rightarrow>
       (let x = np_insert0 [x0] 1 in
        tbind (io_lift (np_mul x w)) (\<lambda>xw.
        (let y = py_sum xw; l = dataset_loss y t in
         tbind (emit (Sample x t y l)) (\<lambda>_.
         (let dw = np_smul (2 * (y - t)) x in
          io_lift (np_iadd w (np_muls (np_smul (ds_step c) dw) (-1)))))))))"

fun dataset_epoch_io :: "ds_config \<Rightarrow> (real \<times> real) list \<Rightarrow> vec \<Rightarrow> (ds_line, vec) io" where
  "dataset_epoch_io c [] w = io_return w"
| "dataset_epoch_io c (xt # data) w = tbind (dataset_sample_io c w xt) (dataset_epoch_io c data)"

fun dataset_loop_io :: "ds_config \<Rightarrow> (real \<times> real) list \<Rightarrow> nat list \<Rightarrow> vec \<Rightarrow> (ds_line, vec) io" where
  "dataset_loop_io c data [] w = io_return w"
| "dataset_loop_io c data (i # ixs) w = tbind (dataset_epoch_io c data w) (dataset_loop_io c data ixs)"

definition dataset_main_io :: "vec \<Rightarrow> (ds_line, vec) io" where
  "dataset_main_io r0 =
     tbind (dataset_loop_io cfg06 data06 [0..<epochs cfg06] (np_subs r0 (1 / 2))) (\<lambda>w.
     tbind (emit Blank06) (\<lambda>_.
     tbind (emit (Weights06 w)) (\<lambda>_. io_return w)))"

text \<open>The loss a sample line shows, and the lines of one reference epoch.\<close>

fun sample_loss :: "ds_line \<Rightarrow> real" where
  "sample_loss (Sample x t y l) = l"
| "sample_loss Blank06 = 0"
| "sample_loss (Weights06 w) = 0"

fun ds_lines :: "real \<Rightarrow> (real \<times> real) list \<Rightarrow> vec \<Rightarrow> ds_line list" where
  "ds_lines s [] w = []"
| "ds_lines s ((x, t) # data) w =
     Sample [1, x] t (dot [1, x] w) (dataset_loss (dot [1, x] w) t) # ds_lines s data (sgd_step s w [1, x] t)"

subsection \<open>Erasing the output\<close>

lemma dataset_sample_io_result: "snd (dataset_sample_io c w xt) = dataset_sample_step c w xt"
  by (simp add: dataset_sample_io_def dataset_sample_step_def Let_def split: prod.split)

lemma dataset_epoch_io_result: "snd (dataset_epoch_io c data w) = dataset_epoch c data w"
  by (induction data arbitrary: w) (simp_all add: dataset_sample_io_result)

lemma dataset_loop_io_result: "snd (dataset_loop_io c data ixs w) = dataset_loop c data ixs w"
  by (induction ixs arbitrary: w) (simp_all add: dataset_epoch_io_result)

lemma dataset_main_io_result: "snd (dataset_main_io r0) = dataset_main r0"
  by (simp add: dataset_main_io_def dataset_main_def dataset_loop_io_result ebind_def split: sum.split)

subsection \<open>The printed lines\<close>

lemma dataset_sample_io_line:
  assumes "length w = 2"
  shows "dataset_sample_io c w (x, t) =
           ([Sample [1, x] t (dot [1, x] w) (dataset_loss (dot [1, x] w) t)],
            Inr (sgd_step (ds_step c) w [1, x] t))"
proof -
  have "fst (dataset_sample_io c w (x, t)) = [Sample [1, x] t (dot [1, x] w) (dataset_loss (dot [1, x] w) t)]"
    using assms by (simp add: dataset_sample_io_def np_insert0_def Let_def)
  moreover have "snd (dataset_sample_io c w (x, t)) = Inr (sgd_step (ds_step c) w [1, x] t)"
    using dataset_sample_step_closed [OF assms] by (simp add: dataset_sample_io_result)
  ultimately show ?thesis by (metis prod.collapse)
qed

lemma dataset_epoch_io_lines:
  "length w = 2 \<Longrightarrow>
   dataset_epoch_io c data w = (ds_lines (ds_step c) data w, Inr (ds_epoch_spec (ds_step c) data w))"
proof (induction data arbitrary: w)
  case Nil
  then show ?case by (simp add: io_return_def ds_epoch_spec_def)
next
  case (Cons xt data)
  obtain x t where xt: "xt = (x, t)" by fastforce
  have "length (sgd_step (ds_step c) w [1, x] t) = 2" using Cons.prems by simp
  with Cons.IH [OF this] Cons.prems show ?case
    by (simp add: xt dataset_sample_io_line ds_epoch_spec_def)
qed

lemma dataset_loop_io_lines:
  "length w = 2 \<Longrightarrow>
   dataset_loop_io c data ixs w =
     (concat (map (\<lambda>i. ds_lines (ds_step c) data ((ds_epoch_spec (ds_step c) data ^^ i) w)) [0..<length ixs]),
      Inr ((ds_epoch_spec (ds_step c) data ^^ length ixs) w))"
proof (induction ixs arbitrary: w)
  case Nil
  then show ?case by (simp add: io_return_def)
next
  case (Cons i ixs)
  let ?E = "ds_epoch_spec (ds_step c) data"
  have "length (?E w) = 2" using Cons.prems by simp
  with Cons.IH [OF this] Cons.prems show ?case
    by (simp add: dataset_epoch_io_lines map_upt_Suc funpow_Suc_right del: upt_Suc funpow.simps)
qed


lemma ds_lines_length [simp]: "length (ds_lines s data w) = length data"
  by (induction s data w rule: ds_lines.induct) simp_all

lemma ds_lines_nth_loss:
  assumes "k < length data"
  shows "sample_loss (ds_lines s data w ! k) =
           dataset_loss (dot [1, fst (data ! k)] (ds_epoch_spec s (take k data) w)) (snd (data ! k))"
  using assms
proof (induction data arbitrary: w k)
  case Nil
  then show ?case by simp
next
  case (Cons xt data)
  obtain x t where xt: "xt = (x, t)" by fastforce
  show ?case
  proof (cases k)
    case 0
    then show ?thesis by (simp add: xt ds_epoch_spec_def)
  next
    case (Suc k')
    with Cons.prems have "k' < length data" by simp
    from Cons.IH [OF this] Suc show ?thesis by (simp add: xt ds_epoch_spec_def)
  qed
qed

text \<open>
  The loss printed for sample \<open>k\<close> of an epoch that starts \<open>(p, q)\<close> away from
  \<open>[1, 100]\<close>: the square of the residual \<open>p\<^sub>k + x\<^sub>k q\<^sub>k\<close> of the error
  \<open>(p\<^sub>k, q\<^sub>k)\<close> after the first \<open>k\<close> samples.
\<close>

lemma ds06_line_loss:
  assumes "k < 10"
  shows "sample_loss (ds_lines (1 / 100) data06 [1 + p, 100 + q] ! k) =
           (fst (err_epoch (1 / 100) (take k data06) (p, q)) +
            fst (data06 ! k) * snd (err_epoch (1 / 100) (take k data06) (p, q)))\<^sup>2"
proof -
  have len: "k < length data06" using assms by (simp add: data06_def X06_def T06_def)
  have fit: "\<forall>(x, t) \<in> set (take k data06). 1 + 100 * x = t"
    using data06_fit by (meson in_set_takeD)
  obtain x t where xt: "data06 ! k = (x, t)" by fastforce
  have t: "t = 1 + 100 * x"
    using data06_fit nth_mem [OF len] xt by fastforce
  obtain p' q' where e: "err_epoch (1 / 100) (take k data06) (p, q) = (p', q')" by fastforce
  have "ds_epoch_spec (1 / 100) (take k data06) [1 + p, 100 + q] = [1 + p', 100 + q']"
    using ds_epoch_spec_err [OF fit, of "1 / 100" p q] e by simp
  then show ?thesis
    using ds_lines_nth_loss [OF len, of "1 / 100" "[1 + p, 100 + q]"] xt e t
    by (simp add: dataset_loss_def algebra_simps)
qed

lemma ds06_block_loss:
  assumes "k < 10" "err_epoch (1 / 100) data06 (p, q) = (p1, q1)"
  shows "sample_loss (ds_lines (1 / 100) data06 ((ds_epoch_spec (1 / 100) data06 ^^ Suc n) [1 + p, 100 + q]) ! k) =
           (epoch_factor06 ^ n)\<^sup>2 *
           (fst (err_epoch (1 / 100) (take k data06) (p1, q1)) +
            fst (data06 ! k) * snd (err_epoch (1 / 100) (take k data06) (p1, q1)))\<^sup>2"
proof -
  let ?c = "epoch_factor06 ^ n"
  let ?e = "err_epoch (1 / 100) (take k data06) (p1, q1)"
  have "sample_loss (ds_lines (1 / 100) data06 ((ds_epoch_spec (1 / 100) data06 ^^ Suc n) [1 + p, 100 + q]) ! k) =
          (fst (err_epoch (1 / 100) (take k data06) (?c * p1, ?c * q1)) +
           fst (data06 ! k) * snd (err_epoch (1 / 100) (take k data06) (?c * p1, ?c * q1)))\<^sup>2"
    using ds06_iterate [OF assms(2), of n] ds06_line_loss [OF assms(1), of "?c * p1" "?c * q1"] by simp
  also have "\<dots> = (?c * (fst ?e + fst (data06 ! k) * snd ?e))\<^sup>2"
    using err_epoch_scale [of "1 / 100" "take k data06" ?c p1 q1] by (simp add: algebra_simps)
  finally show ?thesis by (simp add: power_mult_distrib)
qed

lemma dataset_main_io_lines:
  assumes "length r0 = 1 + N06"
  shows "fst (dataset_main_io r0) =
           concat (map (\<lambda>i. ds_lines (1 / 100) data06 ((ds_epoch_spec (1 / 100) data06 ^^ i) (np_subs r0 (1 / 2))))
                       [0..<1000])
           @ [Blank06, Weights06 ((ds_epoch_spec (1 / 100) data06 ^^ 1000) (np_subs r0 (1 / 2)))]"
  using assms dataset_loop_io_lines [of "np_subs r0 (1 / 2)" cfg06 data06 "[0..<1000]"]
  by (simp add: dataset_main_io_def cfg06_def N06_def)


subsection \<open>Properties\<close>

text \<open>
  C22. The output of the dataset script has one line per sample and epoch,
  then the empty line and the weights (10002 lines); and from the third
  epoch on (epoch index \<open>i + 1\<close> with \<open>1 \<le> i\<close>), the loss printed for every sample is \<open>epoch_factor06\<^sup>2\<close> (about
  0.93) times the loss printed for the same sample one epoch before, so the
  printed losses fall geometrically.
\<close>

theorem printed_losses_decay:
  assumes "length r0 = 1 + N06" "1 \<le> i" "i < 999" "k < 10"
  shows "length (fst (dataset_main_io r0)) = 10002 \<and>
         sample_loss (fst (dataset_main_io r0) ! (10 * Suc i + k)) =
           epoch_factor06\<^sup>2 * sample_loss (fst (dataset_main_io r0) ! (10 * i + k))"
proof -
  obtain a b where r0: "r0 = [a, b]"
    using assms(1) by (auto simp: N06_def length_Suc_conv)
  let ?E = "ds_epoch_spec (1 / 100) data06"
  let ?B = "\<lambda>j. ds_lines (1 / 100) data06 ((?E ^^ j) (np_subs r0 (1 / 2)))"
  have w0: "np_subs r0 (1 / 2) = [1 + (a - 3 / 2), 100 + (b - 201 / 2)]"
    by (simp add: r0 np_subs_def)
  obtain p1 q1 where e: "err_epoch (1 / 100) data06 (a - 3 / 2, b - 201 / 2) = (p1, q1)" by fastforce
  have len10: "length data06 = 10" by (simp add: data06_def X06_def T06_def)
  then have blocks: "\<forall>j < 1000. length (?B j) = 10" by simp
  have out: "fst (dataset_main_io r0) = concat (map ?B [0..<1000]) @
               [Blank06, Weights06 ((?E ^^ 1000) (np_subs r0 (1 / 2)))]"
    by (rule dataset_main_io_lines [OF assms(1)])
  have clen: "length (concat (map ?B [0..<1000])) = 10 * 1000"
    by (rule length_concat_blocks [OF blocks])
  have nth: "fst (dataset_main_io r0) ! (10 * j + k) = ?B j ! k" if "j < 1000" for j
  proof -
    have "10 * j + k < 10 * 1000" using that assms(4) by linarith
    then show ?thesis
      using out clen nth_concat_blocks [OF blocks that assms(4)] by (simp add: nth_append)
  qed
  obtain n where n: "i = Suc n" using assms(2) by (cases i) auto
  let ?L = "(fst (err_epoch (1 / 100) (take k data06) (p1, q1)) +
             fst (data06 ! k) * snd (err_epoch (1 / 100) (take k data06) (p1, q1)))\<^sup>2"
  have lt: "Suc (Suc n) < 1000" "Suc n < 1000" using assms(3) n by simp_all
  have i0: "fst (dataset_main_io r0) ! (10 * i + k) = ?B (Suc n) ! k"
    using nth [OF lt(2)] n by simp
  have i1: "fst (dataset_main_io r0) ! (10 * Suc i + k) = ?B (Suc (Suc n)) ! k"
    using nth [OF lt(1)] n by simp
  have l0: "sample_loss (?B (Suc n) ! k) = (epoch_factor06 ^ n)\<^sup>2 * ?L"
    using ds06_block_loss [OF assms(4) e, of n] by (simp only: w0)
  have l1: "sample_loss (?B (Suc (Suc n)) ! k) = (epoch_factor06 ^ Suc n)\<^sup>2 * ?L"
    using ds06_block_loss [OF assms(4) e, of "Suc n"] by (simp only: w0)
  have "sample_loss (fst (dataset_main_io r0) ! (10 * Suc i + k)) =
      epoch_factor06\<^sup>2 * sample_loss (fst (dataset_main_io r0) ! (10 * i + k))"
    unfolding i0 i1 l0 l1 by (simp add: power_mult_distrib)
  moreover have "length (fst (dataset_main_io r0)) = 10002" using out clen by simp
  ultimately show ?thesis by simp
qed

theorem printed_losses_decay_witness:
  "length (fst (dataset_main_io [0, 0])) = 10002 \<and>
   sample_loss (fst (dataset_main_io [0, 0]) ! 20) = epoch_factor06\<^sup>2 * sample_loss (fst (dataset_main_io [0, 0]) ! 10)"
  using printed_losses_decay [of "[0, 0]" 1 0] by (simp add: N06_def)

end
