(* ===== verification/Titanic.thy ===== *)
theory Titanic
  imports Numpy "HOL-Library.Multiset"
begin

text \<open>
  Model of \<open>src/learn_ml/10_titanic.py\<close>: a linear model on one-hot encoded
  categorical features of the Titanic passenger list, trained with a
  learning-rate schedule, a shuffle per epoch and a plateau detector, then
  evaluated on a held-out partition. A CSV row is an association list from
  column name to string value (\<open>csv.DictReader\<close> yields a dict); the rows
  of \<open>titanic.csv\<close> are a parameter, and so is \<open>random.shuffle\<close>: \<open>sh i xs\<close>
  is the order the shuffle of epoch \<open>i\<close> gives to the list \<open>xs\<close>.
\<close>

type_synonym row = "(string \<times> string) list"

type_synonym shuffler = "nat \<Rightarrow> row list \<Rightarrow> row list"

definition N10 :: nat where
  "N10 = 21"

definition STEP10 :: real where
  "STEP10 = 16 / 5"

text \<open>
  The vocabularies, in the order the source writes them. Python 2 iterates a
  dict in an unspecified order; claim C17 below shows the
  order does not matter.
\<close>

definition vocabs :: "(string \<times> (string \<times> nat) list) list" where
  "vocabs =
    [(''Fare'', [(''cheap'', 1), (''low'', 2), (''medium'', 3), (''high'', 4)]),
     (''Embarked'', [(''S'', 5), (''C'', 6), (''Q'', 7)]),
     (''Age'', [(''kid'', 8), (''young'', 9), (''adult'', 10), (''old'', 11)]),
     (''Family'', [(''alone'', 12), (''small'', 13), (''medium'', 14), (''big'', 15)]),
     (''Pclass'', [(''1'', 16), (''2'', 17), (''3'', 18)]),
     (''Sex'', [(''male'', 19), (''female'', 20)])]"

text \<open>The loop \<open>for k, v in vocabs.items(): x[v[d[k]]] = 1.\<close>\<close>

fun encode_items :: "(string \<times> (string \<times> nat) list) list \<Rightarrow> row \<Rightarrow> vec \<Rightarrow> vec result" where
  "encode_items [] d x = Inr x"
| "encode_items ((k, v) # items) d x =
     ebind (py_getitem d k) (\<lambda>dk.
     ebind (py_getitem v dk) (\<lambda>idx.
     ebind (np_setitem x idx 1) (\<lambda>x'.
     encode_items items d x')))"

definition encode :: "row \<Rightarrow> vec result" where
  "encode d =
     ebind (np_setitem (np_zeros N10) 0 1) (\<lambda>x.
     encode_items vocabs d x)"

text \<open>\<open>float(d["Survived"])\<close>.\<close>

definition target_of :: "row \<Rightarrow> real result" where
  "target_of d = ebind (py_getitem d ''Survived'') py_float"

text \<open>The accuracy update with the decision threshold 0.5.\<close>

definition count_correct :: "real \<Rightarrow> real \<Rightarrow> real \<Rightarrow> real" where
  "count_correct acc y t =
     (if y > 1 / 2 \<and> t = 1 then acc + 1
      else if y \<le> 1 / 2 \<and> t = 0 then acc + 1
      else acc)"

text \<open>
  The inner loop \<open>for d in data\<close> of one epoch, threading the running loss
  \<open>l\<close>, the module variable \<open>dw\<close> (\<open>None\<close> until first assigned) and the
  accuracy; \<open>n\<close> is \<open>len(data)\<close>.
\<close>

fun batch_loop :: "nat \<Rightarrow> vec \<Rightarrow> row list \<Rightarrow> real \<times> vec option \<times> real \<Rightarrow>
    (real \<times> vec option \<times> real) result" where
  "batch_loop n w [] acc = Inr acc"
| "batch_loop n w (d # ds) (l, dw, acc) =
     ebind (encode d) (\<lambda>x.
     ebind (np_mul x w) (\<lambda>xw.
     (let y = py_sum xw in
      ebind (target_of d) (\<lambda>t.
      (let l' = l + (y - t) ^ 2 / real n;
           dw' = np_divs (np_smul (2 * (y - t)) x) (real n);
           acc' = count_correct acc y t
       in batch_loop n w ds (l', Some dw', acc'))))))"

record titanic_state =
  ts_data :: "row list"
  ts_w :: vec
  ts_step :: real
  ts_dw :: "vec option"
  ts_losses :: "real list"
  ts_l :: real
  ts_accuracy :: real
  ts_i :: nat

definition titanic_init :: "row list \<Rightarrow> titanic_state" where
  "titanic_init data =
     \<lparr>ts_data = data, ts_w = np_zeros N10, ts_step = STEP10, ts_dw = None,
      ts_losses = [], ts_l = 0, ts_accuracy = 0, ts_i = 0\<rparr>"

text \<open>
  One epoch \<open>i\<close> of \<open>for i in xrange(4000)\<close>: shuffle, schedule, inner loop,
  \<open>w += STEP * dw * -1\<close> with the last \<open>dw\<close> assigned (a \<open>NameError\<close> if none
  ever was), then the plateau detector. The flag is \<open>True\<close> when the loop
  breaks.
\<close>

definition titanic_epoch :: "shuffler \<Rightarrow> nat \<Rightarrow> titanic_state \<Rightarrow> (titanic_state \<times> bool) result" where
  "titanic_epoch sh i s =
     (let data = sh i (ts_data s);
          step = (if i = 1000 then ts_step s / 2 else if i = 2000 then 1 / 10000 else ts_step s)
      in ebind (batch_loop (length data) (ts_w s) data (0, ts_dw s, 0)) (\<lambda>(l, dw, acc).
         case dw of
           None \<Rightarrow> Inl (NameError ''dw'')
         | Some g \<Rightarrow>
             ebind (np_iadd (ts_w s) (np_muls (np_smul step g) (-1))) (\<lambda>w.
             (let losses = ts_losses s @ [l];
                  s' = s\<lparr>ts_data := data, ts_w := w, ts_step := step, ts_dw := Some g,
                         ts_l := l, ts_accuracy := acc, ts_i := i\<rparr>
              in if length losses = 5
                 then Inr (s'\<lparr>ts_losses := []\<rparr>, np_allclose (np_diff losses) 0)
                 else Inr (s'\<lparr>ts_losses := losses\<rparr>, False)))))"

fun titanic_loop :: "shuffler \<Rightarrow> nat list \<Rightarrow> titanic_state \<Rightarrow> titanic_state result" where
  "titanic_loop sh [] s = Inr s"
| "titanic_loop sh (i # ixs) s =
     ebind (titanic_epoch sh i s) (\<lambda>(s', stop). if stop then Inr s' else titanic_loop sh ixs s')"

text \<open>The validation loop: the same prediction and accuracy count, no update.\<close>

fun validation_count :: "vec \<Rightarrow> row list \<Rightarrow> real \<Rightarrow> real result" where
  "validation_count w [] acc = Inr acc"
| "validation_count w (d # ds) acc =
     ebind (encode d) (\<lambda>x.
     ebind (np_mul x w) (\<lambda>xw.
     ebind (target_of d) (\<lambda>t.
     validation_count w ds (count_correct acc (py_sum xw) t))))"

text \<open>
  After training: the training accuracy in percent of the last epoch, then
  the validation accuracy in percent on the held-out rows.
\<close>

definition titanic_report :: "titanic_state \<Rightarrow> row list \<Rightarrow> (real \<times> real) result" where
  "titanic_report s validation =
     ebind (py_div (ts_accuracy s) (length (ts_data s))) (\<lambda>train.
     ebind (validation_count (ts_w s) validation 0) (\<lambda>vacc.
     ebind (py_div vacc (length validation)) (\<lambda>valid.
     Inr (train * 100, valid * 100))))"

definition titanic_main :: "shuffler \<Rightarrow> row list \<Rightarrow> (vec \<times> real \<times> real) result" where
  "titanic_main sh rows =
     (let data = take 595 rows; validation = drop 595 rows in
      ebind (titanic_loop sh [0..<4000] (titanic_init data)) (\<lambda>s.
      ebind (titanic_report s validation) (\<lambda>(train, valid).
      Inr (ts_w s, train, valid))))"

text \<open>Two rows of the passenger list, used by the examples below.\<close>

definition passenger_died :: row where
  "passenger_died =
     [(''Fare'', ''low''), (''Embarked'', ''S''), (''Age'', ''adult''), (''Family'', ''alone''),
      (''Pclass'', ''3''), (''Sex'', ''male''), (''Survived'', ''0'')]"

definition passenger_survived :: row where
  "passenger_survived =
     [(''Fare'', ''high''), (''Embarked'', ''C''), (''Age'', ''young''), (''Family'', ''small''),
      (''Pclass'', ''1''), (''Sex'', ''female''), (''Survived'', ''1'')]"

text \<open>Specification-side notions for the encoder.\<close>

definition item_ok :: "row \<Rightarrow> string \<times> (string \<times> nat) list \<Rightarrow> bool" where
  "item_ok d kv = (case kv of (k, v) \<Rightarrow>
     (case map_of d k of None \<Rightarrow> False | Some dk \<Rightarrow> map_of v dk \<noteq> None))"

definition row_ok :: "row \<Rightarrow> bool" where
  "row_ok d = list_all (item_ok d) vocabs"

definition selected :: "(string \<times> (string \<times> nat) list) list \<Rightarrow> row \<Rightarrow> nat list" where
  "selected items d = map (\<lambda>(k, v). the (map_of v (the (map_of d k)))) items"

definition vocab_indices :: "(string \<times> (string \<times> nat) list) list \<Rightarrow> nat list" where
  "vocab_indices items = concat (map (\<lambda>(k, v). map snd v) items)"

text \<open>The learning rate the schedule gives epoch \<open>i\<close>.\<close>

definition lr_schedule :: "nat \<Rightarrow> real" where
  "lr_schedule i = (if i < 1000 then 16 / 5 else if i < 2000 then 8 / 5 else 1 / 10000)"

text \<open>
  What holds before epoch \<open>j\<close>: the plateau window holds \<open>j mod 5\<close> losses and
  \<open>STEP\<close> is the rate of the previous epoch.
\<close>

definition loop_inv :: "nat \<Rightarrow> titanic_state \<Rightarrow> bool" where
  "loop_inv j s \<longleftrightarrow>
     length (ts_losses s) = j mod 5 \<and> ts_step s = (if j = 0 then 16 / 5 else lr_schedule (j - 1))"

definition onehot :: "nat list \<Rightarrow> nat \<Rightarrow> vec" where
  "onehot idxs n = map (\<lambda>j. if j \<in> set idxs then 1 else 0) [0..<n]"

subsection \<open>The encoder\<close>

lemma fold_set_one:
  "\<forall>i \<in> set ixs. i < length x \<Longrightarrow>
   fold (\<lambda>i x. x[i := 1]) ixs x = map (\<lambda>j. if j \<in> set ixs then 1 else x ! j) [0..<length x]"
proof (induction ixs arbitrary: x)
  case Nil
  then show ?case by (simp add: map_nth)
next
  case (Cons i ixs)
  then have "fold (\<lambda>i x. x[i := 1]) ixs (x[i := 1]) =
        map (\<lambda>j. if j \<in> set ixs then 1 else x[i := 1] ! j) [0..<length x]"
    by simp
  then show ?case by (auto simp: nth_list_update intro!: map_cong)
qed

lemma item_ok_index:
  "item_ok d (k, v) \<Longrightarrow> the (map_of v (the (map_of d k))) \<in> set (map snd v)"
  by (auto simp: item_ok_def split: option.splits dest: map_of_SomeD intro: rev_image_eqI)

lemma encode_items_ok:
  assumes "list_all (item_ok d) items" "\<forall>i \<in> set (vocab_indices items). i < length x"
  shows "encode_items items d x = Inr (fold (\<lambda>i x. x[i := 1]) (selected items d) x)"
  using assms
proof (induction items arbitrary: x)
  case Nil
  then show ?case by (simp add: selected_def)
next
  case (Cons kv items)
  obtain k v where kv: "kv = (k, v)" by fastforce
  with Cons.prems obtain dk i where dk: "map_of d k = Some dk" and i: "map_of v dk = Some i"
    by (auto simp: item_ok_def split: option.splits)
  then have "i \<in> set (map snd v)"
    by (auto dest: map_of_SomeD intro: rev_image_eqI)
  with Cons.prems kv have "i < length x" by (auto simp: vocab_indices_def)
  moreover from Cons.prems kv have "encode_items items d (x[i := 1]) =
      Inr (fold (\<lambda>i x. x[i := 1]) (selected items d) (x[i := 1]))"
    by (intro Cons.IH) (auto simp: vocab_indices_def)
  ultimately show ?case
    using kv dk i by (simp add: py_getitem_def selected_def)
qed

lemma encode_items_error:
  assumes "\<forall>i \<in> set (vocab_indices items). i < length x" "encode_items items d x = Inl e"
  shows "\<exists>k. e = KeyError k"
  using assms
proof (induction items arbitrary: x)
  case Nil
  then show ?case by simp
next
  case (Cons kv items)
  obtain k v where kv: "kv = (k, v)" by fastforce
  show ?case
  proof (cases "map_of d k")
    case None
    with Cons.prems kv show ?thesis by (auto simp: py_getitem_def)
  next
    case (Some dk)
    show ?thesis
    proof (cases "map_of v dk")
      case None
      with Some Cons.prems kv show ?thesis by (auto simp: py_getitem_def)
    next
      case (Some i)
      then have "i \<in> set (map snd v)"
        by (auto dest: map_of_SomeD intro: rev_image_eqI)
      with Cons.prems kv have "i < length x" by (auto simp: vocab_indices_def)
      with Cons.prems kv Some \<open>map_of d k = Some dk\<close> show ?thesis
        by (intro Cons.IH [of "x[i := 1]"]) (auto simp: vocab_indices_def py_getitem_def)
    qed
  qed
qed

lemma encode_items_fails:
  assumes "\<not> list_all (item_ok d) items" "\<forall>i \<in> set (vocab_indices items). i < length x"
  shows "\<exists>e. encode_items items d x = Inl e"
  using assms
proof (induction items arbitrary: x)
  case Nil
  then show ?case by simp
next
  case (Cons kv items)
  obtain k v where kv: "kv = (k, v)" by fastforce
  show ?case
  proof (cases "item_ok d kv")
    case False
    with kv show ?thesis
      by (auto simp: item_ok_def py_getitem_def split: option.splits)
  next
    case True
    with kv obtain dk i where dk: "map_of d k = Some dk" and i: "map_of v dk = Some i"
      by (auto simp: item_ok_def split: option.splits)
    then have "i \<in> set (map snd v)"
      by (auto dest: map_of_SomeD intro: rev_image_eqI)
    with Cons.prems kv have "i < length x" by (auto simp: vocab_indices_def)
    with Cons.prems True kv dk i show ?thesis
      by (simp add: py_getitem_def) (intro Cons.IH, auto simp: vocab_indices_def)
  qed
qed

lemma selected_in_indices:
  "list_all (item_ok d) items \<Longrightarrow> set (selected items d) \<subseteq> set (vocab_indices items)"
  by (induction items) (auto simp: selected_def vocab_indices_def dest: item_ok_index)

lemma selected_distinct:
  "list_all (item_ok d) items \<Longrightarrow> distinct (vocab_indices items) \<Longrightarrow> distinct (selected items d)"
proof (induction items)
  case Nil
  then show ?case by (simp add: selected_def)
next
  case (Cons kv items)
  obtain k v where kv: "kv = (k, v)" by fastforce
  with Cons.prems have "the (map_of v (the (map_of d k))) \<in> set (map snd v)"
    using item_ok_index [of d k v] by simp
  moreover have "set (selected items d) \<subseteq> set (vocab_indices items)"
    using Cons.prems by (simp add: selected_in_indices)
  moreover from Cons.prems kv have "set (map snd v) \<inter> set (vocab_indices items) = {}"
    "distinct (vocab_indices items)"
    by (simp_all add: vocab_indices_def)
  ultimately have "the (map_of v (the (map_of d k))) \<notin> set (selected items d)"
    by blast
  moreover have "distinct (selected items d)"
    using Cons.IH Cons.prems \<open>distinct (vocab_indices items)\<close> by simp
  ultimately show ?case
    using kv by (simp add: selected_def)
qed

lemma vocabs_indices: "distinct (0 # vocab_indices vocabs)" "\<forall>i \<in> set (vocab_indices vocabs). i < N10"
  by (simp_all add: vocabs_def vocab_indices_def N10_def)

lemma encode_onehot:
  assumes "row_ok d"
  shows "encode d = Inr (onehot (0 # selected vocabs d) N10)"
proof -
  let ?x = "(np_zeros N10)[0 := 1]"
  have len: "length ?x = N10" by simp
  have sel: "set (selected vocabs d) \<subseteq> set (vocab_indices vocabs)"
    using assms by (simp add: row_ok_def selected_in_indices)
  have "encode d = Inr (fold (\<lambda>i x. x[i := 1]) (selected vocabs d) ?x)"
    using assms vocabs_indices(2) by (simp add: encode_def row_ok_def N10_def encode_items_ok)
  also have "fold (\<lambda>i x. x[i := 1]) (selected vocabs d) ?x =
      map (\<lambda>j. if j \<in> set (selected vocabs d) then 1 else ?x ! j) [0..<N10]"
    using sel vocabs_indices(2) len by (subst fold_set_one) auto
  also have "\<dots> = onehot (0 # selected vocabs d) N10"
    by (auto simp: onehot_def np_zeros_def nth_list_update intro!: map_cong)
  finally show ?thesis .
qed

lemma encode_items_length: "encode_items items d x = Inr x' \<Longrightarrow> length x' = length x"
proof (induction items arbitrary: x)
  case Nil
  then show ?case by simp
next
  case (Cons kv items)
  then show ?case
    by (cases kv) (fastforce simp: ebind_eq_Inr_iff np_setitem_def split: if_splits)
qed

lemma encode_length: "encode d = Inr x \<Longrightarrow> length x = N10"
  by (auto simp: encode_def ebind_eq_Inr_iff np_setitem_def N10_def split: if_splits
      dest!: encode_items_length)

subsection \<open>One epoch\<close>

lemma batch_loop_append:
  "batch_loop n w (ds @ ds') acc = ebind (batch_loop n w ds acc) (batch_loop n w ds')"
proof (induction ds arbitrary: acc)
  case Nil
  then show ?case by simp
next
  case (Cons d ds)
  obtain l dw a where "acc = (l, dw, a)" by (cases acc) auto
  with Cons show ?case
    by (simp add: Let_def ebind_def split: sum.split)
qed

lemma batch_loop_single:
  assumes "encode d = Inr x" "length x = length w" "target_of d = Inr t"
  shows "batch_loop n w [d] (l, dw, acc) =
         Inr (l + (dot x w - t)\<^sup>2 / real n,
              Some (np_divs (np_smul (2 * (dot x w - t)) x) (real n)),
              count_correct acc (dot x w) t)"
  using assms by (simp add: Let_def)

lemma count_correct_bounds: "acc \<le> count_correct acc y t \<and> count_correct acc y t \<le> acc + 1"
  by (simp add: count_correct_def)

lemma batch_loop_bounds:
  assumes "batch_loop n w ds (l, dw, acc) = Inr (l', dw', acc')"
  shows "l \<le> l' \<and> acc \<le> acc' \<and> acc' \<le> acc + length ds \<and>
         (ds = [] \<longrightarrow> dw' = dw) \<and> (ds \<noteq> [] \<longrightarrow> dw' \<noteq> None)"
  using assms
proof (induction ds arbitrary: l dw acc)
  case Nil
  then show ?case by simp
next
  case (Cons d ds)
  from Cons.prems obtain x xw t where
    x: "encode d = Inr x" and xw: "np_mul x w = Inr xw" and t: "target_of d = Inr t" and
    rest: "batch_loop n w ds (l + (py_sum xw - t)\<^sup>2 / real n,
             Some (np_divs (np_smul (2 * (py_sum xw - t)) x) (real n)),
             count_correct acc (py_sum xw) t) = Inr (l', dw', acc')"
    by (auto simp: ebind_eq_Inr_iff Let_def)
  have nn: "0 \<le> (py_sum xw - t)\<^sup>2 / real n" by simp
  note IH = Cons.IH [OF rest]
  then have "l \<le> l'" using nn by linarith
  with IH count_correct_bounds [of acc "py_sum xw" t]
  show ?case by (cases ds) auto
qed

lemma titanic_epoch_Inr:
  assumes "titanic_epoch sh i s = Inr (s', stop)"
  obtains l g acc w' where
    "batch_loop (length (sh i (ts_data s))) (ts_w s) (sh i (ts_data s)) (0, ts_dw s, 0) = Inr (l, Some g, acc)"
    "np_iadd (ts_w s) (np_muls (np_smul (ts_step s') g) (-1)) = Inr w'"
    "ts_w s' = w'" "ts_data s' = sh i (ts_data s)" "ts_dw s' = Some g" "ts_l s' = l"
    "ts_accuracy s' = acc" "ts_i s' = i"
    "ts_step s' = (if i = 1000 then ts_step s / 2 else if i = 2000 then 1 / 10000 else ts_step s)"
    "if length (ts_losses s) = 4 then ts_losses s' = [] \<and> stop = np_allclose (np_diff (ts_losses s @ [l])) 0
     else ts_losses s' = ts_losses s @ [l] \<and> \<not> stop"
proof -
  from assms obtain l dw acc where
    b: "batch_loop (length (sh i (ts_data s))) (ts_w s) (sh i (ts_data s)) (0, ts_dw s, 0) = Inr (l, dw, acc)"
    and rest: "(case dw of None \<Rightarrow> Inl (NameError ''dw'')
       | Some g \<Rightarrow> ebind (np_iadd (ts_w s) (np_muls (np_smul
            (if i = 1000 then ts_step s / 2 else if i = 2000 then 1 / 10000 else ts_step s) g) (-1)))
          (\<lambda>w. let losses = ts_losses s @ [l];
                  s' = s\<lparr>ts_data := sh i (ts_data s), ts_w := w,
                    ts_step := (if i = 1000 then ts_step s / 2 else if i = 2000 then 1 / 10000 else ts_step s),
                    ts_dw := Some g, ts_l := l, ts_accuracy := acc, ts_i := i\<rparr>
              in if length losses = 5 then Inr (s'\<lparr>ts_losses := []\<rparr>, np_allclose (np_diff losses) 0)
                 else Inr (s'\<lparr>ts_losses := losses\<rparr>, False))) = Inr (s', stop)"
    by (auto simp: titanic_epoch_def Let_def ebind_eq_Inr_iff)
  from rest obtain g w' where dw: "dw = Some g" and
    w': "np_iadd (ts_w s) (np_muls (np_smul
            (if i = 1000 then ts_step s / 2 else if i = 2000 then 1 / 10000 else ts_step s) g) (-1)) = Inr w'"
    by (auto simp: ebind_eq_Inr_iff split: option.splits)
  with rest show ?thesis
    using that b by (auto simp: Let_def split: if_splits)
qed

subsection \<open>The epoch loop\<close>

lemma schedule_step:
  "(if i = 1000 then st / 2 else if i = 2000 then 1 / 10000 else st) = lr_schedule i"
  if "st = (if i = 0 then 16 / 5 else lr_schedule (i - 1))"
  using that by (auto simp: lr_schedule_def)

lemma titanic_epoch_inv:
  assumes "loop_inv i s" "titanic_epoch sh i s = Inr (s', stop)"
  shows "ts_i s' = i \<and> ts_step s' = lr_schedule i \<and> loop_inv (Suc i) s' \<and> (stop \<longrightarrow> Suc i mod 5 = 0)"
proof -
  obtain l g acc w' where
    e: "ts_i s' = i"
       "ts_step s' = (if i = 1000 then ts_step s / 2 else if i = 2000 then 1 / 10000 else ts_step s)"
       "if length (ts_losses s) = 4 then ts_losses s' = [] \<and> stop = np_allclose (np_diff (ts_losses s @ [l])) 0
        else ts_losses s' = ts_losses s @ [l] \<and> \<not> stop"
    using titanic_epoch_Inr [OF assms(2)] by metis
  from assms(1) have st: "ts_step s' = lr_schedule i"
    using e(2) schedule_step [of "ts_step s" i] by (simp add: loop_inv_def)
  have len: "length (ts_losses s) = i mod 5" using assms(1) by (simp add: loop_inv_def)
  show ?thesis
  proof (cases "length (ts_losses s) = 4")
    case True
    with len have "Suc i mod 5 = 0" by presburger
    with True e st show ?thesis by (simp add: loop_inv_def)
  next
    case False
    with len have "Suc i mod 5 = Suc (length (ts_losses s))" by presburger
    with False e st show ?thesis by (simp add: loop_inv_def)
  qed
qed

lemma titanic_loop_upt:
  "j < m \<Longrightarrow> titanic_loop sh [j..<m] s =
   ebind (titanic_epoch sh j s) (\<lambda>(s', stop). if stop then Inr s' else titanic_loop sh [Suc j..<m] s')"
  by (simp add: upt_conv_Cons)

lemma titanic_loop_inv:
  assumes "titanic_loop sh [j..<m] s = Inr s'" "loop_inv j s" "j < m"
  shows "j \<le> ts_i s' \<and> ts_i s' < m \<and> ts_step s' = lr_schedule (ts_i s') \<and>
         length (ts_losses s') = Suc (ts_i s') mod 5 \<and> (Suc (ts_i s') = m \<or> Suc (ts_i s') mod 5 = 0)"
  using assms
proof (induction "m - j" arbitrary: j s)
  case 0
  then show ?case by simp
next
  case (Suc k)
  from Suc.prems obtain s1 stop where
    ep: "titanic_epoch sh j s = Inr (s1, stop)" and
    rest: "(if stop then Inr s1 else titanic_loop sh [Suc j..<m] s1) = Inr s'"
    using titanic_loop_upt [OF Suc.prems(3), of sh s]
    by (auto simp: ebind_eq_Inr_iff simp del: titanic_loop.simps split: prod.splits)
  have inv1: "ts_i s1 = j" "ts_step s1 = lr_schedule j" "loop_inv (Suc j) s1" "stop \<longrightarrow> Suc j mod 5 = 0"
    using titanic_epoch_inv [OF Suc.prems(2) ep] by simp_all
  show ?case
  proof (cases "stop \<or> Suc j = m")
    case True
    with rest have "s' = s1" by (auto split: if_splits)
    with inv1 True Suc.prems(3) show ?thesis by (auto simp: loop_inv_def)
  next
    case False
    with rest have "titanic_loop sh [Suc j..<m] s1 = Inr s'" by simp
    moreover have "k = m - Suc j" "Suc j < m" using Suc.hyps Suc.prems(3) False by auto
    ultimately have "Suc j \<le> ts_i s' \<and> ts_i s' < m \<and> ts_step s' = lr_schedule (ts_i s') \<and>
        length (ts_losses s') = Suc (ts_i s') mod 5 \<and> (Suc (ts_i s') = m \<or> Suc (ts_i s') mod 5 = 0)"
      using Suc.hyps(1) [of "Suc j" s1] inv1(3) by simp
    then show ?thesis by simp
  qed
qed

lemma loop_inv_init: "loop_inv 0 (titanic_init data)"
  by (simp add: loop_inv_def titanic_init_def STEP10_def)

lemma sum_onehot:
  assumes "distinct idxs" "\<forall>i \<in> set idxs. i < n"
  shows "sum_list (onehot idxs n) = real (length idxs)"
proof -
  have "sum_list (onehot idxs n) = (\<Sum>j \<in> {0..<n}. if j \<in> set idxs then 1 else 0)"
    by (simp add: onehot_def sum_set_upt_conv_sum_list_nat [symmetric])
  also have "\<dots> = real (card ({0..<n} \<inter> set idxs))"
    by (simp add: sum.If_cases Int_def)
  also have "{0..<n} \<inter> set idxs = set idxs" using assms(2) by auto
  finally show ?thesis using assms(1) by (simp add: distinct_card)
qed

lemma validation_count_bounds:
  "validation_count w ds acc = Inr c \<Longrightarrow> acc \<le> c \<and> c \<le> acc + real (length ds)"
proof (induction ds arbitrary: acc)
  case Nil
  then show ?case by simp
next
  case (Cons d ds)
  then obtain x xw t where
    "validation_count w ds (count_correct acc (py_sum xw) t) = Inr c"
    by (auto simp: ebind_eq_Inr_iff)
  with Cons.IH count_correct_bounds [of acc "py_sum xw" t] show ?case by fastforce
qed

lemma encode_passenger_died:
  "encode passenger_died = Inr [1, 0, 1, 0, 0, 1, 0, 0, 0, 0, 1, 0, 1, 0, 0, 0, 0, 0, 1, 1, 0]"
  by (simp add: passenger_died_def encode_def vocabs_def N10_def np_zeros_def py_getitem_def numeral_eq_Suc)

lemma encode_passenger_survived:
  "encode passenger_survived = Inr [1, 0, 0, 0, 1, 0, 1, 0, 0, 1, 0, 0, 0, 1, 0, 0, 1, 0, 0, 0, 1]"
  by (simp add: passenger_survived_def encode_def vocabs_def N10_def np_zeros_def py_getitem_def numeral_eq_Suc)

lemma target_passengers: "target_of passenger_died = Inr 0" "target_of passenger_survived = Inr 1"
  by (simp_all add: passenger_died_def passenger_survived_def target_of_def py_getitem_def)

lemmas epoch_eval_simps = titanic_epoch_def titanic_init_def encode_passenger_died
  encode_passenger_survived target_passengers N10_def np_zeros_def count_correct_def Let_def
  np_smul_def np_muls_def np_divs_def numeral_eq_Suc STEP10_def np_diff_def np_allclose_def

lemma epoch_last_row_update:
  assumes "titanic_epoch sh i s = Inr (s', stop)" "sh i (ts_data s) = ds @ [d]"
    and "encode d = Inr x" "target_of d = Inr t" "length x = length (ts_w s)"
  shows "ts_w s' = map2 (\<lambda>wi xi. wi - ts_step s' * (2 * (dot x (ts_w s) - t) * xi / real (Suc (length ds))))
                    (ts_w s) x"
proof -
  let ?n = "length (ds @ [d])"
  obtain l g acc w' where
    b: "batch_loop ?n (ts_w s) (ds @ [d]) (0, ts_dw s, 0) = Inr (l, Some g, acc)" and
    w': "np_iadd (ts_w s) (np_muls (np_smul (ts_step s') g) (-1)) = Inr w'" and
    ws: "ts_w s' = w'"
    using titanic_epoch_Inr [OF assms(1)] assms(2) by metis
  from b obtain l0 dw0 acc0 where
    bl: "batch_loop ?n (ts_w s) [d] (l0, dw0, acc0) = Inr (l, Some g, acc)"
    by (auto simp: batch_loop_append ebind_eq_Inr_iff simp del: batch_loop.simps)
  have one: "batch_loop ?n (ts_w s) [d] (l0, dw0, acc0) =
      Inr (l0 + (dot x (ts_w s) - t)\<^sup>2 / real ?n,
           Some (np_divs (np_smul (2 * (dot x (ts_w s) - t)) x) (real ?n)),
           count_correct acc0 (dot x (ts_w s)) t)"
    by (rule batch_loop_single [OF assms(3,5,4)])
  from bl one have g: "g = np_divs (np_smul (2 * (dot x (ts_w s) - t)) x) (real ?n)"
    by (simp del: batch_loop.simps)
  from w' assms(5) have "w' = map2 (+) (ts_w s) (np_muls (np_smul (ts_step s') g) (-1))"
    by (simp add: g)
  then show ?thesis
    by (simp add: ws g np_muls_def np_smul_def np_divs_def map2_map_right algebra_simps)
qed

lemma epoch_last_row_target:
  assumes "titanic_epoch sh i s = Inr (s', stop)" "sh i (ts_data s) = ds @ [d]"
  shows "\<exists>x t. encode d = Inr x \<and> target_of d = Inr t"
proof -
  obtain l g acc where
    b: "batch_loop (length (ds @ [d])) (ts_w s) (ds @ [d]) (0, ts_dw s, 0) = Inr (l, Some g, acc)"
    using titanic_epoch_Inr [OF assms(1)] assms(2) by metis
  then obtain l0 dw0 acc0 where
    "batch_loop (length (ds @ [d])) (ts_w s) [d] (l0, dw0, acc0) = Inr (l, Some g, acc)"
    by (auto simp: batch_loop_append ebind_eq_Inr_iff simp del: batch_loop.simps)
  then show ?thesis by (auto simp: ebind_eq_Inr_iff Let_def)
qed

subsection \<open>Properties\<close>

text \<open>
  C14. \<open>encode\<close> refines one-hot encoding: on a row whose six categorical
  columns are present with known values it returns the 21-entry vector with
  1 at the bias index 0 and at the vocabulary index of each column's value,
  0 elsewhere.
\<close>

theorem encode_refines_onehot:
  assumes "row_ok d"
  shows "encode d = Inr (onehot (0 # selected vocabs d) 21)"
  using encode_onehot [OF assms] by (simp add: N10_def)

theorem encode_refines_onehot_witness:
  "encode passenger_died = Inr (onehot [0, 2, 5, 10, 12, 18, 19] 21)"
proof -
  have "row_ok passenger_died"
    by (simp add: row_ok_def item_ok_def vocabs_def passenger_died_def)
  from encode_refines_onehot [OF this] show ?thesis
    by (simp add: selected_def vocabs_def passenger_died_def)
qed

text \<open>
  The shape invariant of the encoded features: 21 entries, the bias
  entry 1, every entry 0 or 1, and exactly seven ones (the bias and one per
  categorical column, the vocabulary indices being pairwise distinct).
\<close>

lemma encode_shape:
  assumes "row_ok d"
  shows "\<exists>x. encode d = Inr x \<and> length x = 21 \<and> x ! 0 = 1 \<and> set x \<subseteq> {0, 1} \<and> sum_list x = 7"
proof -
  let ?idx = "0 # selected vocabs d"
  have sub: "set (selected vocabs d) \<subseteq> set (vocab_indices vocabs)"
    using assms by (simp add: row_ok_def selected_in_indices)
  have "distinct (selected vocabs d)"
    using assms vocabs_indices(1) by (simp add: row_ok_def selected_distinct)
  moreover have "0 \<notin> set (selected vocabs d)"
    using sub vocabs_indices(1) by auto
  ultimately have dist: "distinct ?idx" by simp
  have range: "\<forall>i \<in> set ?idx. i < 21"
    using sub vocabs_indices(2) by (auto simp: N10_def)
  have "length ?idx = 7" by (simp add: selected_def vocabs_def)
  then have "sum_list (onehot ?idx 21) = 7"
    using sum_onehot [OF dist range] by simp
  moreover have "set (onehot ?idx 21) \<subseteq> {0, 1}" by (auto simp: onehot_def)
  ultimately show ?thesis
    using encode_onehot [OF assms] by (simp add: N10_def onehot_def)
qed

text \<open>
  C16. Error behaviour of \<open>encode\<close>: it succeeds exactly on rows with all six
  categorical columns present and known, and its only failure is a
  \<open>KeyError\<close> (a missing column or an unknown category value).
\<close>

theorem encode_errors:
  "((\<exists>x. encode d = Inr x) \<longleftrightarrow> row_ok d) \<and> (encode d = Inl e \<longrightarrow> (\<exists>k. e = KeyError k))"
proof -
  let ?x = "(np_zeros N10)[0 := 1]"
  have r: "\<forall>i \<in> set (vocab_indices vocabs). i < length ?x"
    using vocabs_indices(2) by simp
  have enc: "encode d = encode_items vocabs d ?x" by (simp add: encode_def N10_def)
  have "(\<exists>x. encode d = Inr x) \<longleftrightarrow> row_ok d"
  proof
    assume ok: "\<exists>x. encode d = Inr x"
    show "row_ok d"
    proof (rule ccontr)
      assume "\<not> row_ok d"
      then obtain e' where "encode_items vocabs d ?x = Inl e'"
        using encode_items_fails [OF _ r, of d] by (auto simp: row_ok_def)
      with ok enc show False by simp
    qed
  next
    assume "row_ok d"
    then show "\<exists>x. encode d = Inr x" using encode_onehot by blast
  qed
  moreover have "encode d = Inl e \<longrightarrow> (\<exists>k. e = KeyError k)"
    using encode_items_error [OF r, of d e] enc by simp
  ultimately show ?thesis by blast
qed

theorem encode_errors_witness:
  "\<not> row_ok [(''Fare'', ''free'')] \<and> (\<exists>k. KeyError ''free'' = KeyError k)"
proof -
  have e: "encode [(''Fare'', ''free'')] = Inl (KeyError ''free'')"
    by (simp add: encode_def vocabs_def N10_def np_zeros_def py_getitem_def)
  from encode_errors [of "[(''Fare'', ''free'')]" "KeyError ''free''"] e show ?thesis
    by auto
qed

text \<open>
  C17. The order in which Python 2 iterates \<open>vocabs.items()\<close> is unspecified;
  for a valid row every iteration order yields the same encoding.
\<close>

theorem encode_order_independent:
  assumes "row_ok d" "mset items = mset vocabs"
  shows "encode_items items d ((np_zeros N10)[0 := 1]) = encode d"
proof -
  let ?x = "(np_zeros N10)[0 := 1]"
  have set_eq: "set items = set vocabs" using assms(2) by (metis set_mset_mset)
  have ok: "list_all (item_ok d) items"
    using assms(1) set_eq by (simp add: row_ok_def list_all_iff)
  have vi: "set (vocab_indices items) = set (vocab_indices vocabs)"
    using set_eq by (simp add: vocab_indices_def)
  have sel: "set (selected items d) = set (selected vocabs d)"
    using set_eq by (simp add: selected_def)
  have r1: "\<forall>i \<in> set (selected items d). i < length ?x"
    using selected_in_indices [OF ok] vi vocabs_indices(2) by auto
  have r2: "\<forall>i \<in> set (selected vocabs d). i < length ?x"
    using sel r1 by simp
  have "encode_items items d ?x = Inr (fold (\<lambda>i x. x[i := 1]) (selected items d) ?x)"
    using ok vi vocabs_indices(2) by (intro encode_items_ok) auto
  also have "\<dots> = Inr (fold (\<lambda>i x. x[i := 1]) (selected vocabs d) ?x)"
    using fold_set_one [OF r1] fold_set_one [OF r2] sel by simp
  also have "\<dots> = encode d"
    using assms(1) vocabs_indices(2) by (simp add: encode_def row_ok_def N10_def encode_items_ok)
  finally show ?thesis .
qed

theorem encode_order_independent_witness:
  "encode_items (rev vocabs) passenger_died ((np_zeros N10)[0 := 1]) = encode passenger_died"
proof -
  have "row_ok passenger_died"
    by (simp add: row_ok_def item_ok_def vocabs_def passenger_died_def)
  then show ?thesis
    using encode_order_independent [of passenger_died "rev vocabs"] by simp
qed

text \<open>
  C18. The epoch update uses the gradient of the last sample only: the
  module variable \<open>dw\<close> is overwritten, not accumulated, in the inner loop,
  so after an epoch over \<open>ds @ [d]\<close> the weights are
  \<open>w - STEP \<cdot> 2 (y - t) x / len(data)\<close> for the last row \<open>d\<close> alone, not the
  averaged batch gradient.
\<close>

theorem epoch_uses_last_sample_gradient:
  assumes "titanic_epoch sh i s = Inr (s', stop)" "sh i (ts_data s) = ds @ [d]"
    and "encode d = Inr x" "target_of d = Inr t" "length x = length (ts_w s)"
  shows "ts_w s' = map2 (\<lambda>wi xi. wi - ts_step s' * (2 * (dot x (ts_w s) - t) * xi / real (Suc (length ds))))
                    (ts_w s) x"
  by (rule epoch_last_row_update [OF assms])

theorem epoch_uses_last_sample_gradient_witness:
  "\<exists>s' stop. titanic_epoch (\<lambda>i xs. xs) 0 (titanic_init [passenger_died, passenger_survived]) = Inr (s', stop) \<and>
     ts_w s' = map2 (\<lambda>wi xi. wi - ts_step s' * (2 * (dot [1, 0, 0, 0, 1, 0, 1, 0, 0, 1, 0, 0, 0, 1, 0, 0, 1, 0, 0, 0, 1]
                (np_zeros 21) - 1) * xi / real (Suc (length [passenger_died]))))
       (np_zeros 21) [1, 0, 0, 0, 1, 0, 1, 0, 0, 1, 0, 0, 0, 1, 0, 0, 1, 0, 0, 0, 1]"
proof -
  have "\<exists>p. titanic_epoch (\<lambda>i xs. xs) 0 (titanic_init [passenger_died, passenger_survived]) = Inr p"
    by (simp add: epoch_eval_simps) blast
  then obtain s' stop where
    e: "titanic_epoch (\<lambda>i xs. xs) 0 (titanic_init [passenger_died, passenger_survived]) = Inr (s', stop)"
    by auto
  have "ts_w s' = map2 (\<lambda>wi xi. wi - ts_step s' * (2 * (dot [1, 0, 0, 0, 1, 0, 1, 0, 0, 1, 0, 0, 0, 1, 0, 0, 1, 0, 0, 0, 1]
                (np_zeros 21) - 1) * xi / real (Suc (length [passenger_died]))))
       (np_zeros 21) [1, 0, 0, 0, 1, 0, 1, 0, 0, 1, 0, 0, 0, 1, 0, 0, 1, 0, 0, 0, 1]"
    using epoch_uses_last_sample_gradient [OF e, of "[passenger_died]" passenger_survived]
    by (simp add: titanic_init_def N10_def encode_passenger_survived target_passengers)
  with e show ?thesis by blast
qed

text \<open>
  C19. With no training rows (and a shuffle that keeps the empty list
  empty), the first epoch never assigns \<open>dw\<close> and the update raises
  \<open>NameError\<close>: the script fails fast rather than reporting on nothing.
\<close>

theorem name_error_on_empty_data:
  assumes "\<forall>i. sh i [] = []"
  shows "titanic_main sh [] = Inl (NameError ''dw'')"
  using assms titanic_loop_upt [of 0 4000 sh "titanic_init []"]
  by (simp add: titanic_main_def titanic_epoch_def titanic_init_def)

theorem name_error_on_empty_data_witness:
  "titanic_main (\<lambda>i xs. xs) [] = Inl (NameError ''dw'')"
  using name_error_on_empty_data [of "\<lambda>i xs. xs"] by simp

text \<open>
  C20. The epoch loop, run from any epoch \<open>j\<close> whose state satisfies the loop
  invariant (the script runs it from \<open>j = 0\<close> and the initial state, see
  \<open>loop_inv_init\<close>), stops within the 4000 epochs; the last epoch used the
  scheduled rate (3.2 before epoch 1000, 1.6 before 2000, 0.0001 after);
  the plateau window then holds \<open>(i + 1) mod 5\<close> losses; and the loop ends
  either at the last epoch or at an epoch \<open>i\<close> with \<open>i mod 5 = 4\<close>, the only
  epochs at which the plateau detector can fire.
\<close>

theorem training_loop_invariant:
  assumes "titanic_loop sh [j..<4000] s = Inr s'" "loop_inv j s" "j < 4000"
  shows "ts_i s' < 4000 \<and> ts_step s' = lr_schedule (ts_i s') \<and>
         length (ts_losses s') = Suc (ts_i s') mod 5 \<and> (ts_i s' = 3999 \<or> ts_i s' mod 5 = 4)"
proof -
  have "ts_i s' < 4000 \<and> ts_step s' = lr_schedule (ts_i s') \<and>
        length (ts_losses s') = Suc (ts_i s') mod 5 \<and> (Suc (ts_i s') = 4000 \<or> Suc (ts_i s') mod 5 = 0)"
    using titanic_loop_inv [OF assms] by simp
  moreover have "Suc (ts_i s') mod 5 = 0 \<Longrightarrow> ts_i s' mod 5 = 4" by presburger
  ultimately show ?thesis by auto
qed

theorem training_loop_invariant_witness:
  "\<exists>s'. titanic_loop (\<lambda>i xs. xs) [3999..<4000]
          ((titanic_init [passenger_died])\<lparr>ts_step := 1 / 10000, ts_losses := [0, 0, 0, 0]\<rparr>) = Inr s' \<and>
        ts_i s' < 4000 \<and> ts_step s' = lr_schedule (ts_i s') \<and>
        length (ts_losses s') = Suc (ts_i s') mod 5 \<and> (ts_i s' = 3999 \<or> ts_i s' mod 5 = 4)"
proof -
  let ?s = "(titanic_init [passenger_died])\<lparr>ts_step := 1 / 10000, ts_losses := [0, 0, 0, 0]\<rparr>"
  have "\<exists>p. titanic_epoch (\<lambda>i xs. xs) 3999 ?s = Inr p"
    by (simp add: epoch_eval_simps) blast
  then obtain s1 stop where e: "titanic_epoch (\<lambda>i xs. xs) 3999 ?s = Inr (s1, stop)" by auto
  then have run: "titanic_loop (\<lambda>i xs. xs) [3999..<4000] ?s = Inr s1"
    by (simp add: upt_conv_Cons)
  have "loop_inv 3999 ?s" by (simp add: loop_inv_def lr_schedule_def)
  from training_loop_invariant [OF run this] run show ?thesis by simp
qed

text \<open>
  With an empty validation partition (a data file of at most 595
  rows) the final report divides by \<open>len(validation) = 0\<close> and raises
  \<open>ZeroDivisionError\<close>.
\<close>

lemma report_empty_validation: "titanic_report s [] = Inl ZeroDivisionError"
  by (cases "ts_data s = []") (simp_all add: titanic_report_def py_div_def)

text \<open>
  When the report succeeds, the validation accuracy it prints is a
  percentage: between 0 and 100.
\<close>

lemma validation_accuracy_bounds:
  assumes "titanic_report s validation = Inr (train, valid)"
  shows "0 \<le> valid \<and> valid \<le> 100"
proof -
  from assms obtain tr c v where
    c: "validation_count (ts_w s) validation 0 = Inr c" and
    v: "py_div c (length validation) = Inr v" and valid: "valid = v * 100"
    by (auto simp: titanic_report_def ebind_eq_Inr_iff)
  from v have n: "validation \<noteq> []" and vv: "v = c / real (length validation)"
    by (auto simp: py_div_def split: if_splits)
  from validation_count_bounds [OF c] have "0 \<le> c" "c \<le> real (length validation)" by simp_all
  with n vv have "0 \<le> v" "v \<le> 1" by (simp_all add: divide_le_eq_1)
  with valid show ?thesis by simp
qed

text \<open>
  After an epoch the recorded loss is non-negative and the recorded
  training accuracy counts at most one correct prediction per training row.
\<close>

lemma epoch_loss_accuracy_bounds:
  assumes "titanic_epoch sh i s = Inr (s', stop)"
  shows "0 \<le> ts_l s' \<and> 0 \<le> ts_accuracy s' \<and> ts_accuracy s' \<le> real (length (ts_data s'))"
proof -
  obtain l g acc where
    b: "batch_loop (length (sh i (ts_data s))) (ts_w s) (sh i (ts_data s)) (0, ts_dw s, 0) = Inr (l, Some g, acc)"
    and "ts_data s' = sh i (ts_data s)" "ts_l s' = l" "ts_accuracy s' = acc"
    using titanic_epoch_Inr [OF assms] by metis
  with batch_loop_bounds [OF b] show ?thesis by simp
qed

end
