(* ===== verification/Titanic_Run.thy ===== *)
theory Titanic_Run
  imports Titanic
begin

text \<open>
  Whole runs of the training script \<open>src/learn_ml/10_titanic.py\<close>: the
  shape invariant of the training state (weights and gradient keep the 21
  entries of the encoding), that the script runs to completion on a data file
  of valid rows (every epoch, the report and its divisions succeed), and that
  the plateau detector stops the loop once the weights fit the training rows.
  The definitions here are specification-side predicates over the state of
  \<open>Titanic\<close>.
\<close>

text \<open>
  A row the script can use: its six categorical columns are known to the
  vocabularies and its \<open>Survived\<close> column parses as a float.
\<close>

definition row_valid :: "row \<Rightarrow> bool" where
  "row_valid d \<longleftrightarrow> row_ok d \<and> (case target_of d of Inr _ \<Rightarrow> True | Inl _ \<Rightarrow> False)"

text \<open>The shape of the state: \<open>w\<close> and the last \<open>dw\<close> have the \<open>N\<close> entries of \<open>encode\<close>.\<close>

definition titanic_wf :: "titanic_state \<Rightarrow> bool" where
  "titanic_wf s \<longleftrightarrow>
     length (ts_w s) = N10 \<and> (case ts_dw s of None \<Rightarrow> True | Some g \<Rightarrow> length g = N10)"

text \<open>
  What holds of the state between epochs on a data file of valid rows: the
  shape, a non-empty training partition of valid rows, and the training
  accuracy of the last epoch counts at most one hit per row.
\<close>

definition run_ok :: "titanic_state \<Rightarrow> bool" where
  "run_ok s \<longleftrightarrow>
     titanic_wf s \<and> ts_data s \<noteq> [] \<and> list_all row_valid (ts_data s) \<and>
     0 \<le> ts_accuracy s \<and> ts_accuracy s \<le> real (length (ts_data s))"

text \<open>Weights that predict every training row's target exactly.\<close>

definition fits :: "vec \<Rightarrow> row list \<Rightarrow> bool" where
  "fits w ds \<longleftrightarrow>
     list_all (\<lambda>d. case encode d of
                    Inl _ \<Rightarrow> False
                  | Inr x \<Rightarrow> (case target_of d of Inl _ \<Rightarrow> False | Inr t \<Rightarrow> dot x w = t)) ds"

subsection \<open>Shapes\<close>

lemma np_iadd_length: "np_iadd w v = Inr w' \<Longrightarrow> length w' = length w"
  by (auto simp: np_iadd_def ebind_eq_Inr_iff split: if_splits)

lemma batch_loop_dw_shape:
  assumes "batch_loop n w ds (l, dw, acc) = Inr (l', dw', acc')"
    and "case dw of None \<Rightarrow> True | Some g \<Rightarrow> length g = N10"
  shows "case dw' of None \<Rightarrow> True | Some g \<Rightarrow> length g = N10"
  using assms
proof (induction ds arbitrary: l dw acc)
  case Nil
  then show ?case by simp
next
  case (Cons d ds)
  from Cons.prems(1) obtain x xw t where
    x: "encode d = Inr x" and
    rest: "batch_loop n w ds (l + (py_sum xw - t)\<^sup>2 / real n,
             Some (np_divs (np_smul (2 * (py_sum xw - t)) x) (real n)),
             count_correct acc (py_sum xw) t) = Inr (l', dw', acc')"
    by (auto simp: ebind_eq_Inr_iff Let_def)
  from encode_length [OF x] show ?case
    by (intro Cons.IH [OF rest]) simp
qed

lemma titanic_epoch_wf:
  assumes "titanic_wf s" "titanic_epoch sh i s = Inr (s', stop)"
  shows "titanic_wf s'"
proof -
  obtain l g acc w' where
    b: "batch_loop (length (sh i (ts_data s))) (ts_w s) (sh i (ts_data s)) (0, ts_dw s, 0) = Inr (l, Some g, acc)"
    and w': "np_iadd (ts_w s) (np_muls (np_smul (ts_step s') g) (-1)) = Inr w'"
    and "ts_w s' = w'" "ts_dw s' = Some g"
    using titanic_epoch_Inr [OF assms(2)] by metis
  moreover have "length g = N10"
    using batch_loop_dw_shape [OF b] assms(1) by (simp add: titanic_wf_def)
  ultimately show ?thesis
    using np_iadd_length [OF w'] assms(1) by (simp add: titanic_wf_def)
qed

lemma titanic_loop_wf:
  "titanic_wf s \<Longrightarrow> titanic_loop sh ixs s = Inr s' \<Longrightarrow> titanic_wf s'"
proof (induction ixs arbitrary: s)
  case Nil
  then show ?case by simp
next
  case (Cons i ixs)
  from Cons.prems(2) obtain s1 stop where
    e: "titanic_epoch sh i s = Inr (s1, stop)" and
    rest: "(if stop then Inr s1 else titanic_loop sh ixs s1) = Inr s'"
    by (auto simp: ebind_eq_Inr_iff)
  have "titanic_wf s1" by (rule titanic_epoch_wf [OF Cons.prems(1) e])
  with rest Cons.IH show ?case by (auto split: if_splits)
qed

subsection \<open>Runs on valid data\<close>

lemma row_valid_Inr:
  assumes "row_valid d"
  obtains x t where "encode d = Inr x" "length x = N10" "target_of d = Inr t"
  using assms encode_onehot [of d]
  by (auto simp: row_valid_def onehot_def split: sum.splits)

lemma batch_loop_valid:
  assumes "list_all row_valid ds" "length w = N10"
  shows "\<exists>l' dw' acc'. batch_loop n w ds (l, dw, acc) = Inr (l', dw', acc')"
  using assms(1)
proof (induction ds arbitrary: l dw acc)
  case Nil
  then show ?case by simp
next
  case (Cons d ds)
  then obtain x t where "encode d = Inr x" "length x = N10" "target_of d = Inr t"
    by (auto elim: row_valid_Inr)
  with Cons assms(2) show ?case by (simp add: Let_def)
qed

lemma validation_count_valid:
  assumes "list_all row_valid ds" "length w = N10"
  shows "\<exists>c. validation_count w ds acc = Inr c"
  using assms(1)
proof (induction ds arbitrary: acc)
  case Nil
  then show ?case by simp
next
  case (Cons d ds)
  then obtain x t where "encode d = Inr x" "length x = N10" "target_of d = Inr t"
    by (auto elim: row_valid_Inr)
  with Cons assms(2) show ?case by simp
qed

lemma shuffle_keeps:
  assumes "\<forall>i xs. mset (sh i xs) = mset xs"
  shows "set (sh i xs) = set xs" "length (sh i xs) = length xs" "sh i xs = [] \<longleftrightarrow> xs = []"
proof -
  have m: "mset (sh i xs) = mset xs" using assms by blast
  show "set (sh i xs) = set xs" by (metis m set_mset_mset)
  show "length (sh i xs) = length xs" by (metis m size_mset)
  then show "sh i xs = [] \<longleftrightarrow> xs = []" by auto
qed

lemma titanic_epoch_ok:
  assumes "run_ok s" "\<forall>i xs. mset (sh i xs) = mset xs"
  shows "\<exists>s' stop. titanic_epoch sh i s = Inr (s', stop) \<and> run_ok s'"
proof -
  let ?ds = "sh i (ts_data s)"
  let ?st = "if i = 1000 then ts_step s / 2 else if i = 2000 then 1 / 10000 else ts_step s"
  have ds: "set ?ds = set (ts_data s)" "length ?ds = length (ts_data s)" "?ds \<noteq> []"
    using shuffle_keeps [OF assms(2)] assms(1) by (simp_all add: run_ok_def)
  have valid: "list_all row_valid ?ds" and w: "length (ts_w s) = N10"
    using assms(1) ds(1) by (simp_all add: run_ok_def titanic_wf_def list_all_iff)
  obtain l dw acc where b: "batch_loop (length ?ds) (ts_w s) ?ds (0, ts_dw s, 0) = Inr (l, dw, acc)"
    using batch_loop_valid [OF valid w] by blast
  from batch_loop_bounds [OF b] ds(3) obtain g where
    g: "dw = Some g" and acc: "0 \<le> acc" "acc \<le> real (length ?ds)"
    by auto
  have "length g = N10"
    using batch_loop_dw_shape [OF b] assms(1) g by (simp add: run_ok_def titanic_wf_def)
  then have iadd: "np_iadd (ts_w s) (np_muls (np_smul ?st g) (-1)) =
      Inr (map2 (+) (ts_w s) (np_muls (np_smul ?st g) (-1)))"
    using w by simp
  show ?thesis
    using b g iadd acc valid ds(3) w \<open>length g = N10\<close>
    by (simp add: titanic_epoch_def Let_def run_ok_def titanic_wf_def) blast
qed

lemma titanic_loop_ok:
  assumes "run_ok s" "\<forall>i xs. mset (sh i xs) = mset xs"
  shows "\<exists>s'. titanic_loop sh ixs s = Inr s' \<and> run_ok s'"
  using assms(1)
proof (induction ixs arbitrary: s)
  case Nil
  then show ?case by simp
next
  case (Cons i ixs)
  from titanic_epoch_ok [OF Cons.prems assms(2), of i] obtain s1 stop where
    e: "titanic_epoch sh i s = Inr (s1, stop)" and ok: "run_ok s1"
    by blast
  show ?case
  proof (cases stop)
    case True
    with e ok show ?thesis by simp
  next
    case False
    with e Cons.IH [OF ok] show ?thesis by simp
  qed
qed

lemma titanic_report_ok:
  assumes "run_ok s" "validation \<noteq> []" "list_all row_valid validation"
  shows "\<exists>train valid. titanic_report s validation = Inr (train, valid) \<and>
           0 \<le> train \<and> train \<le> 100 \<and> 0 \<le> valid \<and> valid \<le> 100"
proof -
  have w: "length (ts_w s) = N10" using assms(1) by (simp add: run_ok_def titanic_wf_def)
  obtain c where c: "validation_count (ts_w s) validation 0 = Inr c"
    using validation_count_valid [OF assms(3) w] by blast
  have cb: "0 \<le> c" "c \<le> real (length validation)"
    using validation_count_bounds [OF c] by simp_all
  have a: "0 \<le> ts_accuracy s" "ts_accuracy s \<le> real (length (ts_data s))" "ts_data s \<noteq> []"
    using assms(1) by (simp_all add: run_ok_def)
  have "0 \<le> ts_accuracy s * 100 / real (length (ts_data s))"
    "ts_accuracy s * 100 / real (length (ts_data s)) \<le> 100"
    "0 \<le> c * 100 / real (length validation)" "c * 100 / real (length validation) \<le> 100"
    using a cb assms(2) by (simp_all add: pos_divide_le_eq)
  with a(3) assms(2) c show ?thesis
    by (simp add: titanic_report_def py_div_def)
qed

lemma run_ok_init:
  "data \<noteq> [] \<Longrightarrow> list_all row_valid data \<Longrightarrow> run_ok (titanic_init data)"
  by (simp add: run_ok_def titanic_wf_def titanic_init_def)

lemma titanic_training_ok:
  assumes "595 < length rows" "list_all row_valid rows" "\<forall>i xs. mset (sh i xs) = mset xs"
  shows "\<exists>s. titanic_loop sh [0..<4000] (titanic_init (take 595 rows)) = Inr s \<and> run_ok s"
proof -
  have "take 595 rows \<noteq> []" using assms(1) by auto
  moreover have "list_all row_valid (take 595 rows)"
    using assms(2) by (auto simp: list_all_iff dest: in_set_takeD)
  ultimately show ?thesis
    using titanic_loop_ok [OF run_ok_init assms(3)] by blast
qed

lemma row_valid_passengers: "row_valid passenger_died" "row_valid passenger_survived"
  by (simp_all add: row_valid_def row_ok_def item_ok_def vocabs_def target_passengers)
    (simp_all add: passenger_died_def passenger_survived_def)

lemma titanic_main_died_example:
  "\<exists>w train valid. titanic_main (\<lambda>i xs. xs) (replicate 596 passenger_died) = Inr (w, train, valid)"
proof -
  let ?rows = "replicate 596 passenger_died"
  have v: "list_all row_valid ?rows" by (simp add: list_all_iff row_valid_passengers)
  obtain s where
    run: "titanic_loop (\<lambda>i xs. xs) [0..<4000] (titanic_init (take 595 ?rows)) = Inr s" and
    ok: "run_ok s"
    using titanic_training_ok [OF _ v, of "\<lambda>i xs. xs"] by auto
  have "drop 595 ?rows \<noteq> []" "list_all row_valid (drop 595 ?rows)"
    using v by (simp_all add: list_all_iff)
  then obtain train valid where "titanic_report s (drop 595 ?rows) = Inr (train, valid)"
    using titanic_report_ok [OF ok] by blast
  with run show ?thesis by (simp add: titanic_main_def)
qed

subsection \<open>Training on weights that fit\<close>

lemma map2_add_zeros: "map2 (+) w (replicate (length w) 0) = (w :: vec)"
  by (induction w) auto

lemma map2_left: "length ys = length xs \<Longrightarrow> map2 (\<lambda>x y. x) xs ys = xs"
  by (induction xs arbitrary: ys) (auto simp: length_Suc_conv)

lemma np_divs_smul_zero: "np_divs (np_smul 0 x) c = replicate (length x) 0"
  by (induction x) (simp_all add: np_smul_def np_divs_def)

lemma fits_set: "set ds' = set ds \<Longrightarrow> fits w ds' = fits w ds"
  by (simp add: fits_def list_all_iff)

lemma batch_loop_fit:
  assumes "fits w ds" "length w = N10"
  shows "\<exists>acc'. batch_loop n w ds (l, dw, acc) =
           Inr (l, if ds = [] then dw else Some (replicate N10 0), acc')"
  using assms(1)
proof (induction ds arbitrary: dw acc)
  case Nil
  then show ?case by simp
next
  case (Cons d ds)
  then obtain x t where x: "encode d = Inr x" and t: "target_of d = Inr t" and y: "dot x w = t"
    and rest: "fits w ds"
    by (auto simp: fits_def split: sum.splits)
  have lx: "length x = N10" by (rule encode_length [OF x])
  show ?case
    using Cons.IH [OF rest] x t y lx assms(2)
    by (cases ds) (simp_all add: Let_def np_divs_smul_zero)
qed

lemma titanic_epoch_fit:
  assumes "titanic_wf s" "ts_data s \<noteq> []" "fits (ts_w s) (ts_data s)"
    and "list_all (\<lambda>l. l = 0) (ts_losses s)" "\<forall>i xs. mset (sh i xs) = mset xs"
  shows "\<exists>s' stop. titanic_epoch sh i s = Inr (s', stop) \<and> ts_w s' = ts_w s \<and> ts_i s' = i \<and>
           titanic_wf s' \<and> ts_data s' \<noteq> [] \<and> fits (ts_w s') (ts_data s') \<and>
           (if length (ts_losses s) = 4 then stop
            else ts_losses s' = ts_losses s @ [0] \<and> \<not> stop)"
proof -
  let ?ds = "sh i (ts_data s)"
  let ?st = "if i = 1000 then ts_step s / 2 else if i = 2000 then 1 / 10000 else ts_step s"
  have ds: "set ?ds = set (ts_data s)" "?ds \<noteq> []"
    using shuffle_keeps [OF assms(5)] assms(2) by simp_all
  have w: "length (ts_w s) = N10" using assms(1) by (simp add: titanic_wf_def)
  have fit: "fits (ts_w s) ?ds" using assms(3) fits_set [OF ds(1)] by simp
  obtain acc where
    b: "batch_loop (length ?ds) (ts_w s) ?ds (0, ts_dw s, 0) = Inr (0, Some (replicate N10 0), acc)"
    using batch_loop_fit [OF fit w] ds(2) by fastforce
  have iadd: "np_iadd (ts_w s) (np_muls (np_smul ?st (replicate N10 0)) (-1)) = Inr (ts_w s)"
    using w map2_add_zeros [of "ts_w s"] by (simp add: np_smul_def np_muls_def)
  have zeros: "ts_losses s = [0, 0, 0, 0]" if "length (ts_losses s) = 4"
  proof -
    have "ts_losses s = replicate 4 0"
      using assms(4) that replicate_length_same [of "ts_losses s" 0] by (simp add: list_all_iff)
    then show ?thesis by (simp add: numeral_eq_Suc)
  qed
  show ?thesis
  proof (cases "length (ts_losses s) = 4")
    case True
    then show ?thesis
      using b iadd ds fit w zeros
      by (simp add: titanic_epoch_def Let_def titanic_wf_def np_diff_def np_allclose_def) blast
  next
    case False
    then show ?thesis
      using b iadd ds fit w
      by (simp add: titanic_epoch_def Let_def titanic_wf_def) blast
  qed
qed

lemma titanic_loop_fit:
  assumes "4 - j mod 5 = k" "j + k < m" "loop_inv j s" "titanic_wf s" "ts_data s \<noteq> []"
    and "fits (ts_w s) (ts_data s)" "list_all (\<lambda>l. l = 0) (ts_losses s)"
    and "\<forall>i xs. mset (sh i xs) = mset xs"
  shows "\<exists>s'. titanic_loop sh [j..<m] s = Inr s' \<and> ts_w s' = ts_w s \<and> ts_i s' = j + k"
  using assms(1-7)
proof (induction k arbitrary: j s)
  case 0
  then have jm: "j < m" by simp
  from titanic_epoch_fit [OF 0(4-7) assms(8), of j] obtain s1 stop where
    e: "titanic_epoch sh j s = Inr (s1, stop)" "ts_w s1 = ts_w s" "ts_i s1 = j" and
    st: "if length (ts_losses s) = 4 then stop else ts_losses s1 = ts_losses s @ [0] \<and> \<not> stop"
    by blast
  have "length (ts_losses s) = 4"
    using 0(1,3) by (simp add: loop_inv_def)
  with st have stop by simp
  with e titanic_loop_upt [OF jm, of sh s] show ?case
    by (simp del: titanic_loop.simps)
next
  case (Suc k)
  then have jm: "j < m" by simp
  from titanic_epoch_fit [OF Suc.prems(4-7) assms(8), of j] obtain s1 stop where
    e: "titanic_epoch sh j s = Inr (s1, stop)" "ts_w s1 = ts_w s" "ts_i s1 = j"
       "titanic_wf s1" "ts_data s1 \<noteq> []" "fits (ts_w s1) (ts_data s1)" and
    st: "if length (ts_losses s) = 4 then stop else ts_losses s1 = ts_losses s @ [0] \<and> \<not> stop"
    by blast
  have len: "length (ts_losses s) = j mod 5" using Suc.prems(3) by (simp add: loop_inv_def)
  with Suc.prems(1) have "length (ts_losses s) \<noteq> 4" by simp
  with st have l1: "ts_losses s1 = ts_losses s @ [0]" and ns: "\<not> stop" by simp_all
  have inv: "loop_inv (Suc j) s1"
    using titanic_epoch_inv [OF Suc.prems(3) e(1)] by simp
  have k: "4 - Suc j mod 5 = k" "Suc j + k < m"
    using Suc.prems(1,2) by presburger+
  from Suc.IH [OF k inv e(4) e(5) e(6)] l1 Suc.prems(7) obtain s' where
    "titanic_loop sh [Suc j..<m] s1 = Inr s'" "ts_w s' = ts_w s1" "ts_i s' = Suc j + k"
    by auto
  with e(1,2) ns titanic_loop_upt [OF jm, of sh s] show ?case
    by (simp del: titanic_loop.simps)
qed

lemma titanic_main_completes:
  assumes "595 < length rows" "list_all row_valid rows" "\<forall>i xs. mset (sh i xs) = mset xs"
  shows "\<exists>w train valid. titanic_main sh rows = Inr (w, train, valid) \<and>
           0 \<le> train \<and> train \<le> 100 \<and> 0 \<le> valid \<and> valid \<le> 100"
proof -
  obtain s where
    run: "titanic_loop sh [0..<4000] (titanic_init (take 595 rows)) = Inr s" and ok: "run_ok s"
    using titanic_training_ok [OF assms] by blast
  have "drop 595 rows \<noteq> []" using assms(1) by simp
  moreover have "list_all row_valid (drop 595 rows)"
    using assms(2) by (auto simp: list_all_iff dest: in_set_dropD)
  ultimately obtain train valid where
    "titanic_report s (drop 595 rows) = Inr (train, valid)"
    "0 \<le> train" "train \<le> 100" "0 \<le> valid" "valid \<le> 100"
    using titanic_report_ok [OF ok] by blast
  with run show ?thesis by (simp add: titanic_main_def)
qed

subsection \<open>Properties\<close>

text \<open>
  C23. Termination without error: on a data file of more than 595 rows, each
  with its six categorical columns known and a numeric \<open>Survived\<close>, and a
  shuffle that permutes the rows, the script runs its epoch loop to an end
  (at most 4000 epochs, possibly cut by the plateau detector) and prints
  both accuracies, each a percentage between 0 and 100.
\<close>

theorem titanic_script_completes:
  assumes "595 < length rows" "list_all row_valid rows" "\<forall>i xs. mset (sh i xs) = mset xs"
  shows "\<exists>w train valid. titanic_main sh rows = Inr (w, train, valid) \<and>
           0 \<le> train \<and> train \<le> 100 \<and> 0 \<le> valid \<and> valid \<le> 100"
  by (rule titanic_main_completes [OF assms])

theorem titanic_script_completes_witness:
  "\<exists>w train valid.
     titanic_main (\<lambda>i xs. xs) (replicate 596 passenger_survived) = Inr (w, train, valid) \<and>
     0 \<le> train \<and> train \<le> 100 \<and> 0 \<le> valid \<and> valid \<le> 100"
  using titanic_script_completes [of "replicate 596 passenger_survived" "\<lambda>i xs. xs"]
  by (simp add: list_all_iff row_valid_passengers)

text \<open>
  C24. Liveness of the plateau detector: once the weights predict every
  training row exactly (so each epoch has loss 0 and a zero gradient), and
  the plateau window holds only zero losses, the loop run from any epoch
  \<open>j\<close> stops at the next epoch \<open>i \<ge> j\<close> with \<open>i mod 5 = 4\<close>, before the
  4000 epochs are spent, with the weights unchanged.
\<close>

theorem plateau_stops_fitted_training:
  assumes "loop_inv j s" "j < 4000" "titanic_wf s" "ts_data s \<noteq> []"
    and "fits (ts_w s) (ts_data s)" "list_all (\<lambda>l. l = 0) (ts_losses s)"
    and "\<forall>i xs. mset (sh i xs) = mset xs"
  shows "\<exists>s'. titanic_loop sh [j..<4000] s = Inr s' \<and> ts_w s' = ts_w s \<and>
           ts_i s' = j + (4 - j mod 5)"
proof -
  have "j + (4 - j mod 5) < 4000" using assms(2) by presburger
  from titanic_loop_fit [OF refl this assms(1,3-7)] show ?thesis .
qed

theorem plateau_stops_fitted_training_witness:
  "\<exists>s'. titanic_loop (\<lambda>i xs. xs) [0..<4000] (titanic_init [passenger_died]) = Inr s' \<and>
     ts_w s' = np_zeros 21 \<and> ts_i s' = 4"
proof -
  let ?s = "titanic_init [passenger_died]"
  have "titanic_wf ?s" "ts_data ?s \<noteq> []" "list_all (\<lambda>l. l = 0) (ts_losses ?s)"
    by (simp_all add: titanic_wf_def titanic_init_def)
  moreover have "fits (ts_w ?s) (ts_data ?s)"
    by (simp add: fits_def titanic_init_def encode_passenger_died target_passengers
        N10_def np_zeros_def numeral_eq_Suc)
  ultimately show ?thesis
    using plateau_stops_fitted_training [of 0 ?s "\<lambda>i xs. xs", OF loop_inv_init]
    by (simp add: titanic_init_def N10_def del: titanic_loop.simps)
qed

text \<open>
  C34. One-hot sparsity of the update: an epoch changes only the weights of
  the features active in the last row of the shuffled order (the bias and
  that row's six category indices); the other fourteen weights keep their
  values, whatever the other rows were.
\<close>

theorem epoch_updates_active_features_only:
  assumes "titanic_epoch sh i s = Inr (s', stop)" "sh i (ts_data s) = ds @ [d]"
    and "row_ok d" "length (ts_w s) = 21" "k < 21" "k \<notin> set (0 # selected vocabs d)"
  shows "ts_w s' ! k = ts_w s ! k"
proof -
  let ?x = "onehot (0 # selected vocabs d) N10"
  have x: "encode d = Inr ?x" by (rule encode_onehot [OF assms(3)])
  obtain t where t: "target_of d = Inr t"
    using epoch_last_row_target [OF assms(1,2)] by blast
  have len: "length ?x = length (ts_w s)" using assms(4) by (simp add: onehot_def N10_def)
  have "ts_w s' = map2 (\<lambda>wi xi. wi - ts_step s' * (2 * (dot ?x (ts_w s) - t) * xi / real (Suc (length ds))))
                    (ts_w s) ?x"
    by (rule epoch_last_row_update [OF assms(1,2) x t len])
  moreover have "?x ! k = 0" using assms(5,6) by (simp add: onehot_def N10_def)
  ultimately show ?thesis using assms(4,5) len by simp
qed

theorem epoch_updates_active_features_only_witness:
  "\<exists>s' stop. titanic_epoch (\<lambda>i xs. xs) 0 (titanic_init [passenger_died, passenger_survived]) = Inr (s', stop) \<and>
     ts_w s' ! 2 = np_zeros 21 ! 2"
proof -
  have "\<exists>p. titanic_epoch (\<lambda>i xs. xs) 0 (titanic_init [passenger_died, passenger_survived]) = Inr p"
    by (simp add: epoch_eval_simps) blast
  then obtain s' stop where
    e: "titanic_epoch (\<lambda>i xs. xs) 0 (titanic_init [passenger_died, passenger_survived]) = Inr (s', stop)"
    by auto
  have ok: "row_ok passenger_survived"
    by (simp add: row_ok_def item_ok_def vocabs_def passenger_survived_def)
  have "2 \<notin> set (0 # selected vocabs passenger_survived)"
    by (simp add: selected_def vocabs_def passenger_survived_def)
  with epoch_updates_active_features_only [OF e _ ok, of "[passenger_died]" 2] e show ?thesis
    by (simp add: titanic_init_def N10_def)
qed

end
