(* ===== verification/Titanic_Machine.thy ===== *)
theory Titanic_Machine
  imports Titanic_Run
begin

text \<open>
  The trainer of \<open>src/learn_ml/10_titanic.py\<close> as the state machine the
  specification describes: a trainer is \<^emph>\<open>training\<close> before epoch \<open>j\<close>, or
  \<^emph>\<open>finished\<close> once the plateau detector fires or the 4000-epoch budget
  is spent. \<open>trainer_step\<close> is one epoch (\<open>titanic_epoch\<close>) as a step
  relation; the functional loop \<open>titanic_loop\<close> of \<open>Titanic\<close> runs it to a
  finished state, and the invariants of reachable states hold by rule
  induction.
\<close>

datatype trainer = Training nat titanic_state | Finished titanic_state

inductive trainer_step :: "shuffler \<Rightarrow> trainer \<Rightarrow> trainer \<Rightarrow> bool" for sh where
  plateau: "titanic_epoch sh j s = Inr (s', True) \<Longrightarrow> trainer_step sh (Training j s) (Finished s')"
| budget: "titanic_epoch sh j s = Inr (s', False) \<Longrightarrow> Suc j = 4000 \<Longrightarrow>
    trainer_step sh (Training j s) (Finished s')"
| next_epoch: "titanic_epoch sh j s = Inr (s', False) \<Longrightarrow> Suc j < 4000 \<Longrightarrow>
    trainer_step sh (Training j s) (Training (Suc j) s')"

inductive_cases trainer_step_FinishedE [elim!]: "trainer_step sh (Finished s) t"
inductive_cases trainer_step_TrainingE [elim]: "trainer_step sh (Training j s) t"

text \<open>What every reachable trainer state satisfies.\<close>

definition trainer_inv :: "trainer \<Rightarrow> bool" where
  "trainer_inv t =
     (case t of
        Training j s \<Rightarrow> j < 4000 \<and> loop_inv j s
      | Finished s \<Rightarrow> ts_i s < 4000 \<and> ts_step s = lr_schedule (ts_i s) \<and>
                      length (ts_losses s) = Suc (ts_i s) mod 5 \<and>
                      (ts_i s = 3999 \<or> ts_i s mod 5 = 4))"

lemma trainer_step_inv:
  assumes "trainer_step sh t t'" "trainer_inv t"
  shows "trainer_inv t'"
  using assms
proof (induction rule: trainer_step.induct)
  case (plateau j s s')
  then have "ts_i s' = j" "ts_step s' = lr_schedule j" "loop_inv (Suc j) s'" "Suc j mod 5 = 0"
    using titanic_epoch_inv [of j s sh s' True] by (simp_all add: trainer_inv_def)
  moreover have "j < 4000" using plateau.prems by (simp add: trainer_inv_def)
  moreover have "Suc j mod 5 = 0 \<Longrightarrow> j mod 5 = 4" by presburger
  ultimately show ?case by (simp add: trainer_inv_def loop_inv_def)
next
  case (budget j s s')
  then have "ts_i s' = j" "ts_step s' = lr_schedule j" "loop_inv (Suc j) s'"
    using titanic_epoch_inv [of j s sh s' False] by (simp_all add: trainer_inv_def)
  with budget.hyps(2) show ?case by (simp add: trainer_inv_def loop_inv_def)
next
  case (next_epoch j s s')
  then have "loop_inv (Suc j) s'"
    using titanic_epoch_inv [of j s sh s' False] by (simp add: trainer_inv_def)
  with next_epoch.hyps(2) show ?case by (simp add: trainer_inv_def)
qed

lemma trainer_steps_inv:
  "(trainer_step sh)\<^sup>*\<^sup>* t t' \<Longrightarrow> trainer_inv t \<Longrightarrow> trainer_inv t'"
  by (induction rule: rtranclp_induct) (auto intro: trainer_step_inv)

lemma trainer_inv_init: "trainer_inv (Training 0 (titanic_init data))"
  by (simp add: trainer_inv_def loop_inv_init)

lemma titanic_loop_steps:
  assumes "titanic_loop sh [j..<4000] s = Inr s'" "j < 4000"
  shows "(trainer_step sh)\<^sup>*\<^sup>* (Training j s) (Finished s')"
  using assms
proof (induction "4000 - j" arbitrary: j s)
  case 0
  then show ?case by simp
next
  case (Suc k)
  from Suc.prems obtain s1 stop where
    ep: "titanic_epoch sh j s = Inr (s1, stop)" and
    rest: "(if stop then Inr s1 else titanic_loop sh [Suc j..<4000] s1) = Inr s'"
    using titanic_loop_upt [OF Suc.prems(2), of sh s]
    by (auto simp: ebind_eq_Inr_iff simp del: titanic_loop.simps split: prod.splits)
  show ?case
  proof (cases stop)
    case True
    with ep rest have "trainer_step sh (Training j s) (Finished s')"
      by (auto intro: trainer_step.plateau)
    then show ?thesis by (rule r_into_rtranclp)
  next
    case False
    show ?thesis
    proof (cases "Suc j = 4000")
      case True
      with False rest have "s1 = s'" by simp
      with False ep True have "trainer_step sh (Training j s) (Finished s')"
        by (auto intro: trainer_step.budget)
      then show ?thesis by (rule r_into_rtranclp)
    next
      case last: False
      with Suc.prems(2) have lt: "Suc j < 4000" by simp
      with False ep have step: "trainer_step sh (Training j s) (Training (Suc j) s1)"
        by (auto intro: trainer_step.next_epoch)
      from False rest have "titanic_loop sh [Suc j..<4000] s1 = Inr s'" by simp
      moreover have "k = 4000 - Suc j" using Suc.hyps(2) by simp
      ultimately have "(trainer_step sh)\<^sup>*\<^sup>* (Training (Suc j) s1) (Finished s')"
        using Suc.hyps(1) lt by blast
      with step show ?thesis by (rule converse_rtranclp_into_rtranclp)
    qed
  qed
qed

lemma trainer_step_deterministic:
  "trainer_step sh t t1 \<Longrightarrow> trainer_step sh t t2 \<Longrightarrow> t1 = t2"
  by (induction rule: trainer_step.induct) (auto elim: trainer_step.cases)

lemma first_epoch_died:
  "\<exists>s1. titanic_epoch (\<lambda>i xs. xs) 0 (titanic_init [passenger_died]) = Inr (s1, False)"
  by (simp add: epoch_eval_simps)

subsection \<open>Properties\<close>

text \<open>
  C32. The script implements the specification's trainer machine: whenever
  it returns, the weights it prints are those of a \<^emph>\<open>finished\<close> state that
  the machine reaches by epochs from the initial trainer (epoch 0, zero
  weights, the first 595 rows).
\<close>

theorem main_refines_trainer_machine:
  assumes "titanic_main sh rows = Inr (w, train, valid)"
  shows "\<exists>s. (trainer_step sh)\<^sup>*\<^sup>* (Training 0 (titanic_init (take 595 rows))) (Finished s) \<and> w = ts_w s"
proof -
  from assms obtain s where
    run: "titanic_loop sh [0..<4000] (titanic_init (take 595 rows)) = Inr s" and w: "w = ts_w s"
    by (auto simp: titanic_main_def ebind_eq_Inr_iff split: prod.splits)
  from titanic_loop_steps [OF run] w show ?thesis by auto
qed

theorem main_refines_trainer_machine_witness:
  "\<exists>w train valid s. titanic_main (\<lambda>i xs. xs) (replicate 596 passenger_died) = Inr (w, train, valid) \<and>
     (trainer_step (\<lambda>i xs. xs))\<^sup>*\<^sup>* (Training 0 (titanic_init (take 595 (replicate 596 passenger_died))))
       (Finished s) \<and> w = ts_w s"
proof -
  obtain w train valid where m: "titanic_main (\<lambda>i xs. xs) (replicate 596 passenger_died) = Inr (w, train, valid)"
    using titanic_main_died_example by blast
  from main_refines_trainer_machine [OF m] m show ?thesis by blast
qed

end
