(* ===== verification/Titanic_Metrics.thy ===== *)
theory Titanic_Metrics
  imports Titanic
begin

text \<open>
  What the numbers \<open>src/learn_ml/10_titanic.py\<close> prints mean: the loss \<open>l\<close> of
  an epoch is the mean squared error of the weights the epoch started from
  over the training rows (the weights change only after the inner loop), the
  accuracy counters count the rows on the right side of the 0.5 threshold,
  and the report prints these counts as percentages. \<open>row_sqerr\<close>,
  \<open>row_correct\<close> and \<open>hits\<close> are the specification-side notions.
\<close>

definition row_sqerr :: "vec \<Rightarrow> row \<Rightarrow> real" where
  "row_sqerr w d =
     (case encode d of
        Inl _ \<Rightarrow> 0
      | Inr x \<Rightarrow> (case target_of d of Inl _ \<Rightarrow> 0 | Inr t \<Rightarrow> (dot x w - t)\<^sup>2))"

definition row_correct :: "vec \<Rightarrow> row \<Rightarrow> bool" where
  "row_correct w d =
     (case encode d of
        Inl _ \<Rightarrow> False
      | Inr x \<Rightarrow> (case target_of d of
                   Inl _ \<Rightarrow> False
                 | Inr t \<Rightarrow> (1 / 2 < dot x w \<and> t = 1) \<or> (dot x w \<le> 1 / 2 \<and> t = 0)))"

definition hits :: "vec \<Rightarrow> row list \<Rightarrow> nat" where
  "hits w ds = length (filter (row_correct w) ds)"

lemma count_correct_eq:
  "count_correct acc y t = acc + (if (1 / 2 < y \<and> t = 1) \<or> (y \<le> 1 / 2 \<and> t = 0) then 1 else 0)"
  by (auto simp: count_correct_def)

lemma row_metrics:
  assumes "encode d = Inr x" "target_of d = Inr t"
  shows "row_sqerr w d = (dot x w - t)\<^sup>2"
    and "row_correct w d \<longleftrightarrow> (1 / 2 < dot x w \<and> t = 1) \<or> (dot x w \<le> 1 / 2 \<and> t = 0)"
  using assms by (simp_all add: row_sqerr_def row_correct_def)

lemma batch_loop_metrics:
  assumes "batch_loop n w ds (l, dw, acc) = Inr (l', dw', acc')" "length w = N10"
  shows "l' = l + sum_list (map (row_sqerr w) ds) / real n \<and> acc' = acc + real (hits w ds)"
  using assms(1)
proof (induction ds arbitrary: l dw acc)
  case Nil
  then show ?case by (simp add: hits_def)
next
  case (Cons d ds)
  from Cons.prems obtain x xw t where
    x: "encode d = Inr x" and xw: "np_mul x w = Inr xw" and t: "target_of d = Inr t" and
    rest: "batch_loop n w ds (l + (py_sum xw - t)\<^sup>2 / real n,
             Some (np_divs (np_smul (2 * (py_sum xw - t)) x) (real n)),
             count_correct acc (py_sum xw) t) = Inr (l', dw', acc')"
    by (auto simp: ebind_eq_Inr_iff Let_def)
  have "xw = map2 (*) x w" using xw encode_length [OF x] assms(2) by simp
  with Cons.IH [OF rest] row_metrics [OF x t, of w] show ?case
    by (simp add: hits_def count_correct_eq add_divide_distrib)
qed

lemma validation_count_hits:
  assumes "validation_count w ds acc = Inr c" "length w = N10"
  shows "c = acc + real (hits w ds)"
  using assms(1)
proof (induction ds arbitrary: acc)
  case Nil
  then show ?case by (simp add: hits_def)
next
  case (Cons d ds)
  from Cons.prems obtain x xw t where
    x: "encode d = Inr x" and xw: "np_mul x w = Inr xw" and t: "target_of d = Inr t" and
    rest: "validation_count w ds (count_correct acc (py_sum xw) t) = Inr c"
    by (auto simp: ebind_eq_Inr_iff)
  have "xw = map2 (*) x w" using xw encode_length [OF x] assms(2) by simp
  with Cons.IH [OF rest] row_metrics [OF x t, of w] show ?case
    by (simp add: hits_def count_correct_eq)
qed

subsection \<open>Properties\<close>

text \<open>
  C28. The loss and the training accuracy an epoch records are the mean
  squared error and the number of correctly classified rows of the weights
  the epoch started from, over the epoch's (shuffled) training rows: the
  inner loop never changes \<open>w\<close>, and \<open>l\<close> accumulates \<open>(y - t)\<^sup>2 / len(data)\<close>.
\<close>

theorem epoch_loss_is_mse:
  assumes "titanic_epoch sh i s = Inr (s', stop)" "length (ts_w s) = 21"
  shows "ts_l s' = sum_list (map (row_sqerr (ts_w s)) (ts_data s')) / real (length (ts_data s')) \<and>
         ts_accuracy s' = real (hits (ts_w s) (ts_data s'))"
proof -
  obtain l g acc where
    b: "batch_loop (length (sh i (ts_data s))) (ts_w s) (sh i (ts_data s)) (0, ts_dw s, 0) = Inr (l, Some g, acc)"
    and "ts_data s' = sh i (ts_data s)" "ts_l s' = l" "ts_accuracy s' = acc"
    using titanic_epoch_Inr [OF assms(1)] by metis
  with batch_loop_metrics [OF b] assms(2) show ?thesis by (simp add: N10_def)
qed

theorem epoch_loss_is_mse_witness:
  "\<exists>s' stop. titanic_epoch (\<lambda>i xs. xs) 0 (titanic_init [passenger_died, passenger_survived]) = Inr (s', stop) \<and>
     ts_l s' = sum_list (map (row_sqerr (np_zeros 21)) (ts_data s')) / real (length (ts_data s')) \<and>
     ts_accuracy s' = real (hits (np_zeros 21) (ts_data s'))"
proof -
  have "\<exists>p. titanic_epoch (\<lambda>i xs. xs) 0 (titanic_init [passenger_died, passenger_survived]) = Inr p"
    by (simp add: epoch_eval_simps) blast
  then obtain s' stop where
    e: "titanic_epoch (\<lambda>i xs. xs) 0 (titanic_init [passenger_died, passenger_survived]) = Inr (s', stop)"
    by auto
  have "length (ts_w (titanic_init [passenger_died, passenger_survived])) = 21"
    by (simp add: titanic_init_def N10_def)
  from epoch_loss_is_mse [OF e this] e show ?thesis
    by (auto simp: titanic_init_def N10_def)
qed

text \<open>
  C29. The report prints hit rates: the validation percentage is
  \<open>100 \<cdot> hits / len(validation)\<close> for the final weights, and the training
  percentage is \<open>100 \<cdot> accuracy / len(data)\<close> with the count of the last epoch.
\<close>

theorem report_is_hit_rate:
  assumes "titanic_report s validation = Inr (train, valid)" "length (ts_w s) = 21"
  shows "valid = 100 * real (hits (ts_w s) validation) / real (length validation) \<and>
         train = 100 * ts_accuracy s / real (length (ts_data s))"
proof -
  from assms(1) obtain tr c v where
    tr: "py_div (ts_accuracy s) (length (ts_data s)) = Inr tr" and
    c: "validation_count (ts_w s) validation 0 = Inr c" and
    v: "py_div c (length validation) = Inr v" and
    res: "train = tr * 100" "valid = v * 100"
    by (auto simp: titanic_report_def ebind_eq_Inr_iff)
  have "c = real (hits (ts_w s) validation)"
    using validation_count_hits [OF c] assms(2) by (simp add: N10_def)
  with tr v res show ?thesis
    by (auto simp: py_div_def split: if_splits)
qed

theorem report_is_hit_rate_witness:
  "titanic_report (titanic_init [passenger_died]) [passenger_died] = Inr (0, 100) \<and>
   (100::real) = 100 * real (hits (np_zeros 21) [passenger_died]) / real (length [passenger_died]) \<and>
   (0::real) = 100 * ts_accuracy (titanic_init [passenger_died]) / real (length (ts_data (titanic_init [passenger_died])))"
proof -
  have r: "titanic_report (titanic_init [passenger_died]) [passenger_died] = Inr (0, 100)"
    by (simp add: titanic_report_def titanic_init_def py_div_def encode_passenger_died target_passengers
        N10_def np_zeros_def count_correct_def numeral_eq_Suc)
  have "length (ts_w (titanic_init [passenger_died])) = 21"
    by (simp add: titanic_init_def N10_def)
  from report_is_hit_rate [OF r this] r show ?thesis
    by (simp add: titanic_init_def N10_def)
qed

end
