(* ===== verification/Titanic_Decode.thy ===== *)
theory Titanic_Decode
  imports Titanic
begin

text \<open>
  Decoding the one-hot features of \<open>src/learn_ml/10_titanic.py\<close>: for each
  vocabulary the value whose index holds a 1. \<open>decode\<close> is the inverse the
  encoder promises (no information about the six categorical columns is lost);
  it is a specification-side function, the script never decodes.
\<close>

definition decode_items ::
    "(string \<times> (string \<times> nat) list) list \<Rightarrow> vec \<Rightarrow> (string \<times> string option) list" where
  "decode_items items x =
     map (\<lambda>(k, v). (k, map_option fst (find (\<lambda>(val, idx). idx < length x \<and> x ! idx = 1) v))) items"

definition decode :: "vec \<Rightarrow> (string \<times> string option) list" where
  "decode x = decode_items vocabs x"

lemma find_unique:
  assumes "a \<in> set xs" "P a" "\<forall>b \<in> set xs. P b \<longrightarrow> b = a"
  shows "find P xs = Some a"
  using assms
proof (induction xs)
  case Nil
  then show ?case by simp
next
  case (Cons x xs)
  show ?case
  proof (cases "P x")
    case True
    then have "x = a" using Cons.prems(3) by (meson list.set_intros(1))
    with True show ?thesis by simp
  next
    case False
    then have "a \<noteq> x" using Cons.prems(2) by blast
    then have "a \<in> set xs" using Cons.prems(1) by simp
    moreover have "\<forall>b \<in> set xs. P b \<longrightarrow> b = a" using Cons.prems(3) by simp
    ultimately have "find P xs = Some a" using Cons.IH Cons.prems(2) by blast
    with False show ?thesis by simp
  qed
qed
lemma snd_unique: "distinct (map snd v) \<Longrightarrow> (a, i) \<in> set v \<Longrightarrow> (b, i) \<in> set v \<Longrightarrow> a = b"
  using distinct_map [of snd v] inj_onD [of snd "set v" "(a, i)" "(b, i)"] by simp

lemma vocab_indices_group:
  assumes "(k, v) \<in> set items"
  shows "set (map snd v) \<subseteq> set (vocab_indices items)"
    and "distinct (vocab_indices items) \<Longrightarrow> distinct (map snd v)"
  using assms
  by (induction items) (auto simp: vocab_indices_def)

lemma selected_group:
  assumes "distinct (0 # vocab_indices items)" "list_all (item_ok d) items"
    and "(k, v) \<in> set items" "(val, idx) \<in> set v"
  shows "idx \<in> set (0 # selected items d) \<longleftrightarrow> idx = the (map_of v (the (map_of d k)))"
  using assms
proof (induction items)
  case Nil
  then show ?case by simp
next
  case (Cons kv items)
  obtain k1 v1 where kv: "kv = (k1, v1)" by fastforce
  let ?sel1 = "the (map_of v1 (the (map_of d k1)))"
  have sel1: "?sel1 \<in> set (map snd v1)"
    using Cons.prems(2) kv item_ok_index [of d k1 v1] by simp
  have disj: "set (map snd v1) \<inter> set (vocab_indices items) = {}" "0 \<notin> set (map snd v1)"
    and rest: "distinct (0 # vocab_indices items)"
    using Cons.prems(1) kv by (auto simp: vocab_indices_def)
  have sub: "set (selected items d) \<subseteq> set (vocab_indices items)"
    using Cons.prems(2) by (simp add: selected_in_indices)
  have sel_eq: "set (0 # selected (kv # items) d) = insert ?sel1 (set (0 # selected items d))"
    using kv by (auto simp: selected_def)
  show ?case
  proof (cases "kv = (k, v)")
    case True
    with kv have "idx \<in> set (map snd v1)" using Cons.prems(4) by (force intro: rev_image_eqI)
    with disj sub have "idx \<notin> set (0 # selected items d)" by auto
    with True kv sel_eq show ?thesis by auto
  next
    case False
    with Cons.prems(3) have "(k, v) \<in> set items" by simp
    then have "idx \<in> set (vocab_indices items)"
      using Cons.prems(4) vocab_indices_group(1) by (force intro: rev_image_eqI)
    with disj have "idx \<noteq> ?sel1" using sel1 by auto
    moreover have "idx \<in> set (0 # selected items d) \<longleftrightarrow> idx = the (map_of v (the (map_of d k)))"
      using Cons.IH rest Cons.prems(2) \<open>(k, v) \<in> set items\<close> Cons.prems(4) by simp
    ultimately show ?thesis using sel_eq by auto
  qed
qed

lemma decode_group:
  assumes "distinct (0 # vocab_indices items)" "\<forall>i \<in> set (vocab_indices items). i < n"
    and "list_all (item_ok d) items" "(k, v) \<in> set items"
  shows "map_option fst (find (\<lambda>(val, idx). idx < length (onehot (0 # selected items d) n) \<and>
            onehot (0 # selected items d) n ! idx = 1) v) = map_of d k"
proof -
  let ?P = "\<lambda>(val, idx). idx < length (onehot (0 # selected items d) n) \<and>
                         onehot (0 # selected items d) n ! idx = 1"
  have "item_ok d (k, v)" using assms(3,4) by (simp add: list_all_iff)
  then obtain dk i where dk: "map_of d k = Some dk" and i: "map_of v dk = Some i"
    by (auto simp: item_ok_def split: option.splits)
  have mem: "(dk, i) \<in> set v" using i by (rule map_of_SomeD)
  have lt: "idx < n" if "(val, idx) \<in> set v" for val idx
    using assms(2) vocab_indices_group(1) [OF assms(4)] that by (force intro: rev_image_eqI)
  have P: "?P (val, idx) \<longleftrightarrow> idx = i" if "(val, idx) \<in> set v" for val idx
    using selected_group [OF assms(1,3,4) that] lt [OF that] dk i
    by (simp add: onehot_def)
  have dist: "distinct (map snd v)"
    using assms(1) vocab_indices_group(2) [OF assms(4)] by simp
  have "find ?P v = Some (dk, i)"
  proof (rule find_unique [OF mem])
    show "?P (dk, i)" using P [OF mem] by simp
    show "\<forall>b \<in> set v. ?P b \<longrightarrow> b = (dk, i)"
      using P snd_unique [OF dist _ mem] by fastforce
  qed
  then show ?thesis using dk by simp
qed

lemma decode_items_onehot:
  assumes "distinct (0 # vocab_indices items)" "\<forall>i \<in> set (vocab_indices items). i < n"
    and "list_all (item_ok d) items"
  shows "decode_items items (onehot (0 # selected items d) n) = map (\<lambda>(k, v). (k, map_of d k)) items"
  unfolding decode_items_def
  by (rule map_cong [OF refl]) (auto simp: decode_group [OF assms])

subsection \<open>Properties\<close>

text \<open>
  C25. Round trip of the encoder: for a row whose six categorical columns
  are known to the vocabularies, decoding the vector \<open>encode\<close> returns gives
  back, for every vocabulary, the row's value of that column.
\<close>

theorem decode_encode_roundtrip:
  assumes "row_ok d"
  shows "\<exists>x. encode d = Inr x \<and> decode x = map (\<lambda>(k, v). (k, map_of d k)) vocabs"
proof -
  have "decode (onehot (0 # selected vocabs d) N10) = map (\<lambda>(k, v). (k, map_of d k)) vocabs"
    using decode_items_onehot [OF vocabs_indices assms [unfolded row_ok_def]]
    by (simp add: decode_def)
  with encode_onehot [OF assms] show ?thesis by blast
qed

theorem decode_encode_roundtrip_witness:
  "\<exists>x. encode passenger_died = Inr x \<and>
     decode x = [(''Fare'', Some ''low''), (''Embarked'', Some ''S''), (''Age'', Some ''adult''),
                 (''Family'', Some ''alone''), (''Pclass'', Some ''3''), (''Sex'', Some ''male'')]"
proof -
  have "row_ok passenger_died"
    by (simp add: row_ok_def item_ok_def vocabs_def passenger_died_def)
  from decode_encode_roundtrip [OF this] show ?thesis
    by (simp add: vocabs_def passenger_died_def)
qed

end
