(* ===== verification/Titanic_Output.thy ===== *)
theory Titanic_Output
  imports Titanic_Run
begin

text \<open>
  What \<open>src/learn_ml/10_titanic.py\<close> prints: after the update of every
  epoch \<open>i\<close> with \<open>i % 100 == 0\<close> the line \<open>"%s: LOSS = %s; CORRECT = %s" %
  (i, l, accuracy)\<close>; after training \<open>"TRAINING %s%% = %s of %s"\<close> with the
  training accuracy in percent, the count and \<open>len(data)\<close>; after the
  validation loop \<open>"VALIDATION %s%% = %s of %s"\<close> likewise. \<open>titanic_line\<close>
  records the values a line shows (the formatting of \<open>%s\<close> is not modelled);
  \<open>titanic_epoch_io\<close>, \<open>titanic_loop_io\<close>, \<open>titanic_report_io\<close> and
  \<open>titanic_main_io\<close> are the script with its \<open>print\<close> statements, in the
  order the script runs them.
\<close>

datatype titanic_line =
    Progress nat real real
  | Training_line real real nat
  | Validation_line real real nat

definition titanic_epoch_io :: "shuffler \<Rightarrow> nat \<Rightarrow> titanic_state \<Rightarrow> (titanic_line, titanic_state \<times> bool) io" where
  "titanic_epoch_io sh i s =
     (let data = sh i (ts_data s);
          step = (if i = 1000 then ts_step s / 2 else if i = 2000 then 1 / 10000 else ts_step s)
      in tbind (io_lift (batch_loop (length data) (ts_w s) data (0, ts_dw s, 0))) (\<lambda>(l, dw, acc).
         case dw of
           None \<Rightarrow> io_lift (Inl (NameError ''dw''))
         | Some g \<Rightarrow>
             tbind (io_lift (np_iadd (ts_w s) (np_muls (np_smul step g) (-1)))) (\<lambda>w.
             tbind (if i mod 100 = 0 then emit (Progress i l acc) else io_return ()) (\<lambda>_.
             (let losses = ts_losses s @ [l];
                  s' = s\<lparr>ts_data := data, ts_w := w, ts_step := step, ts_dw := Some g,
                         ts_l := l, ts_accuracy := acc, ts_i := i\<rparr>
              in if length losses = 5
                 then io_return (s'\<lparr>ts_losses := []\<rparr>, np_allclose (np_diff losses) 0)
                 else io_return (s'\<lparr>ts_losses := losses\<rparr>, False))))))"

fun titanic_loop_io :: "shuffler \<Rightarrow> nat list \<Rightarrow> titanic_state \<Rightarrow> (titanic_line, titanic_state) io" where
  "titanic_loop_io sh [] s = io_return s"
| "titanic_loop_io sh (i # ixs) s =
     tbind (titanic_epoch_io sh i s) (\<lambda>(s', stop). if stop then io_return s' else titanic_loop_io sh ixs s')"

definition titanic_report_io :: "titanic_state \<Rightarrow> row list \<Rightarrow> (titanic_line, real \<times> real) io" where
  "titanic_report_io s validation =
     tbind (io_lift (py_div (ts_accuracy s) (length (ts_data s)))) (\<lambda>train.
     tbind (emit (Training_line (train * 100) (ts_accuracy s) (length (ts_data s)))) (\<lambda>_.
     tbind (io_lift (validation_count (ts_w s) validation 0)) (\<lambda>vacc.
     tbind (io_lift (py_div vacc (length validation))) (\<lambda>valid.
     tbind (emit (Validation_line (valid * 100) vacc (length validation))) (\<lambda>_.
     io_return (train * 100, valid * 100))))))"

definition titanic_main_io :: "shuffler \<Rightarrow> row list \<Rightarrow> (titanic_line, vec \<times> real \<times> real) io" where
  "titanic_main_io sh rows =
     (let data = take 595 rows; validation = drop 595 rows in
      tbind (titanic_loop_io sh [0..<4000] (titanic_init data)) (\<lambda>s.
      tbind (titanic_report_io s validation) (\<lambda>(train, valid).
      io_return (ts_w s, train, valid))))"

text \<open>The epoch of a progress line, and what a progress line may show.\<close>

fun progress_epoch :: "titanic_line \<Rightarrow> nat" where
  "progress_epoch (Progress i l acc) = i"
| "progress_epoch (Training_line p acc n) = 0"
| "progress_epoch (Validation_line p acc n) = 0"

fun progress_ok :: "nat \<Rightarrow> titanic_line \<Rightarrow> bool" where
  "progress_ok n (Progress i l acc) \<longleftrightarrow> 0 \<le> l \<and> 0 \<le> acc \<and> acc \<le> real n"
| "progress_ok n (Training_line p acc m) \<longleftrightarrow> False"
| "progress_ok n (Validation_line p acc m) \<longleftrightarrow> False"

subsection \<open>Erasing the output\<close>

lemma titanic_epoch_io_result: "snd (titanic_epoch_io sh i s) = titanic_epoch sh i s"
  by (simp add: titanic_epoch_io_def titanic_epoch_def Let_def ebind_def
      split: sum.split prod.split option.split)


lemma titanic_loop_io_result: "snd (titanic_loop_io sh ixs s) = titanic_loop sh ixs s"
proof (induction ixs arbitrary: s)
  case Nil
  then show ?case by simp
next
  case (Cons i ixs)
  then show ?case
    by (simp add: titanic_epoch_io_result ebind_def split: sum.split prod.split)
qed

lemma titanic_report_io_result: "snd (titanic_report_io s validation) = titanic_report s validation"
  by (simp add: titanic_report_io_def titanic_report_def)

lemma titanic_main_io_result: "snd (titanic_main_io sh rows) = titanic_main sh rows"
  by (simp add: titanic_main_io_def titanic_main_def titanic_loop_io_result titanic_report_io_result
      ebind_def split: sum.split prod.split)

subsection \<open>The printed lines\<close>

lemma titanic_epoch_io_line:
  assumes "titanic_epoch sh i s = Inr (s', stop)"
  shows "titanic_epoch_io sh i s = (if i mod 100 = 0 then [Progress i (ts_l s') (ts_accuracy s')] else [], Inr (s', stop))"
proof -
  let ?step = "if i = 1000 then ts_step s / 2 else if i = 2000 then 1 / 10000 else ts_step s"
  obtain l g acc where
    b: "batch_loop (length (sh i (ts_data s))) (ts_w s) (sh i (ts_data s)) (0, ts_dw s, 0) = Inr (l, Some g, acc)"
    and "ts_l s' = l" "ts_accuracy s' = acc"
    using titanic_epoch_Inr [OF assms] by metis
  moreover obtain w' where "np_iadd (ts_w s) (np_muls (np_smul ?step g) (-1)) = Inr w'"
    using assms b by (auto simp: titanic_epoch_def Let_def ebind_eq_Inr_iff)
  ultimately have "fst (titanic_epoch_io sh i s) = (if i mod 100 = 0 then [Progress i (ts_l s') (ts_accuracy s')] else [])"
    by (simp add: titanic_epoch_io_def Let_def)
  then show ?thesis using titanic_epoch_io_result assms by (metis prod.collapse)
qed


lemma titanic_loop_io_Cons:
  "j < m \<Longrightarrow> titanic_loop_io sh [j..<m] s =
     tbind (titanic_epoch_io sh j s) (\<lambda>(s', stop). if stop then io_return s' else titanic_loop_io sh [Suc j..<m] s')"
  by (simp only: upt_conv_Cons titanic_loop_io.simps)

lemma filter_upt_Cons:
  "j < n \<Longrightarrow> filter P [j..<n] = (if P j then [j] else []) @ filter P [Suc j..<n]"
  by (simp add: upt_conv_Cons)

lemma titanic_loop_io_progress:
  assumes "titanic_loop_io sh [j..<m] s = (out, Inr s')" "loop_inv j s" "j < m"
    and "\<forall>i xs. mset (sh i xs) = mset xs"
  shows "map progress_epoch out = filter (\<lambda>i. i mod 100 = 0) [j..<Suc (ts_i s')] \<and>
         list_all (progress_ok (length (ts_data s))) out"
  using assms(1-3)
proof (induction "m - j" arbitrary: j s out)
  case 0
  then show ?case by simp
next
  case (Suc k)
  have run: "titanic_loop sh [j..<m] s = Inr s'"
    using titanic_loop_io_result [of sh "[j..<m]" s] Suc.prems(1) by simp
  from run obtain s1 stop where ep: "titanic_epoch sh j s = Inr (s1, stop)"
    using titanic_loop_upt [OF Suc.prems(3), of sh s]
    by (auto simp: ebind_eq_Inr_iff simp del: titanic_loop.simps split: prod.splits)
  have inv1: "ts_i s1 = j" "loop_inv (Suc j) s1"
    using titanic_epoch_inv [OF Suc.prems(2) ep] by simp_all
  have bnd: "0 \<le> ts_l s1" "0 \<le> ts_accuracy s1" "ts_accuracy s1 \<le> real (length (ts_data s))"
    and len1: "length (ts_data s1) = length (ts_data s)"
    using epoch_loss_accuracy_bounds [OF ep] titanic_epoch_Inr [OF ep] shuffle_keeps(2) [OF assms(4)]
    by metis+
  let ?lines = "if j mod 100 = 0 then [Progress j (ts_l s1) (ts_accuracy s1)] else []"
  have io: "titanic_loop_io sh [j..<m] s =
      (?lines @ fst (if stop then io_return s1 else titanic_loop_io sh [Suc j..<m] s1),
       snd (if stop then io_return s1 else titanic_loop_io sh [Suc j..<m] s1))"
    using titanic_loop_io_Cons [OF Suc.prems(3)] titanic_epoch_io_line [OF ep] by simp
  have lines: "map progress_epoch ?lines = filter (\<lambda>i. i mod 100 = 0) [j..<Suc j] \<and>
      list_all (progress_ok (length (ts_data s))) ?lines"
    using bnd by simp
  show ?case
  proof (cases "stop \<or> Suc j = m")
    case True
    then have "stop \<or> [Suc j..<m] = []" by auto
    then have "(if stop then io_return s1 else titanic_loop_io sh [Suc j..<m] s1) = io_return s1"
    proof (cases stop)
      case False
      with \<open>stop \<or> [Suc j..<m] = []\<close> have nil: "[Suc j..<m] = []" by simp
      show ?thesis by (subst nil) (simp add: False)
    qed simp
    then have "out = ?lines" "s' = s1"
      using io Suc.prems(1) by (simp_all add: io_return_def)
    with lines inv1 show ?thesis by simp
  next
    case False
    obtain out' r where L: "titanic_loop_io sh [Suc j..<m] s1 = (out', r)" by fastforce
    with io False Suc.prems(1) have out: "out = ?lines @ out'" and r: "r = Inr s'" by simp_all
    from L r have rest: "titanic_loop_io sh [Suc j..<m] s1 = (out', Inr s')" by simp
    then have loop: "titanic_loop sh [Suc j..<m] s1 = Inr s'"
      using titanic_loop_io_result [of sh "[Suc j..<m]" s1] by simp
    have "k = m - Suc j" "Suc j < m" using Suc.hyps(2) Suc.prems(3) False by auto
    from Suc.hyps(1) [OF this(1) rest inv1(2) this(2)] len1 have
      ih: "map progress_epoch out' = filter (\<lambda>i. i mod 100 = 0) [Suc j..<Suc (ts_i s')] \<and>
           list_all (progress_ok (length (ts_data s))) out'"
      by simp
    have "Suc j \<le> ts_i s'"
      using titanic_loop_inv [OF loop inv1(2) \<open>Suc j < m\<close>] by simp
    then have "filter (\<lambda>i. i mod 100 = 0) [j..<Suc (ts_i s')] =
        filter (\<lambda>i. i mod 100 = 0) [j..<Suc j] @ filter (\<lambda>i. i mod 100 = 0) [Suc j..<Suc (ts_i s')]"
      by (simp add: filter_upt_Cons)
    with out lines ih show ?thesis by simp
  qed
qed


lemma titanic_report_io_empty:
  assumes "ts_data s \<noteq> []"
  shows "titanic_report_io s [] =
           ([Training_line (ts_accuracy s / real (length (ts_data s)) * 100) (ts_accuracy s) (length (ts_data s))],
            Inl ZeroDivisionError)"
  using assms by (simp add: titanic_report_io_def py_div_def)

lemma titanic_loop_io_ok:
  assumes "run_ok s" "\<forall>i xs. mset (sh i xs) = mset xs"
  shows "\<exists>out s'. titanic_loop_io sh ixs s = (out, Inr s') \<and> run_ok s'"
proof -
  obtain s' where "titanic_loop sh ixs s = Inr s'" "run_ok s'"
    using titanic_loop_ok [OF assms] by blast
  then show ?thesis using titanic_loop_io_result [of sh ixs s] by (metis prod.collapse)
qed

subsection \<open>Properties\<close>

text \<open>
  C21. The progress output of training: a run of the training loop prints
  one progress line for each epoch \<open>0, 100, 200, \<dots>\<close> up to the epoch it
  stopped at, in order, and each shows a non-negative loss and a count of
  correct predictions between 0 and \<open>len(data)\<close>.
\<close>

theorem training_progress_lines:
  assumes "titanic_loop_io sh [0..<4000] (titanic_init data) = (out, Inr s)"
    and "\<forall>i xs. mset (sh i xs) = mset xs"
  shows "map progress_epoch out = filter (\<lambda>i. i mod 100 = 0) [0..<Suc (ts_i s)] \<and>
         list_all (progress_ok (length data)) out"
  using titanic_loop_io_progress [OF assms(1) loop_inv_init _ assms(2)]
  by (simp add: titanic_init_def)

theorem training_progress_lines_witness:
  "\<exists>out s. titanic_loop_io (\<lambda>i xs. xs) [0..<4000] (titanic_init [passenger_died]) = (out, Inr s) \<and>
     map progress_epoch out = filter (\<lambda>i. i mod 100 = 0) [0..<Suc (ts_i s)] \<and>
     list_all (progress_ok (length [passenger_died])) out"
proof -
  have ok: "run_ok (titanic_init [passenger_died])"
    by (rule run_ok_init) (simp_all add: row_valid_passengers)
  have m: "\<forall>i xs. mset ((\<lambda>i xs. xs) i xs) = mset (xs :: row list)" by simp
  from titanic_loop_io_ok [OF ok m, of "[0..<4000]"] obtain out s where
    r: "titanic_loop_io (\<lambda>i xs. xs) [0..<4000] (titanic_init [passenger_died]) = (out, Inr s)"
    by blast
  from training_progress_lines [OF r m] r show ?thesis by blast
qed

text \<open>
  C33. A data file of at most 595 valid rows leaves the validation partition
  empty: the script prints its progress lines and the \<open>TRAINING\<close> line,
  then raises \<open>ZeroDivisionError\<close> in the validation report, before any
  \<open>VALIDATION\<close> line.
\<close>

theorem small_file_output:
  assumes "rows \<noteq> []" "length rows \<le> 595" "list_all row_valid rows"
    and "\<forall>i xs. mset (sh i xs) = mset xs"
  shows "\<exists>out s. titanic_loop_io sh [0..<4000] (titanic_init rows) = (out, Inr s) \<and>
           titanic_main_io sh rows =
             (out @ [Training_line (ts_accuracy s / real (length (ts_data s)) * 100) (ts_accuracy s)
                       (length (ts_data s))],
              Inl ZeroDivisionError)"
proof -
  obtain out s where r: "titanic_loop_io sh [0..<4000] (titanic_init rows) = (out, Inr s)" and ok: "run_ok s"
    using titanic_loop_io_ok [OF run_ok_init [OF assms(1,3)] assms(4)] by blast
  have "ts_data s \<noteq> []" using ok by (simp add: run_ok_def)
  moreover have "take 595 rows = rows" "drop 595 rows = []" using assms(2) by simp_all
  ultimately show ?thesis
    using r titanic_report_io_empty [of s] by (simp add: titanic_main_io_def)
qed

theorem small_file_output_witness:
  "\<exists>out s. titanic_loop_io (\<lambda>i xs. xs) [0..<4000] (titanic_init [passenger_died]) = (out, Inr s) \<and>
     titanic_main_io (\<lambda>i xs. xs) [passenger_died] =
       (out @ [Training_line (ts_accuracy s / real (length (ts_data s)) * 100) (ts_accuracy s)
                 (length (ts_data s))],
        Inl ZeroDivisionError)"
  using small_file_output [of "[passenger_died]" "\<lambda>i xs. xs"] by (simp add: row_valid_passengers)

end
