(* ===== verification/Float_Parse.thy ===== *)
theory Float_Parse
  imports Numpy
begin

text \<open>
  The float parser \<open>py_float\<close> of \<open>Numpy\<close> (the \<open>float(d["Survived"])\<close> of
  \<open>src/learn_ml/10_titanic.py\<close>) against the decimal printing of integers:
  \<open>py_str_nat n\<close> is Python's \<open>str(n)\<close> for \<open>n \<ge> 0\<close>, digits without leading
  zeros. Parsing what is printed gives back the number, with either sign.
\<close>

fun py_str_nat :: "nat \<Rightarrow> string" where
  "py_str_nat n =
     (if n < 10 then [char_of (48 + n)]
      else py_str_nat (n div 10) @ [char_of (48 + n mod 10)])"

declare py_str_nat.simps [simp del]

lemma digit_char:
  assumes "d < 10"
  shows "is_digit (char_of (48 + d))" "(of_char (char_of (48 + d) :: char) :: nat) = 48 + d"
  using assms by (simp_all add: is_digit_def of_char_of)

lemma digits_value_snoc: "digits_value (cs @ [c]) = 10 * digits_value cs + (of_char c - 48)"
  by (simp add: digits_value_def)

lemma py_str_nat_digits: "list_all is_digit (py_str_nat n) \<and> py_str_nat n \<noteq> [] \<and>
    digits_value (py_str_nat n) = n"
proof (induction n rule: py_str_nat.induct)
  case (1 n)
  show ?case
  proof (cases "n < 10")
    case True
    then show ?thesis
      using digit_char [OF True] by (simp add: py_str_nat.simps digits_value_def)
  next
    case False
    have d: "n mod 10 < 10" by simp
    have "digits_value (py_str_nat n) = 10 * (n div 10) + n mod 10"
      using 1 False digit_char [OF d] by (simp add: py_str_nat.simps digits_value_snoc)
    then show ?thesis
      using 1 False digit_char [OF d] by (simp add: py_str_nat.simps)
  qed
qed

lemma parse_unsigned_digits:
  "list_all is_digit s \<Longrightarrow> s \<noteq> [] \<Longrightarrow> parse_unsigned s = Some (real (digits_value s))"
  by (simp add: parse_unsigned_def list_all_iff Let_def takeWhile_eq_all_conv [THEN iffD2])

lemma py_str_nat_hd: "hd (py_str_nat n) \<noteq> CHR ''-'' \<and> hd (py_str_nat n) \<noteq> CHR ''+''"
proof -
  have "is_digit (hd (py_str_nat n))"
    using py_str_nat_digits [of n] by (cases "py_str_nat n") auto
  then show ?thesis by (auto simp: is_digit_def)
qed

subsection \<open>Properties\<close>

text \<open>
  C26. Round trip of \<open>float\<close> on printed integers: \<open>float(str(n)) == n\<close> and
  \<open>float("-" + str(n)) == -n\<close> for every natural number \<open>n\<close>, so the
  \<open>Survived\<close> column's \<open>0\<close> and \<open>1\<close>, and any integer label, parse to the
  number printed.
\<close>

theorem py_float_str_roundtrip:
  "py_float (py_str_nat n) = Inr (real n) \<and> py_float (CHR ''-'' # py_str_nat n) = Inr (- real n)"
proof -
  have d: "list_all is_digit (py_str_nat n)" "py_str_nat n \<noteq> []" "digits_value (py_str_nat n) = n"
    using py_str_nat_digits [of n] by simp_all
  then obtain c cs where cs: "py_str_nat n = c # cs" by (cases "py_str_nat n") auto
  have "c \<noteq> CHR ''-''" "c \<noteq> CHR ''+''" using py_str_nat_hd [of n] cs by simp_all
  with cs d show ?thesis
    using parse_unsigned_digits [OF d(1,2)] by (simp add: py_float_def)
qed

end
