(* ===== verification/Shuffle.thy ===== *)
theory Shuffle
  imports Numpy "HOL-Library.Multiset"
begin

text \<open>
  \<open>random.shuffle(data)\<close>, which \<open>src/learn_ml/10_titanic.py\<close> calls at the
  start of every epoch, as Python 2.7's \<open>random.py\<close> implements it:
  \<open>for i in reversed(xrange(1, len(x))): j = int(random() * (i+1));
  x[i], x[j] = x[j], x[i]\<close>. The draws of \<open>random()\<close> are a parameter
  \<open>rnd\<close> (\<open>rnd k\<close> is the \<open>k\<close>-th call within this shuffle); the generator
  itself is not modelled. \<open>py_int\<close> is \<open>int()\<close> (truncation toward zero),
  \<open>py_list_get\<close>/\<open>py_list_set\<close> are list indexing with Python's negative
  indices and \<open>IndexError\<close>, and \<open>py_swap\<close> is the tuple assignment
  (both right-hand reads first, then the two stores from left to right).

  On the specification side \<open>fy_apply cs x\<close> applies the swaps with explicit
  choices \<open>cs\<close>, and \<open>choice_ok n cs\<close> says \<open>cs\<close> is a sequence of choices
  the loop can make on a list of length \<open>n\<close>. For draws in \<open>[0, 1)\<close> the
  shuffle is \<open>fy_apply\<close> of the choices the draws select, hence a
  permutation; and on distinct elements \<open>fy_apply\<close> is a bijection from the
  admissible choice sequences onto the permutations (Fisher--Yates).
\<close>

definition py_int :: "real \<Rightarrow> int" where
  "py_int r = (if 0 \<le> r then \<lfloor>r\<rfloor> else - \<lfloor>- r\<rfloor>)"

definition py_list_get :: "'a list \<Rightarrow> int \<Rightarrow> 'a result" where
  "py_list_get x j =
     (if 0 \<le> j \<and> j < int (length x) then Inr (x ! nat j)
      else if - int (length x) \<le> j \<and> j < 0 then Inr (x ! nat (j + int (length x)))
      else Inl IndexError)"

definition py_list_set :: "'a list \<Rightarrow> int \<Rightarrow> 'a \<Rightarrow> 'a list result" where
  "py_list_set x j v =
     (if 0 \<le> j \<and> j < int (length x) then Inr (x[nat j := v])
      else if - int (length x) \<le> j \<and> j < 0 then Inr (x[nat (j + int (length x)) := v])
      else Inl IndexError)"

definition py_swap :: "'a list \<Rightarrow> int \<Rightarrow> int \<Rightarrow> 'a list result" where
  "py_swap x i j =
     ebind (py_list_get x j) (\<lambda>a.
     ebind (py_list_get x i) (\<lambda>b.
     ebind (py_list_set x i a) (\<lambda>x'.
     py_list_set x' j b)))"

fun shuffle_loop :: "(nat \<Rightarrow> real) \<Rightarrow> nat \<Rightarrow> nat list \<Rightarrow> 'a list \<Rightarrow> 'a list result" where
  "shuffle_loop rnd k [] x = Inr x"
| "shuffle_loop rnd k (i # is) x =
     (let j = py_int (rnd k * real (i + 1)) in
      ebind (py_swap x (int i) j) (shuffle_loop rnd (Suc k) is))"

definition py_shuffle :: "(nat \<Rightarrow> real) \<Rightarrow> 'a list \<Rightarrow> 'a list result" where
  "py_shuffle rnd x = shuffle_loop rnd 0 (rev [1..<length x]) x"

text \<open>Specification side: swaps with explicit choices.\<close>

definition list_swap :: "'a list \<Rightarrow> nat \<Rightarrow> nat \<Rightarrow> 'a list" where
  "list_swap x i j = x[i := x ! j, j := x ! i]"

fun fy_loop :: "nat list \<Rightarrow> nat list \<Rightarrow> 'a list \<Rightarrow> 'a list" where
  "fy_loop (i # is) (c # cs) x = fy_loop is cs (list_swap x i c)"
| "fy_loop is cs x = x"

definition fy_apply :: "nat list \<Rightarrow> 'a list \<Rightarrow> 'a list" where
  "fy_apply cs x = fy_loop (rev [1..<length x]) cs x"

fun choice_ok :: "nat \<Rightarrow> nat list \<Rightarrow> bool" where
  "choice_ok n [] \<longleftrightarrow> n \<le> 1"
| "choice_ok n (c # cs) \<longleftrightarrow> 2 \<le> n \<and> c < n \<and> choice_ok (n - 1) cs"

text \<open>The choices the draws select: \<open>int(rnd k * (i + 1))\<close> for the \<open>k\<close>-th index \<open>i\<close>.\<close>

fun loop_choices :: "(nat \<Rightarrow> real) \<Rightarrow> nat \<Rightarrow> nat list \<Rightarrow> nat list" where
  "loop_choices rnd k [] = []"
| "loop_choices rnd k (i # is) = nat (py_int (rnd k * real (i + 1))) # loop_choices rnd (Suc k) is"

definition shuffle_choices :: "(nat \<Rightarrow> real) \<Rightarrow> nat \<Rightarrow> nat list" where
  "shuffle_choices rnd n = loop_choices rnd 0 (rev [1..<n])"

text \<open>Draws that make the loop on a list of length \<open>n\<close> choose \<open>cs\<close>.\<close>

definition choice_draws :: "nat \<Rightarrow> nat list \<Rightarrow> nat \<Rightarrow> real" where
  "choice_draws n cs m = (if m < length cs then real (cs ! m) / real (n - m) else 0)"


subsection \<open>The Python operations on valid indices\<close>

lemma py_int_draw:
  assumes "0 \<le> r" "r < 1"
  shows "py_int (r * real (Suc i)) = int (nat (py_int (r * real (Suc i))))"
    and "nat (py_int (r * real (Suc i))) \<le> i"
proof -
  have nn: "0 \<le> r * real (Suc i)" using assms(1) by simp
  have "r * real (Suc i) < real (Suc i)" using assms(2) by simp
  then have "\<lfloor>r * real (Suc i)\<rfloor> < int (Suc i)" by (simp add: floor_less_iff)
  with nn show "py_int (r * real (Suc i)) = int (nat (py_int (r * real (Suc i))))"
    and "nat (py_int (r * real (Suc i))) \<le> i"
    by (simp_all add: py_int_def)
qed

lemma list_swap_length [simp]: "length (list_swap x i j) = length x"
  by (simp add: list_swap_def)

lemma py_swap_nat: "i < length x \<Longrightarrow> j \<le> i \<Longrightarrow> py_swap x (int i) (int j) = Inr (list_swap x i j)"
  by (simp add: py_swap_def py_list_get_def py_list_set_def list_swap_def)

lemma shuffle_loop_fy:
  assumes "\<forall>k. 0 \<le> rnd k \<and> rnd k < 1" "\<forall>i \<in> set is. i < length x"
  shows "shuffle_loop rnd k is x = Inr (fy_loop is (loop_choices rnd k is) x)"
  using assms(2)
proof (induction "is" arbitrary: k x)
  case Nil
  then show ?case by simp
next
  case (Cons i "is")
  let ?j = "nat (py_int (rnd k * real (Suc i)))"
  have j: "py_int (rnd k * real (Suc i)) = int ?j" "?j \<le> i"
    using py_int_draw [of "rnd k" i] assms(1) by simp_all
  have i: "i < length x" using Cons.prems by simp
  have "\<forall>m \<in> set is. m < length (list_swap x i ?j)" using Cons.prems by simp
  with Cons.IH [OF this, of "Suc k"] show ?case
    using py_swap_nat [OF i j(2)] j(1) by (simp add: Let_def)
qed

lemma py_shuffle_fy:
  "\<forall>k. 0 \<le> rnd k \<and> rnd k < 1 \<Longrightarrow> py_shuffle rnd x = Inr (fy_apply (shuffle_choices rnd (length x)) x)"
  by (simp add: py_shuffle_def fy_apply_def shuffle_choices_def shuffle_loop_fy)

subsection \<open>Admissible choices\<close>

lemma choice_ok_bound: "choice_ok n cs \<Longrightarrow> c \<in> set cs \<Longrightarrow> c < n"
proof (induction cs arbitrary: n)
  case Nil
  then show ?case by simp
next
  case (Cons a cs)
  show ?case
  proof (cases "c = a")
    case True
    with Cons.prems show ?thesis by simp
  next
    case False
    with Cons.prems have "choice_ok (n - 1) cs" "c \<in> set cs" by auto
    from Cons.IH [OF this] show ?thesis by simp
  qed
qed

lemma choice_ok_length: "choice_ok n cs \<Longrightarrow> length cs = n - 1"
  by (induction cs arbitrary: n) auto

lemma choice_ok_nth: "choice_ok n cs \<Longrightarrow> m < length cs \<Longrightarrow> cs ! m < n - m"
proof (induction cs arbitrary: n m)
  case Nil
  then show ?case by simp
next
  case (Cons c cs)
  show ?case
  proof (cases m)
    case 0
    with Cons.prems show ?thesis by simp
  next
    case (Suc m')
    with Cons.prems Cons.IH [of "n - 1" m'] show ?thesis by simp
  qed
qed

lemma rev_upt_Suc: "1 \<le> n \<Longrightarrow> rev [1..<Suc n] = n # rev [1..<n]"
  by simp

lemma loop_choices_ok:
  assumes "\<forall>k. 0 \<le> rnd k \<and> rnd k < 1"
  shows "choice_ok n (loop_choices rnd k (rev [1..<n]))"
proof (induction n arbitrary: k)
  case 0
  then show ?case by simp
next
  case (Suc n)
  show ?case
  proof (cases "n = 0")
    case True
    then show ?thesis by simp
  next
    case False
    then have "rev [1..<Suc n] = n # rev [1..<n]" by simp
    moreover have "nat (py_int (rnd k * real (Suc n))) \<le> n"
      using py_int_draw [of "rnd k" n] assms by simp
    ultimately show ?thesis using Suc.IH [of "Suc k"] False by simp
  qed
qed

lemma shuffle_choices_ok: "\<forall>k. 0 \<le> rnd k \<and> rnd k < 1 \<Longrightarrow> choice_ok n (shuffle_choices rnd n)"
  unfolding shuffle_choices_def by (rule loop_choices_ok)


subsection \<open>The swaps permute\<close>

lemma list_swap_mset: "i < length x \<Longrightarrow> j < length x \<Longrightarrow> mset (list_swap x i j) = mset x"
  using mset_swap [of j x i] by (simp add: list_swap_def)

lemma list_swap_distinct: "i < length x \<Longrightarrow> j < length x \<Longrightarrow> distinct (list_swap x i j) = distinct x"
  by (simp add: list_swap_def)

lemma list_swap_append:
  "i < length ys \<Longrightarrow> j < length ys \<Longrightarrow> list_swap (ys @ zs) i j = list_swap ys i j @ zs"
  by (simp add: list_swap_def nth_append list_update_append1)

lemma list_swap_nth_i: "i < length x \<Longrightarrow> j < length x \<Longrightarrow> list_swap x i j ! i = x ! j"
  by (simp add: list_swap_def nth_list_update)

lemma snoc_split: "length z = Suc n \<Longrightarrow> z = take n z @ [z ! n]"
  by (metis lessI take_Suc_conv_app_nth take_all order_refl)

lemma fy_loop_mset:
  "\<forall>i \<in> set is. i < length x \<Longrightarrow> \<forall>c \<in> set cs. c < length x \<Longrightarrow>
   mset (fy_loop is cs x) = mset x \<and> length (fy_loop is cs x) = length x"
  by (induction "is" cs x rule: fy_loop.induct) (simp_all add: list_swap_mset)

lemma fy_loop_append:
  "\<forall>i \<in> set is. i < length ys \<Longrightarrow> \<forall>c \<in> set cs. c < length ys \<Longrightarrow>
   fy_loop is cs (ys @ zs) = fy_loop is cs ys @ zs"
  by (induction "is" cs ys rule: fy_loop.induct) (simp_all add: list_swap_append)

lemma fy_apply_mset:
  "choice_ok (length x) cs \<Longrightarrow> mset (fy_apply cs x) = mset x"
  unfolding fy_apply_def using fy_loop_mset [of "rev [1..<length x]" x cs] choice_ok_bound
  by fastforce

text \<open>
  The first swap fixes the last position for good: the remaining swaps
  act on the prefix only.
\<close>

lemma fy_apply_Cons:
  assumes "length x = Suc n" "1 \<le> n" "choice_ok (Suc n) (c # cs)"
  shows "fy_apply (c # cs) x = fy_apply cs (take n (list_swap x n c)) @ [x ! c]"
proof -
  let ?z = "list_swap x n c"
  have c: "c < Suc n" and ok: "choice_ok n cs" using assms(3) by simp_all
  have z: "?z = take n ?z @ [?z ! n]"
    using assms(1) by (simp add: snoc_split [of _ n])
  have zn: "?z ! n = x ! c" using assms(1) c by (simp add: list_swap_nth_i)
  have "fy_loop (rev [1..<n]) cs (take n ?z @ [?z ! n]) = fy_loop (rev [1..<n]) cs (take n ?z) @ [?z ! n]"
    by (rule fy_loop_append) (use assms(1) choice_ok_bound [OF ok] in auto)
  then show ?thesis
    using assms(1,2) z zn by (simp add: fy_apply_def)
qed


subsection \<open>Fisher--Yates: choices and permutations correspond one to one\<close>

lemma swap_prefix:
  assumes "length x = Suc n" "c < Suc n" "distinct x"
  shows "distinct (take n (list_swap x n c))" "length (take n (list_swap x n c)) = n"
  using assms by (simp_all add: list_swap_distinct)

lemma fy_apply_inj:
  assumes "distinct x" "choice_ok (length x) cs" "choice_ok (length x) cs'"
    and "fy_apply cs x = fy_apply cs' x"
  shows "cs = cs'"
  using assms
proof (induction cs arbitrary: x cs')
  case Nil
  then show ?case by (cases cs') auto
next
  case (Cons c ds)
  then have two: "2 \<le> length x" by simp
  obtain n where n: "length x = Suc n" "1 \<le> n" using two by (cases "length x") auto
  obtain c' ds' where cs': "cs' = c' # ds'" using Cons.prems(3) two by (cases cs') auto
  have ok: "choice_ok (Suc n) (c # ds)" "choice_ok (Suc n) (c' # ds')"
    using Cons.prems(2,3) n cs' by simp_all
  let ?p = "take n (list_swap x n c)"
  let ?p' = "take n (list_swap x n c')"
  have eq: "fy_apply ds ?p @ [x ! c] = fy_apply ds' ?p' @ [x ! c']"
    using Cons.prems(4) cs' fy_apply_Cons [OF n ok(1)] fy_apply_Cons [OF n ok(2)] by simp
  then have "x ! c = x ! c'" by simp
  moreover have "c < length x" "c' < length x" using ok n by simp_all
  ultimately have cc: "c = c'" using Cons.prems(1) by (simp add: nth_eq_iff_index_eq)
  with eq have "fy_apply ds ?p = fy_apply ds' ?p" by simp
  moreover have "distinct ?p" "length ?p = n"
    using swap_prefix [OF n(1) _ Cons.prems(1), of c] ok(1) n(1) by simp_all
  moreover have "choice_ok n ds" "choice_ok n ds'" using ok by simp_all
  ultimately have "ds = ds'" using Cons.IH [of ?p ds'] by simp
  with cc cs' show ?case by simp
qed

lemma fy_apply_surj:
  assumes "distinct x" "mset y = mset x"
  shows "\<exists>cs. choice_ok (length x) cs \<and> fy_apply cs x = y"
  using assms
proof (induction "length x" arbitrary: x y)
  case 0
  then show ?case by (intro exI [of _ "[]"]) (simp add: fy_apply_def)
next
  case (Suc n)
  have ly: "length y = Suc n" using Suc.hyps(2) Suc.prems(2) by (metis size_mset)
  show ?case
  proof (cases "n = 0")
    case True
    then obtain a b where "x = [a]" "y = [b]" using Suc.hyps(2) ly
      by (metis length_0_conv length_Suc_conv)
    with Suc.prems(2) show ?thesis by (intro exI [of _ "[]"]) (auto simp: fy_apply_def)
  next
    case False
    let ?b = "y ! n"
    have "?b \<in> set x" using Suc.prems(2) ly by (metis lessI mset_eq_setD nth_mem)
    then obtain c where c: "c < Suc n" "x ! c = ?b" using Suc.hyps(2) by (metis in_set_conv_nth)
    let ?z = "list_swap x n c"
    let ?p = "take n ?z"
    have "?z ! n = ?b" using Suc.hyps(2) c by (simp add: list_swap_nth_i)
    moreover have "?z = ?p @ [?z ! n]" by (rule snoc_split) (simp add: Suc.hyps(2)[symmetric])
    ultimately have z: "?z = ?p @ [?b]" by simp
    have y: "y = take n y @ [?b]" by (rule snoc_split [OF ly])
    have "mset ?z = mset y" using list_swap_mset [of n x c] Suc.hyps(2) c Suc.prems(2) by simp
    then have "mset (?p @ [?b]) = mset (take n y @ [?b])" using z y by metis
    then have m: "mset (take n y) = mset ?p" by simp
    have p: "distinct ?p" "n = length ?p" using swap_prefix [OF Suc.hyps(2)[symmetric] c(1) Suc.prems(1)] by simp_all
    obtain ds where ds: "choice_ok n ds" "fy_apply ds ?p = take n y"
      using Suc.hyps(1) [OF p(2) p(1) m] p(2) by auto
    have ok: "choice_ok (Suc n) (c # ds)" using ds(1) c(1) False by simp
    have "fy_apply (c # ds) x = y"
      using fy_apply_Cons [OF Suc.hyps(2)[symmetric] _ ok] False ds(2) c(2) y by simp
    with ok Suc.hyps(2) show ?thesis by (metis)
  qed
qed


subsection \<open>Every admissible choice sequence is made by some draws\<close>

lemma py_int_of_nat [simp]: "py_int (real c) = int c"
  by (simp add: py_int_def)

lemma loop_choices_eq:
  assumes "length cs = length is" "\<forall>m < length is. rnd (k + m) * real (Suc (is ! m)) = real (cs ! m)"
  shows "loop_choices rnd k is = cs"
  using assms
proof (induction "is" arbitrary: k cs)
  case Nil
  then show ?case by simp
next
  case (Cons i "is")
  then obtain c cs' where cs: "cs = c # cs'" by (cases cs) auto
  have "rnd k * real (Suc i) = real c" using Cons.prems(2) cs by (metis add_0_right length_Cons nth_Cons_0 zero_less_Suc)
  moreover have "loop_choices rnd (Suc k) is = cs'"
  proof (rule Cons.IH)
    show "length cs' = length is" using Cons.prems(1) cs by simp
    show "\<forall>m < length is. rnd (Suc k + m) * real (Suc (is ! m)) = real (cs' ! m)"
      using Cons.prems(2) cs by (metis Suc_less_eq add_Suc_shift length_Cons nth_Cons_Suc add_Suc)
  qed
  ultimately show ?case using cs by simp
qed

lemma choice_draws_realise:
  assumes "choice_ok n cs"
  shows "(\<forall>k. 0 \<le> choice_draws n cs k \<and> choice_draws n cs k < 1) \<and> shuffle_choices (choice_draws n cs) n = cs"
proof
  show "\<forall>k. 0 \<le> choice_draws n cs k \<and> choice_draws n cs k < 1"
    using choice_ok_nth [OF assms] by (auto simp: choice_draws_def divide_less_eq_1)
next
  have len: "length cs = length (rev [1..<n])" using choice_ok_length [OF assms] by simp
  have "\<forall>m < length (rev [1..<n]). choice_draws n cs (0 + m) * real (Suc (rev [1..<n] ! m)) = real (cs ! m)"
  proof (intro allI impI)
    fix m assume m: "m < length (rev [1..<n])"
    then have "Suc (rev [1..<n] ! m) = n - m" by (simp add: rev_nth)
    moreover have "m < length cs" using m len by simp
    ultimately show "choice_draws n cs (0 + m) * real (Suc (rev [1..<n] ! m)) = real (cs ! m)"
      using m by (simp add: choice_draws_def)
  qed
  from loop_choices_eq [OF len this] show "shuffle_choices (choice_draws n cs) n = cs"
    by (simp add: shuffle_choices_def)
qed


lemma fy_apply_bij:
  assumes "distinct x"
  shows "bij_betw (\<lambda>cs. fy_apply cs x) {cs. choice_ok (length x) cs} {y. mset y = mset x}"
  unfolding bij_betw_def
proof
  show "inj_on (\<lambda>cs. fy_apply cs x) {cs. choice_ok (length x) cs}"
    using fy_apply_inj [OF assms] by (auto intro: inj_onI)
  show "(\<lambda>cs. fy_apply cs x) ` {cs. choice_ok (length x) cs} = {y. mset y = mset x}"
    using fy_apply_mset fy_apply_surj [OF assms] by fastforce
qed

subsection \<open>Properties\<close>

text \<open>
  C11. \<open>random.shuffle\<close> on draws of \<open>random()\<close> in \<open>[0, 1)\<close>: every index it
  computes, \<open>int(random() * (i+1))\<close>, lies in \<open>0..i\<close>, so it never raises,
  and it returns a permutation of its input: the list the swaps with those
  choices produce.
\<close>

theorem py_shuffle_permutes:
  assumes "\<forall>k. 0 \<le> rnd k \<and> rnd k < 1"
  shows "\<exists>y. py_shuffle rnd x = Inr y \<and> mset y = mset x \<and>
           y = fy_apply (shuffle_choices rnd (length x)) x \<and>
           choice_ok (length x) (shuffle_choices rnd (length x))"
  using py_shuffle_fy [OF assms] shuffle_choices_ok [OF assms] fy_apply_mset by blast

theorem py_shuffle_permutes_witness:
  "\<exists>y. py_shuffle (\<lambda>k. 1 / 2) [1, 2, 3 :: nat] = Inr y \<and> mset y = mset [1, 2, 3 :: nat] \<and>
     y = fy_apply (shuffle_choices (\<lambda>k. 1 / 2) (length [1, 2, 3 :: nat])) [1, 2, 3] \<and>
     choice_ok (length [1, 2, 3 :: nat]) (shuffle_choices (\<lambda>k. 1 / 2) (length [1, 2, 3 :: nat]))"
  using py_shuffle_permutes [of "\<lambda>k. 1 / 2" "[1, 2, 3 :: nat]"] by simp

text \<open>
  C13. The shuffle is unbiased in the combinatorial sense (Fisher--Yates):
  on distinct elements the map from the admissible choice sequences to
  results is a bijection onto the permutations, so each permutation comes
  from exactly one sequence of choices; and every permutation is returned
  by \<open>random.shuffle\<close> for some draws in \<open>[0, 1)\<close>.
\<close>

theorem shuffle_fisher_yates:
  assumes "distinct x"
  shows "bij_betw (\<lambda>cs. fy_apply cs x) {cs. choice_ok (length x) cs} {y. mset y = mset x} \<and>
         (\<forall>y. mset y = mset x \<longrightarrow> (\<exists>rnd. (\<forall>k. 0 \<le> rnd k \<and> rnd k < 1) \<and> py_shuffle rnd x = Inr y))"
proof
  show "bij_betw (\<lambda>cs. fy_apply cs x) {cs. choice_ok (length x) cs} {y. mset y = mset x}"
    by (rule fy_apply_bij [OF assms])
  show "\<forall>y. mset y = mset x \<longrightarrow> (\<exists>rnd. (\<forall>k. 0 \<le> rnd k \<and> rnd k < 1) \<and> py_shuffle rnd x = Inr y)"
  proof (intro allI impI)
    fix y assume "mset y = mset x"
    then obtain cs where cs: "choice_ok (length x) cs" "fy_apply cs x = y"
      using fy_apply_surj [OF assms] by blast
    from choice_draws_realise [OF cs(1)] cs(2) py_shuffle_fy [of "choice_draws (length x) cs" x]
    show "\<exists>rnd. (\<forall>k. 0 \<le> rnd k \<and> rnd k < 1) \<and> py_shuffle rnd x = Inr y" by auto
  qed
qed

theorem shuffle_fisher_yates_witness:
  "bij_betw (\<lambda>cs. fy_apply cs [1, 2, 3 :: nat]) {cs. choice_ok (length [1, 2, 3 :: nat]) cs}
     {y. mset y = mset [1, 2, 3 :: nat]} \<and>
   (\<exists>rnd. (\<forall>k. 0 \<le> rnd k \<and> rnd k < 1) \<and> py_shuffle rnd [1, 2, 3 :: nat] = Inr [3, 1, 2])"
proof -
  have d: "distinct [1, 2, 3 :: nat]" by simp
  have m: "mset [3, 1, 2 :: nat] = mset [1, 2, 3]" by simp
  from shuffle_fisher_yates [OF d] m show ?thesis by blast
qed

end
