(* ===== verification/Spec2Isabelle.thy ===== *)
theory Spec2Isabelle
  imports Regression Regression_Output Dataset Dataset_Converge Dataset_Output Titanic Titanic_Run
    Titanic_Machine Titanic_Metrics Titanic_Decode Titanic_Output Float_Parse Shuffle
begin

text \<open>
  \<^bold>\<open>A verification model of learn-ai's gradient-descent teaching scripts.\<close>

  \<^bold>\<open>The program.\<close> \<open>src/learn_ml\<close> holds three stand-alone Python 2 scripts
  that train a linear model \<open>y = w \<cdot> x\<close>, \<open>x\<close> the features with a constant
  bias input 1 at index 0, by gradient descent on the squared loss:
  \<^item> \<open>04_regression.py\<close> learns \<open>f(x) = 10 + 8x\<^sub>1 - 2x\<^sub>2 + x\<^sub>3/2\<close> from random
    draws, estimating each partial derivative by a one-sided finite
    difference with \<open>E = 0.0001\<close> and stepping \<open>STEP = 0.01\<close>, 1000 times;
  \<^item> \<open>06_dataset.py\<close> learns from ten fixed observations, 1000 epochs of
    online updates with the analytic gradient \<open>2 (y - t) x\<close>;
  \<^item> \<open>10_titanic.py\<close> one-hot encodes six categorical CSV columns into 21
    features, trains for up to 4000 epochs with a shuffle per epoch, a
    three-phase learning rate and a plateau detector, and reports training
    and validation accuracy.
  The scripts share no code; what they share is the trainer's shape
  (predict, loss, gradient, update), which the cross-script theorem below
  relates.

  \<^bold>\<open>Theories.\<close>
  \<^item> \<open>Prelude\<close>: the Python exceptions (\<open>py_error\<close>), results \<open>py_error + 'a\<close>
    threaded by \<open>ebind\<close> (an uncaught raise ends the script), float arrays
    as \<open>vec = real list\<close>, \<open>dot\<close>, the gradient step \<open>descend\<close>, the squared
    distance \<open>sqdist\<close> and their algebra; and printing runs
    \<open>('o, 'a) io\<close>: the lines printed, in order, paired with the outcome,
    sequenced by \<open>tbind\<close>, a \<open>print\<close> statement being \<open>emit\<close> (lines printed
    before a raise stay printed).
  \<^item> \<open>Numpy\<close>: the numpy and built-in operations the scripts call, with
    numpy's broadcasting and its \<open>ValueError\<close> on shape mismatch
    (\<open>np_broadcast\<close>, \<open>np_mul\<close>, \<open>np_add\<close>, \<open>np_iadd\<close>), \<open>np.insert\<close>,
    \<open>np.zeros\<close>, item assignment with \<open>IndexError\<close>, \<open>sum\<close>, \<open>np.diff\<close>,
    \<open>np.allclose\<close>, dict lookup with \<open>KeyError\<close>, \<open>float()\<close> of a decimal
    string, Python division by a length with \<open>ZeroDivisionError\<close>, and
    numpy float64 division (\<open>py_fdiv\<close>), which by IEEE 754 gives
    \<open>inf\<close>, \<open>-inf\<close> or \<open>nan\<close> for a zero divisor instead of raising; the
    model records such a value as the outcome \<open>NonFinite\<close> (Prelude) and
    stops there, where the script would run on with a warning.
  \<^item> \<open>Regression\<close> (04): \<open>rand_unit\<close> (\<open>np.random.rand(k) * 2 - 1\<close>),
    \<open>f_target\<close> (\<open>f\<close>), \<open>loss\<close>, \<open>grad_loop\<close> (the
    derivative loop, lines 89--104), \<open>regression_iteration\<close> (the body of
    the iteration loop), \<open>regression_loop\<close>, \<open>regression_main\<close>; the constants
    form \<open>reg_config\<close>, the script's values \<open>cfg04\<close>. Reference semantics:
    \<open>fd_gradient\<close> and \<open>regression_spec\<close>.
  \<^item> \<open>Regression_Output\<close> (04): the script with its \<open>print\<close> statements:
    \<open>regression_iteration_io\<close> prints \<open>(j, inp, target, l)\<close> (\<open>reg_line\<close>)
    after the loss and before the derivative loop, \<open>regression_loop_io\<close>,
    \<open>regression_main_io\<close> prints \<open>W\<close> at the end.
  \<^item> \<open>Dataset\<close> (06): \<open>X06\<close>, \<open>T06\<close>, \<open>data06\<close>, \<open>dataset_loss\<close>,
    \<open>dataset_sample_step\<close> (the inner-loop body), \<open>dataset_epoch\<close>,
    \<open>dataset_loop\<close>, \<open>dataset_main\<close>; constants \<open>ds_config\<close>/\<open>cfg06\<close>.
    Reference semantics: \<open>analytic_gradient\<close>, \<open>sgd_step\<close>, \<open>ds_epoch_spec\<close>.
  \<^item> \<open>Dataset_Converge\<close> (06): the error map of a step and of an epoch
    about the exact fit \<open>[1, 100]\<close> (\<open>err_step\<close>, \<open>err_epoch\<close>), their
    linearity, the exact epoch matrix \<open>err06\<close>, and its trace
    \<open>epoch_factor06\<close>, the per-epoch contraction factor.
  \<^item> \<open>Dataset_Output\<close> (06): \<open>dataset_sample_io\<close> prints
    \<open>(x, t, y, l)\<close> for every sample (\<open>ds_line\<close>), \<open>dataset_epoch_io\<close>,
    \<open>dataset_loop_io\<close>, \<open>dataset_main_io\<close> ends with the empty line and
    \<open>W\<close>; \<open>ds_lines\<close> are the lines of a reference epoch.
  \<^item> \<open>Titanic\<close> (10): \<open>vocabs\<close>, \<open>encode_items\<close>/\<open>encode\<close>, \<open>target_of\<close>,
    \<open>count_correct\<close>, \<open>batch_loop\<close> (the inner loop), the state record
    \<open>titanic_state\<close> of the module variables (data, w, STEP, dw, losses, l,
    accuracy, i), \<open>titanic_epoch\<close> (one pass of \<open>for i in xrange(4000)\<close>,
    returning whether it breaks), \<open>titanic_loop\<close>, \<open>validation_count\<close>,
    \<open>titanic_report\<close> (the two final prints), \<open>titanic_main\<close>. Reference
    notions: \<open>row_ok\<close>, \<open>selected\<close>, \<open>onehot\<close>, \<open>lr_schedule\<close>, \<open>loop_inv\<close>.
  \<^item> \<open>Titanic_Run\<close> (10, whole runs): the state predicates \<open>titanic_wf\<close>
    (shape of \<open>w\<close> and \<open>dw\<close>), \<open>row_valid\<close> (a row the script can use),
    \<open>run_ok\<close> (the state between epochs on valid data) and \<open>fits\<close> (weights
    that predict every training row exactly), with the lemmas that each
    epoch keeps them.
  \<^item> \<open>Titanic_Machine\<close> (10): the specification's two-state trainer
    (\<open>trainer\<close>: \<open>Training j s\<close> before epoch \<open>j\<close>, \<open>Finished s\<close>) and its
    step relation \<open>trainer_step\<close> (an inductive predicate, one rule per
    outcome of an epoch: plateau, budget spent, next epoch), with the
    invariant \<open>trainer_inv\<close> and the lemma that \<open>titanic_loop\<close> runs the
    machine to a finished state.
  \<^item> \<open>Titanic_Metrics\<close> (10): \<open>row_sqerr\<close>, \<open>row_correct\<close>, \<open>hits\<close>,
    what the printed loss and accuracies are meant to be.
  \<^item> \<open>Titanic_Decode\<close> (10): \<open>decode\<close>, the inverse of the one-hot encoding,
    a specification-side function.
  \<^item> \<open>Titanic_Output\<close> (10): \<open>titanic_epoch_io\<close> prints
    \<open>(i, l, accuracy)\<close> after the update when \<open>i % 100 == 0\<close>,
    \<open>titanic_loop_io\<close>, \<open>titanic_report_io\<close> prints the \<open>TRAINING\<close> line
    before and the \<open>VALIDATION\<close> line after the validation loop,
    \<open>titanic_main_io\<close> (\<open>titanic_line\<close>).
    Each printing run, with its output erased, is the corresponding
    definition of \<open>Regression\<close>, \<open>Dataset\<close> or \<open>Titanic\<close> (the
    \<open>_io_result\<close> lemmas), so the theorems about results carry over.
  \<^item> \<open>Float_Parse\<close>: \<open>py_str_nat\<close>, Python's \<open>str\<close> of a natural number,
    against which \<open>float()\<close> of \<open>Numpy\<close> is checked.
  \<^item> \<open>Shuffle\<close> (10, line 36 \<open>random.shuffle(data)\<close>): Python 2.7's
    \<open>random.shuffle\<close> as the library implements it, \<open>for i in
    reversed(xrange(1, len(x))): j = int(random() * (i+1)); x[i], x[j] =
    x[j], x[i]\<close>: \<open>py_int\<close> (\<open>int()\<close>, truncation toward zero),
    \<open>py_list_get\<close>/\<open>py_list_set\<close> (list indexing with negative indices
    and \<open>IndexError\<close>), \<open>py_swap\<close> (the tuple assignment: both reads
    before both writes), \<open>shuffle_loop\<close> and \<open>py_shuffle\<close>; the draws of
    \<open>random()\<close> are a parameter \<open>rnd\<close>. The specification side is
    Fisher--Yates with explicit choices: \<open>choice_ok\<close> (the admissible
    index sequences), \<open>fy_apply\<close> (the swaps they select) and
    \<open>shuffle_choices\<close> (the indices the draws select). The root theory's
    \<open>py_shuffler\<close> turns per-epoch draws into the shuffler the titanic
    model takes as parameter.

  \<^bold>\<open>Modelling choices.\<close> Python floats are reals: rounding is not modelled,
  so the theorems state the exact arithmetic the code intends (the
  finite-difference identity, the residual factors and the fixed points are
  exact over the reals). Loops over \<open>xrange(n)\<close> are structural recursion
  over \<open>[0..<n]\<close>, so every run terminates and no fuel is needed; the
  \<open>break\<close> of the plateau detector ends \<open>titanic_loop\<close> early. Randomness
  is a parameter, given as the raw output of \<open>np.random.rand\<close>, which the
  model rescales as the scripts do: in 04 \<open>gen j\<close> is the draw of iteration
  \<open>j\<close> and \<open>r0\<close> that of the initial weights, both mapped to \<open>[-1, 1)\<close> by
  \<open>rand_unit\<close> (\<open>* 2 - 1\<close>); in 06 \<open>r0\<close> gives \<open>w = r0 - .5\<close>; in 10
  \<open>sh i xs\<close> is the order \<open>random.shuffle\<close> gives the training list in
  epoch \<open>i\<close>; whole-run theorems assume only that it permutes, and
  C15 discharges that assumption with the \<open>random.shuffle\<close> of \<open>Shuffle\<close>
  for any draws of \<open>random()\<close> in \<open>[0, 1)\<close>. A CSV row is an association list
  from column to string. Python 2 iterates \<open>vocabs.items()\<close> in an
  unspecified order; the model uses the source order and
  claim C17 shows the order is irrelevant.

  \<^bold>\<open>What is proved.\<close>
  \<^item> 04: the derivative loop computes exactly \<open>2 (y - t) x\<^sub>i + E x\<^sub>i\<^sup>2\<close>
    (C1); the closed form of an iteration (C2); the whole script refines the
    reference run and never raises on well-shaped draws (C3); its error
    paths, \<open>IndexError\<close> and \<open>ValueError\<close>, and with \<open>E = 0\<close> the first
    difference quotient \<open>0.0 / 0.0\<close>, which numpy makes \<open>nan\<close> (C10); the exact weights of \<open>f\<close> drift by \<open>-STEP E x\<^sub>i\<^sup>2\<close> (C12);
    for draws in \<open>[0, 1)\<close> each update is
    exact gradient descent up to a bias in \<open>[0, STEP \<cdot> E] = [0, 10\<^sup>-\<^sup>6]\<close>
    per weight (C31); the script prints, for every iteration \<open>j\<close>, the
    bias-extended draw, its target and the loss of the reference run's
    weights before step \<open>j\<close>, and finally those weights (C8).
  \<^item> 06: the sample update (C4); refinement of the run (C5); residual
    contraction by \<open>1 - 2 STEP (1 + x\<^sup>2)\<close> (C6); the distance to an exact
    fit never grows while \<open>STEP (1 + x\<^sup>2) \<le> 1\<close> (C7); at \<open>x = 10\<close> the script's step overshoots
    (C9); the whole run converges: from any draw the
    final weights are \<open>[1, 100] + \<lambda>\<^sup>9\<^sup>9\<^sup>9 e\<^sub>1\<close>, \<open>0 < \<lambda> < 0.97\<close>, \<open>e\<^sub>1\<close> the
    error after the first epoch (C27), and for every draw in \<open>[0, 1)\<^sup>2\<close>
    the printed weights are within \<open>10\<^sup>-\<^sup>1\<^sup>0\<close> of \<open>[1, 100]\<close> (C30). The
    sample \<open>x = 7\<close> makes the epoch matrix singular, which is why one
    factor \<open>\<lambda>\<close> describes every later epoch; \<open>\<lambda>\<^sup>9\<^sup>9\<^sup>9 \<le> 0.16\<^sup>1\<^sup>5\<close> is
    shown by splitting the power, exact rational arithmetic throughout.
    The script prints 10002 lines, and from the third epoch on each
    printed loss is \<open>\<lambda>\<^sup>2\<close> times the loss printed for the same sample one
    epoch earlier (C22).
  \<^item> 10: \<open>encode\<close> refines one-hot encoding (C14), its errors (C16), independence of the dict order (C17); the
    epoch update uses the last sample's gradient only (C18); \<open>NameError\<close>
    on empty data (C19); the loop invariant: schedule, plateau window and
    the epochs where the loop can stop (C20); the progress lines are printed exactly at
    the epochs \<open>0, 100, 200, \<dots>\<close> the run reaches, with a non-negative loss
    and a count between 0 and \<open>len(data)\<close> (C21); on more than 595 valid rows and a
    shuffle that permutes, the script runs to its end without raising and
    prints two percentages (C23); once the weights fit every training row
    the plateau detector stops the loop at the next epoch \<open>i\<close> with
    \<open>i mod 5 = 4\<close> (C24); decoding an encoded row gives back its six
    categorical values (C25); an epoch's recorded loss is the mean squared
    error, and its accuracy the number of correctly classified rows, of
    the weights it started from (C28); the report prints these counts as
    percentages of the partition sizes (C29); the script's printed weights
    are those of a finished state of the trainer machine reached from the
    initial trainer (C32), the machine's states satisfying the schedule
    and plateau-window invariant by rule induction over its runs; on a
    file of at most 595 valid rows the script prints its progress lines
    and the \<open>TRAINING\<close> line and then raises \<open>ZeroDivisionError\<close>, before
    any \<open>VALIDATION\<close> line (C33); an epoch
    changes only the weights of the features active in the last row of
    its shuffled order (C34).
  \<^item> \<open>random.shuffle\<close>: for draws in \<open>[0, 1)\<close> every index
    \<open>int(random() * (i+1))\<close> lies in \<open>0..i\<close>, the shuffle never raises
    and returns a permutation, the swaps of its index sequence (C11); on
    distinct elements the swap sequence is a bijection from the admissible
    index sequences onto the permutations, so each ordering comes from
    exactly one index sequence, and every ordering is returned for some
    draws (C13); composed with the titanic script, every epoch's shuffle
    returns without raising and on more than 595 valid rows the script
    runs to its end and prints two percentages (C15).
  \<^item> \<open>float()\<close>: \<open>float(str(n)) = n\<close> and \<open>float("-" + str(n)) = -n\<close> (C26).

  \<^bold>\<open>Not modelled.\<close> The random number generators
  (\<open>np.random.rand\<close>, \<open>random.random\<close>, the Mersenne Twister behind
  them) and \<open>random.seed(1)\<close>: their outputs are parameters, so the
  theorems hold for every seed and every draw sequence, and the statement
  that each ordering is equally likely is the combinatorial one of C13 (a
  distribution of the draws is not modelled); the float rounding of
  \<open>random() * (i+1)\<close> in \<open>random.shuffle\<close> is not modelled either. Also not
  modelled: the decimal formatting of printed
  numbers (a printed line is modelled by the values it shows), and \<open>csv.DictReader\<close>'s file parsing (rows are
  given). Floating-point rounding is not modelled (see above), nor what
  a script does after numpy produced \<open>inf\<close> or \<open>nan\<close>: the model stops
  at that value (\<open>NonFinite\<close>); only \<open>E = 0\<close> in 04 reaches it. \<open>float()\<close>
  is modelled on signed decimal literals only; its other accepted forms
  (exponents, blanks, \<open>inf\<close>, \<open>nan\<close>) are not.

  \<^bold>\<open>Plan for later work.\<close> The averaged-gradient variant the spec
  describes for the titanic trainer as an alternative reference semantics
  (C18 already shows the code's update differs from it), convergence
  statements for 04 under assumptions on the distribution of its draws, and
  Python's decimal formatting of the printed floats.
\<close>

text \<open>
  The shuffler \<open>random.shuffle\<close> realises in epoch \<open>i\<close> when its calls of
  \<open>random()\<close> return \<open>rnds i 0, rnds i 1, \<dots>\<close> (for draws in \<open>[0, 1)\<close>; see
  \<open>Shuffle\<close>).
\<close>

definition py_shuffler :: "(nat \<Rightarrow> nat \<Rightarrow> real) \<Rightarrow> shuffler" where
  "py_shuffler rnds i xs = fy_apply (shuffle_choices (rnds i) (length xs)) xs"

text \<open>
  C15. The titanic script composed with Python's \<open>random.shuffle\<close>: for
  any draws of \<open>random()\<close> in \<open>[0, 1)\<close>, every epoch's shuffle returns
  without raising the list \<open>py_shuffler\<close> gives, and on more than 595
  valid rows the script with that shuffle runs to its end and prints two
  percentages between 0 and 100. The assumption of claim C23 that the
  shuffle permutes is thus discharged by the shuffle the script calls.
\<close>

theorem titanic_with_python_shuffle:
  assumes "595 < length rows" "list_all row_valid rows" "\<forall>i k. 0 \<le> rnds i k \<and> rnds i k < 1"
  shows "(\<forall>i xs. py_shuffle (rnds i) xs = Inr (py_shuffler rnds i xs)) \<and>
         (\<exists>w train valid. titanic_main (py_shuffler rnds) rows = Inr (w, train, valid) \<and>
            0 \<le> train \<and> train \<le> 100 \<and> 0 \<le> valid \<and> valid \<le> 100)"
proof
  show "\<forall>i xs. py_shuffle (rnds i) xs = Inr (py_shuffler rnds i xs)"
  proof (intro allI)
    fix i and xs :: "row list"
    have "\<forall>k. 0 \<le> rnds i k \<and> rnds i k < 1" using assms(3) by simp
    from py_shuffle_fy [OF this, of xs] show "py_shuffle (rnds i) xs = Inr (py_shuffler rnds i xs)"
      by (simp add: py_shuffler_def)
  qed
  have "\<forall>i xs. mset (py_shuffler rnds i xs) = mset xs"
  proof (intro allI)
    fix i and xs :: "row list"
    have "\<forall>k. 0 \<le> rnds i k \<and> rnds i k < 1" using assms(3) by simp
    from fy_apply_mset [OF shuffle_choices_ok [OF this]]
    show "mset (py_shuffler rnds i xs) = mset xs" by (simp add: py_shuffler_def)
  qed
  from titanic_main_completes [OF assms(1,2) this]
  show "\<exists>w train valid. titanic_main (py_shuffler rnds) rows = Inr (w, train, valid) \<and>
          0 \<le> train \<and> train \<le> 100 \<and> 0 \<le> valid \<and> valid \<le> 100" .
qed

theorem titanic_with_python_shuffle_witness:
  "(\<forall>i xs. py_shuffle ((\<lambda>i k. 0) i) xs = Inr (py_shuffler (\<lambda>i k. 0) i (xs :: row list))) \<and>
   (\<exists>w train valid. titanic_main (py_shuffler (\<lambda>i k. 0)) (replicate 596 passenger_survived) = Inr (w, train, valid) \<and>
      0 \<le> train \<and> train \<le> 100 \<and> 0 \<le> valid \<and> valid \<le> 100)"
  using titanic_with_python_shuffle [of "replicate 596 passenger_survived" "\<lambda>i k. 0"]
  by (simp add: list_all_iff row_valid_passengers)

end
